(* ===== verification/Prelude.thy ===== *)
theory Prelude
  imports Main "HOL-Library.AList"
begin

text \<open>
  The vocabulary every component shares: Python exceptions as values, computations that may
  raise while they change a state, dictionaries with Python's insertion order, and the string
  methods the code calls. The collections declared here carry the component proofs:
  \<open>py_eval\<close> holds the evaluation rules of the combinators, \<open>act_inv\<close> the rules
  that an invariant of the state survives a computation, whatever its outcome.
\<close>

named_theorems py_eval "evaluation rules of the result and state combinators"
named_theorems act_inv "an invariant of the state is kept by a computation"

section \<open>Exceptions and results\<close>

text \<open>
  The exceptions the code raises or lets through. \<open>ApiError reason\<close> is an exception of a
  client library that carries a \<open>reason\<close> attribute, \<open>OtherError\<close> one that does not.
  \<open>NoReturn\<close> is not a Python exception: it marks a run that does not come back within the
  fuel or the random draws it was given, so that non-termination is a visible outcome.
\<close>

datatype exn =
    KeyError string
  | ValueError
  | TypeError
  | AttributeError
  | AssertionError
  | IndexError
  | ZeroDivisionError
  | OverflowError
  | NotImplementedError
  | TransitionNotAllowed
  | ApiError string
  | OtherError string
  | SystemExit
  | NoReturn

type_synonym 'a res = "exn + 'a"

fun rbind :: "'a res \<Rightarrow> ('a \<Rightarrow> 'b res) \<Rightarrow> 'b res" where
  "rbind (Inl e) f = Inl e"
| "rbind (Inr x) f = f x"

declare rbind.simps [py_eval]

lemma rbind_Inr_iff: "rbind m f = Inr y \<longleftrightarrow> (\<exists>x. m = Inr x \<and> f x = Inr y)"
  by (cases m) auto

lemma rbind_Inl_iff:
  "rbind m f = Inl e \<longleftrightarrow> m = Inl e \<or> (\<exists>x. m = Inr x \<and> f x = Inl e)"
  by (cases m) auto

lemma rbind_assoc: "rbind (rbind m f) g = rbind m (\<lambda>x. rbind (f x) g)"
  by (cases m) auto

text \<open>\<open>except Exception\<close> catches everything but an exit of the interpreter.\<close>

fun caught :: "exn \<Rightarrow> bool" where
  "caught SystemExit = False"
| "caught NoReturn = False"
| "caught _ = True"

text \<open>A list of results, stopping at the first exception.\<close>

fun rmap :: "('a \<Rightarrow> 'b res) \<Rightarrow> 'a list \<Rightarrow> 'b list res" where
  "rmap f [] = Inr []"
| "rmap f (x # xs) = rbind (f x) (\<lambda>y. rbind (rmap f xs) (\<lambda>ys. Inr (y # ys)))"

lemma rmap_length: "rmap f xs = Inr ys \<Longrightarrow> length ys = length xs"
  by (induction xs arbitrary: ys) (auto simp: rbind_Inr_iff)

section \<open>Computations over a state\<close>

text \<open>
  A method that may raise and that changes its object or the outside world takes the state
  and returns its outcome together with the state it leaves behind: an exception does not
  undo the assignments made before it.
\<close>

type_synonym ('s, 'a) act = "'s \<Rightarrow> 'a res \<times> 's"

definition ret :: "'a \<Rightarrow> ('s, 'a) act" where
  "ret x s = (Inr x, s)"

definition throw :: "exn \<Rightarrow> ('s, 'a) act" where
  "throw e s = (Inl e, s)"

definition lift :: "'a res \<Rightarrow> ('s, 'a) act" where
  "lift r s = (r, s)"

definition reads :: "('s \<Rightarrow> 'a) \<Rightarrow> ('s, 'a) act" where
  "reads f s = (Inr (f s), s)"

definition modify :: "('s \<Rightarrow> 's) \<Rightarrow> ('s, unit) act" where
  "modify f s = (Inr (), f s)"

definition bind :: "('s, 'a) act \<Rightarrow> ('a \<Rightarrow> ('s, 'b) act) \<Rightarrow> ('s, 'b) act" where
  "bind m f s = (case m s of (Inl e, s') \<Rightarrow> (Inl e, s') | (Inr x, s') \<Rightarrow> f x s')"

definition andthen :: "('s, unit) act \<Rightarrow> ('s, 'b) act \<Rightarrow> ('s, 'b) act" where
  "andthen m k = bind m (\<lambda>_. k)"

text \<open>\<open>try: m except Exception as e: h e\<close>.\<close>

definition attempt :: "('s, 'a) act \<Rightarrow> (exn \<Rightarrow> ('s, 'a) act) \<Rightarrow> ('s, 'a) act" where
  "attempt m h s = (case m s of
      (Inl e, s') \<Rightarrow> (if caught e then h e s' else (Inl e, s'))
    | (Inr x, s') \<Rightarrow> (Inr x, s'))"

text \<open>\<open>for x in xs: body x\<close>; an exception in the body leaves the loop.\<close>

fun for_each :: "'x list \<Rightarrow> ('x \<Rightarrow> ('s, unit) act) \<Rightarrow> ('s, unit) act" where
  "for_each [] body s = (Inr (), s)"
| "for_each (x # xs) body s =
     (case body x s of (Inl e, s') \<Rightarrow> (Inl e, s') | (Inr _, s') \<Rightarrow> for_each xs body s')"

lemma ret_eval [py_eval]: "ret x s = (Inr x, s)"
  by (simp add: ret_def)

lemma throw_eval [py_eval]: "throw e s = (Inl e, s)"
  by (simp add: throw_def)

lemma lift_eval [py_eval]: "lift r s = (r, s)"
  by (simp add: lift_def)

lemma reads_eval [py_eval]: "reads f s = (Inr (f s), s)"
  by (simp add: reads_def)

lemma modify_eval [py_eval]: "modify f s = (Inr (), f s)"
  by (simp add: modify_def)

lemma bind_Inl [py_eval]: "m s = (Inl e, s') \<Longrightarrow> bind m f s = (Inl e, s')"
  by (simp add: bind_def)

lemma bind_Inr [py_eval]: "m s = (Inr x, s') \<Longrightarrow> bind m f s = f x s'"
  by (simp add: bind_def)

lemma andthen_Inl [py_eval]: "m s = (Inl e, s') \<Longrightarrow> andthen m k s = (Inl e, s')"
  by (simp add: andthen_def bind_def)

lemma andthen_Inr [py_eval]: "m s = (Inr (), s') \<Longrightarrow> andthen m k s = k s'"
  by (simp add: andthen_def bind_def)

lemma bind_Inr_iff:
  "bind m f s = (Inr y, t) \<longleftrightarrow> (\<exists>x s'. m s = (Inr x, s') \<and> f x s' = (Inr y, t))"
  by (auto simp: bind_def split: prod.splits sum.splits)

lemma andthen_Inr_iff:
  "andthen m k s = (Inr y, t) \<longleftrightarrow> (\<exists>s'. m s = (Inr (), s') \<and> k s' = (Inr y, t))"
  by (simp add: andthen_def bind_Inr_iff)

lemma for_each_append:
  "for_each (xs @ ys) body = andthen (for_each xs body) (for_each ys body)"
proof (rule ext)
  fix s
  show "for_each (xs @ ys) body s = andthen (for_each xs body) (for_each ys body) s"
    by (induction xs arbitrary: s)
      (auto simp: andthen_def bind_def split: prod.splits sum.splits)
qed

section \<open>Invariants of the state\<close>

text \<open>
  \<open>keeps P m\<close>: the computation \<open>m\<close> leaves a state satisfying \<open>P\<close> whenever it starts in
  one, also when it raises.
\<close>

definition keeps :: "('s \<Rightarrow> bool) \<Rightarrow> ('s, 'a) act \<Rightarrow> bool" where
  "keeps P m \<longleftrightarrow> (\<forall>s. P s \<longrightarrow> P (snd (m s)))"

lemma keepsI: "(\<And>s. P s \<Longrightarrow> P (snd (m s))) \<Longrightarrow> keeps P m"
  by (simp add: keeps_def)

lemma keepsD: "keeps P m \<Longrightarrow> P s \<Longrightarrow> m s = (r, t) \<Longrightarrow> P t"
  unfolding keeps_def by (metis snd_conv)

lemma keeps_ret [act_inv]: "keeps P (ret x)"
  by (simp add: keeps_def ret_def)

lemma keeps_throw [act_inv]: "keeps P (throw e)"
  by (simp add: keeps_def throw_def)

lemma keeps_lift [act_inv]: "keeps P (lift r)"
  by (simp add: keeps_def lift_def)

lemma keeps_reads [act_inv]: "keeps P (reads f)"
  by (simp add: keeps_def reads_def)

lemma keeps_modify: "(\<And>s. P s \<Longrightarrow> P (f s)) \<Longrightarrow> keeps P (modify f)"
  by (simp add: keeps_def modify_def)

lemma keeps_bind [act_inv]: "keeps P m \<Longrightarrow> (\<And>x. keeps P (f x)) \<Longrightarrow> keeps P (bind m f)"
  unfolding keeps_def bind_def by (fastforce split: prod.splits sum.splits)

lemma keeps_andthen [act_inv]: "keeps P m \<Longrightarrow> keeps P k \<Longrightarrow> keeps P (andthen m k)"
  unfolding andthen_def by (rule keeps_bind)

lemma keeps_attempt [act_inv]:
  "keeps P m \<Longrightarrow> (\<And>e. keeps P (h e)) \<Longrightarrow> keeps P (attempt m h)"
  unfolding keeps_def attempt_def by (fastforce split: prod.splits sum.splits)

lemma keeps_if [act_inv]: "(b \<Longrightarrow> keeps P m) \<Longrightarrow> (\<not> b \<Longrightarrow> keeps P k) \<Longrightarrow> keeps P (if b then m else k)"
  by simp

lemma keeps_case_option [act_inv]:
  "(v = None \<Longrightarrow> keeps P m) \<Longrightarrow> (\<And>x. v = Some x \<Longrightarrow> keeps P (f x)) \<Longrightarrow>
   keeps P (case v of None \<Rightarrow> m | Some x \<Rightarrow> f x)"
  by (cases v) simp_all

lemma keeps_for_each [act_inv]:
  assumes "\<And>x. x \<in> set xs \<Longrightarrow> keeps P (body x)"
  shows "keeps P (for_each xs body)"
proof (rule keepsI)
  fix s
  assume "P s"
  with assms show "P (snd (for_each xs body s))"
  proof (induction xs arbitrary: s)
    case Nil
    then show ?case by simp
  next
    case (Cons x xs)
    obtain r t where step: "body x s = (r, t)" by (cases "body x s")
    from Cons.prems have "keeps P (body x)" by simp
    from keepsD [OF this Cons.prems(2) step] have "P t" .
    with Cons step show ?case by (cases r) auto
  qed
qed

lemma keeps_conj: "keeps P m \<Longrightarrow> keeps Q m \<Longrightarrow> keeps (\<lambda>s. P s \<and> Q s) m"
  by (simp add: keeps_def)

text \<open>
  The general form: from \<open>P\<close> the computation ends normally with \<open>Q x\<close> for its result \<open>x\<close>, or in
  an exception with \<open>E\<close>.
\<close>

definition hoare :: "('s \<Rightarrow> bool) \<Rightarrow> ('s, 'a) act \<Rightarrow> ('a \<Rightarrow> 's \<Rightarrow> bool) \<Rightarrow> ('s \<Rightarrow> bool) \<Rightarrow> bool" where
  "hoare P m Q E \<longleftrightarrow> (\<forall>s. P s \<longrightarrow> (case m s of (Inr x, t) \<Rightarrow> Q x t | (Inl e, t) \<Rightarrow> E t))"

lemma hoareI:
  "(\<And>s x t. P s \<Longrightarrow> m s = (Inr x, t) \<Longrightarrow> Q x t) \<Longrightarrow> (\<And>s e t. P s \<Longrightarrow> m s = (Inl e, t) \<Longrightarrow> E t) \<Longrightarrow>
   hoare P m Q E"
  by (auto simp: hoare_def split: prod.splits sum.splits)

lemma hoare_Inr: "hoare P m Q E \<Longrightarrow> P s \<Longrightarrow> m s = (Inr x, t) \<Longrightarrow> Q x t"
  by (auto simp: hoare_def split: prod.splits)

lemma hoare_Inl: "hoare P m Q E \<Longrightarrow> P s \<Longrightarrow> m s = (Inl e, t) \<Longrightarrow> E t"
  by (auto simp: hoare_def split: prod.splits)

lemma hoare_of_keeps: "keeps P m \<Longrightarrow> hoare P m (\<lambda>_. P) P"
  by (rule hoareI) (erule (2) keepsD)+

lemma keeps_of_hoare: "hoare P m (\<lambda>_. P) P \<Longrightarrow> keeps P m"
proof (rule keepsI)
  fix s
  assume h: "hoare P m (\<lambda>_. P) P" and s: "P s"
  obtain r t where r: "m s = (r, t)" by (cases "m s")
  show "P (snd (m s))"
    using hoare_Inr [OF h s] hoare_Inl [OF h s] r by (cases r) simp_all
qed

lemma hoare_bind:
  assumes "hoare P m Q E" and "\<And>x. hoare (Q x) (f x) R E"
  shows "hoare P (bind m f) R E"
proof (rule hoareI)
  fix s y t
  assume "P s" and "bind m f s = (Inr y, t)"
  then obtain x s' where "m s = (Inr x, s')" "f x s' = (Inr y, t)" by (auto simp: bind_Inr_iff)
  then show "R y t" using hoare_Inr [OF assms(1) \<open>P s\<close>] hoare_Inr [OF assms(2)] by blast
next
  fix s e t
  assume "P s" and b: "bind m f s = (Inl e, t)"
  show "E t"
  proof (cases "m s")
    case (Pair r s')
    with b show ?thesis
      using hoare_Inr [OF assms(1) \<open>P s\<close>] hoare_Inl [OF assms(1) \<open>P s\<close>] hoare_Inl [OF assms(2)]
      by (cases r) (auto simp: bind_def)
  qed
qed

lemma hoare_andthen:
  "hoare P m (\<lambda>_. Q) E \<Longrightarrow> hoare Q k R E \<Longrightarrow> hoare P (andthen m k) R E"
  unfolding andthen_def by (rule hoare_bind)

lemma hoare_attempt:
  assumes "hoare P m Q F" and "\<And>e. hoare F (h e) Q E" and "\<And>s. F s \<Longrightarrow> E s"
  shows "hoare P (attempt m h) Q E"
proof (rule hoareI)
  fix s x t
  assume s: "P s" and a: "attempt m h s = (Inr x, t)"
  show "Q x t"
    using hoare_Inr [OF assms(1) s] hoare_Inl [OF assms(1) s] hoare_Inr [OF assms(2)] a
    by (auto simp: attempt_def split: prod.splits sum.splits if_splits)
next
  fix s e t
  assume s: "P s" and a: "attempt m h s = (Inl e, t)"
  show "E t"
    using hoare_Inl [OF assms(1) s] hoare_Inl [OF assms(2)] assms(3) a
    by (auto simp: attempt_def split: prod.splits sum.splits if_splits)
qed

lemma hoare_conseq:
  assumes "hoare P' m Q' E'" and "\<And>s. P s \<Longrightarrow> P' s" and "\<And>x s. Q' x s \<Longrightarrow> Q x s" and "\<And>s. E' s \<Longrightarrow> E s"
  shows "hoare P m Q E"
  by (rule hoareI) (use assms hoare_Inr [OF assms(1)] hoare_Inl [OF assms(1)] in blast)+

lemma hoare_static: "(X \<Longrightarrow> hoare P m Q E) \<Longrightarrow> hoare (\<lambda>s. P s \<and> X) m Q E"
  by (auto simp: hoare_def)

lemma hoare_reads: "hoare P (reads f) (\<lambda>x s. P s \<and> x = f s) E"
  by (simp add: hoare_def reads_def)

lemma hoare_modify: "(\<And>s. P s \<Longrightarrow> Q (f s)) \<Longrightarrow> hoare P (modify f) (\<lambda>_. Q) E"
  by (simp add: hoare_def modify_def)

lemma hoare_ret: "(\<And>s. P s \<Longrightarrow> Q x s) \<Longrightarrow> hoare P (ret x) Q E"
  by (simp add: hoare_def ret_def)

section \<open>Dictionaries\<close>

text \<open>
  A Python dictionary keeps its insertion order, an assignment to a present key keeps the
  key's place. The association lists of the library behave so.
\<close>

type_synonym ('k, 'v) dict = "('k \<times> 'v) list"

abbreviation dict_get :: "('k, 'v) dict \<Rightarrow> 'k \<Rightarrow> 'v option" where
  "dict_get d k \<equiv> map_of d k"

abbreviation dict_set :: "'k \<Rightarrow> 'v \<Rightarrow> ('k, 'v) dict \<Rightarrow> ('k, 'v) dict" where
  "dict_set k v d \<equiv> AList.update k v d"

abbreviation dict_del :: "'k \<Rightarrow> ('k, 'v) dict \<Rightarrow> ('k, 'v) dict" where
  "dict_del k d \<equiv> AList.delete k d"

definition dict_keys :: "('k, 'v) dict \<Rightarrow> 'k list" where
  "dict_keys d = map fst d"

definition dict_in :: "'k \<Rightarrow> ('k, 'v) dict \<Rightarrow> bool" where
  "dict_in k d \<longleftrightarrow> map_of d k \<noteq> None"

text \<open>\<open>d[k]\<close> raises on a missing key.\<close>

definition dict_at :: "(string, 'v) dict \<Rightarrow> string \<Rightarrow> 'v res" where
  "dict_at d k = (case dict_get d k of None \<Rightarrow> Inl (KeyError k) | Some v \<Rightarrow> Inr v)"

lemma dict_in_keys: "dict_in k d \<longleftrightarrow> k \<in> set (dict_keys d)"
  by (auto simp: dict_in_def dict_keys_def map_of_eq_None_iff)

lemma dict_get_set [simp]: "dict_get (dict_set k v d) k' = (if k' = k then Some v else dict_get d k')"
  by (simp add: update_conv')

lemma dict_get_del [simp]: "dict_get (dict_del k d) k' = (if k' = k then None else dict_get d k')"
  by (auto simp: delete_conv')

lemma dict_in_set [simp]: "dict_in k' (dict_set k v d) \<longleftrightarrow> k' = k \<or> dict_in k' d"
  by (auto simp: dict_in_def)

lemma dict_in_del [simp]: "dict_in k' (dict_del k d) \<longleftrightarrow> k' \<noteq> k \<and> dict_in k' d"
  by (auto simp: dict_in_def)

lemma dict_in_Nil [simp]: "\<not> dict_in k []"
  by (simp add: dict_in_def)

lemma dict_keys_set:
  "dict_keys (dict_set k v d) = (if dict_in k d then dict_keys d else dict_keys d @ [k])"
  by (simp add: dict_keys_def dict_in_def update_keys map_of_eq_None_iff)

lemma distinct_dict_set [simp]:
  "distinct (dict_keys d) \<Longrightarrow> distinct (dict_keys (dict_set k v d))"
  by (simp add: dict_keys_set dict_in_keys)

lemma distinct_dict_del [simp]:
  "distinct (dict_keys d) \<Longrightarrow> distinct (dict_keys (dict_del k d))"
  by (simp add: dict_keys_def distinct_delete)

section \<open>String methods\<close>

text \<open>Strings are lists of ASCII characters.\<close>

definition lower_char :: "char \<Rightarrow> char" where
  "lower_char c = (let n = of_char c :: nat in
     if 65 \<le> n \<and> n \<le> 90 then char_of (n + 32) else c)"

definition lower :: "string \<Rightarrow> string" where
  "lower s = map lower_char s"

text \<open>\<open>s.replace(a, b)\<close> for one-character strings \<open>a\<close> and \<open>b\<close>.\<close>

definition replace_char :: "char \<Rightarrow> char \<Rightarrow> string \<Rightarrow> string" where
  "replace_char a b s = map (\<lambda>c. if c = a then b else c) s"

text \<open>\<open>s.split(c)\<close> for a one-character separator: never an empty list.\<close>

fun split_char :: "char \<Rightarrow> string \<Rightarrow> string list" where
  "split_char c [] = [[]]"
| "split_char c (x # xs) =
     (if x = c then [] # split_char c xs
      else (case split_char c xs of [] \<Rightarrow> [[x]] | w # ws \<Rightarrow> (x # w) # ws))"

text \<open>\<open>c.join(ws)\<close>.\<close>

fun join_char :: "char \<Rightarrow> string list \<Rightarrow> string" where
  "join_char c [] = []"
| "join_char c [w] = w"
| "join_char c (w # ws) = w @ c # join_char c ws"

lemma split_char_nonempty [simp]: "split_char c s \<noteq> []"
  by (induction s) (auto split: list.splits)

lemma join_split_char: "join_char c (split_char c s) = s"
proof (induction s)
  case Nil
  then show ?case by simp
next
  case (Cons x s)
  show ?case
  proof (cases "split_char c s")
    case Nil
    then show ?thesis by simp
  next
    case (Cons w ws)
    with Cons.IH show ?thesis by (cases ws) auto
  qed
qed

lemma split_char_no_sep: "c \<notin> set s \<Longrightarrow> split_char c s = [s]"
  by (induction s) auto

lemma split_char_append:
  "c \<notin> set s \<Longrightarrow> split_char c (s @ c # t) = s # split_char c t"
  by (induction s) auto

text \<open>Decimal digits of a natural number, as \<open>str\<close> prints them.\<close>

definition digit_char :: "nat \<Rightarrow> char" where
  "digit_char n = char_of (48 + n)"

fun show_nat :: "nat \<Rightarrow> string" where
  "show_nat n = (if n < 10 then [digit_char n] else show_nat (n div 10) @ [digit_char (n mod 10)])"

declare show_nat.simps [simp del]

text \<open>\<open>s.zfill(w)\<close> for a string with no sign.\<close>

definition zfill :: "nat \<Rightarrow> string \<Rightarrow> string" where
  "zfill w s = replicate (w - length s) (CHR ''0'') @ s"

lemma length_zfill: "length (zfill w s) = max w (length s)"
  by (simp add: zfill_def)

end
