(* ===== verification/Pyval.thy ===== *)
theory Pyval
  imports Prelude Complex_Main
begin

text \<open>
  The values the program reads from YAML and JSON and hands around: \<open>pyval\<close>. Numbers keep
  Python's split into unbounded integers and floats; a float is the rational number its 64 bits
  denote, every conversion and division rounds to the nearest such number with ties to even
  (\<open>to_double\<close>). YAML can also denote the infinities and the undefined number (\<open>.inf\<close>,
  \<open>.nan\<close>), which are values of their own here, with what comparisons, sums, quotients and
  conversions make of them. The sum or difference of two finite floats is taken to be in the range of
  floats. The file also defines truth values, equality, comparison and the numeric
  operations the components use, with the exceptions they raise.
\<close>

section \<open>Values\<close>

text \<open>\<open>PInf neg\<close> is the infinite float, negative if \<open>neg\<close>.\<close>

datatype pyval =
    PNone
  | PBool bool
  | PInt int
  | PFloat rat
  | PInf bool
  | PNan
  | PStr string
  | PList "pyval list"
  | PDict "(string \<times> pyval) list"

fun truthy :: "pyval \<Rightarrow> bool" where
  "truthy PNone = False"
| "truthy (PBool b) = b"
| "truthy (PInt i) = (i \<noteq> 0)"
| "truthy (PFloat x) = (x \<noteq> 0)"
| "truthy (PInf neg) = True"
| "truthy PNan = True"
| "truthy (PStr s) = (s \<noteq> [])"
| "truthy (PList xs) = (xs \<noteq> [])"
| "truthy (PDict d) = (d \<noteq> [])"

text \<open>\<open>a or b\<close>.\<close>

definition py_or :: "pyval \<Rightarrow> pyval \<Rightarrow> pyval" where
  "py_or a b = (if truthy a then a else b)"

text \<open>The finite number a value stands for: booleans are integers in Python.\<close>

fun num_of :: "pyval \<Rightarrow> rat option" where
  "num_of (PBool b) = Some (if b then 1 else 0)"
| "num_of (PInt i) = Some (of_int i)"
| "num_of (PFloat x) = Some x"
| "num_of _ = None"

fun int_of :: "pyval \<Rightarrow> int option" where
  "int_of (PBool b) = Some (if b then 1 else 0)"
| "int_of (PInt i) = Some i"
| "int_of _ = None"

fun nonfinite :: "pyval \<Rightarrow> bool" where
  "nonfinite (PInf neg) = True"
| "nonfinite PNan = True"
| "nonfinite _ = False"

definition is_num :: "pyval \<Rightarrow> bool" where
  "is_num v \<longleftrightarrow> num_of v \<noteq> None \<or> nonfinite v"

lemma is_num_simps [simp]:
  "is_num (PStr s) = False" "is_num PNone = False" "is_num (PInt i)" "is_num (PFloat x)"
  by (simp_all add: is_num_def)

text \<open>
  \<open>a == b\<close>: numbers are compared by value across their types, everything else
  structurally, and the undefined number equals nothing. In every comparison of the program at least one side is a number, a string,
  a boolean or \<open>None\<close>, for which this is Python's equality.
\<close>

definition py_eq :: "pyval \<Rightarrow> pyval \<Rightarrow> bool" where
  "py_eq a b = (case (num_of a, num_of b) of (Some x, Some y) \<Rightarrow> x = y | _ \<Rightarrow> a \<noteq> PNan \<and> a = b)"

definition py_in :: "pyval \<Rightarrow> pyval list \<Rightarrow> bool" where
  "py_in v xs \<longleftrightarrow> list_ex (py_eq v) xs"

section \<open>Floats\<close>

fun bits :: "nat \<Rightarrow> nat" where
  "bits n = (if n = 0 then 0 else Suc (bits (n div 2)))"

declare bits.simps [simp del]

definition pow2 :: "int \<Rightarrow> rat" where
  "pow2 e = (if 0 \<le> e then 2 ^ nat e else 1 / 2 ^ nat (- e))"

text \<open>The exponent of the leading bit of a positive number.\<close>

definition ilog2 :: "rat \<Rightarrow> int" where
  "ilog2 x = (let (p, q) = quotient_of x; k = int (bits (nat p)) - int (bits (nat q))
              in if pow2 k \<le> x then k else k - 1)"

definition round_even :: "rat \<Rightarrow> int" where
  "round_even x = (let f = \<lfloor>x\<rfloor>; d = x - of_int f in
     if d < 1 / 2 then f else if d > 1 / 2 then f + 1 else if even f then f else f + 1)"

definition ulp :: "rat \<Rightarrow> rat" where
  "ulp x = pow2 (max (ilog2 \<bar>x\<bar> - 52) (- 1074))"

definition to_double :: "rat \<Rightarrow> rat" where
  "to_double x = (if x = 0 then 0 else of_int (round_even (x / ulp x)) * ulp x)"

lemma bits_0 [simp]: "bits 0 = 0"
  by (simp add: bits.simps)

lemma bits_1 [simp]: "bits 1 = 1" "bits (Suc 0) = 1"
  by (simp_all add: bits.simps)

lemma bits_bounds: "0 < n \<Longrightarrow> 2 ^ (bits n - 1) \<le> n \<and> n < 2 ^ bits n"
proof (induction n rule: bits.induct)
  case (1 n)
  show ?case
  proof (cases "n div 2 = 0")
    case True
    with 1(2) have "n = 1" by simp
    then show ?thesis by simp
  next
    case False
    with 1 have ih: "2 ^ (bits (n div 2) - 1) \<le> n div 2" "n div 2 < 2 ^ bits (n div 2)"
      by auto
    have b: "bits n = Suc (bits (n div 2))" using 1(2) by (simp add: bits.simps [of n])
    have pos: "0 < bits (n div 2)" using False by (simp add: bits.simps [of "n div 2"])
    have "2 ^ bits (n div 2) = 2 * (2::nat) ^ (bits (n div 2) - 1)"
      using pos by (metis Suc_diff_1 power_Suc)
    with ih(1) have "2 ^ bits (n div 2) \<le> n" by linarith
    moreover from ih(2) have "n < 2 * 2 ^ bits (n div 2)" by linarith
    ultimately show ?thesis by (simp add: b)
  qed
qed

lemma pow2_pos [simp]: "0 < pow2 e"
  by (simp add: pow2_def)

lemma pow2_ne0 [simp]: "pow2 e \<noteq> 0"
  by (simp add: pow2_def)

lemma pow2_0 [simp]: "pow2 0 = 1"
  by (simp add: pow2_def)

lemma pow2_nat: "pow2 (int n) = 2 ^ n"
  by (simp add: pow2_def)

lemma pow2_Suc: "pow2 (e + 1) = 2 * pow2 e"
proof -
  consider "0 \<le> e" | "e = - 1" | "e < - 1" by linarith
  then show ?thesis
  proof cases
    case 1
    then show ?thesis by (simp add: pow2_def nat_add_distrib)
  next
    case 2
    then show ?thesis by (simp add: pow2_def)
  next
    case 3
    then have "nat (- e) = Suc (nat (- (e + 1)))" by linarith
    with 3 show ?thesis by (simp add: pow2_def)
  qed
qed

lemma pow2_add_nat: "pow2 (e + int n) = 2 ^ n * pow2 e"
proof (induction n)
  case 0
  then show ?case by simp
next
  case (Suc n)
  have "pow2 (e + int (Suc n)) = pow2 ((e + int n) + 1)" by (simp add: algebra_simps)
  then show ?case by (simp add: pow2_Suc Suc)
qed

lemma pow2_mono: "a \<le> b \<Longrightarrow> pow2 a \<le> pow2 b"
proof -
  assume "a \<le> b"
  then have b: "b = a + int (nat (b - a))" by simp
  have "pow2 b = 2 ^ nat (b - a) * pow2 a"
    by (subst b) (rule pow2_add_nat)
  moreover have "1 * pow2 a \<le> 2 ^ nat (b - a) * pow2 a"
    by (rule mult_right_mono) (simp_all add: less_imp_le)
  ultimately show ?thesis by simp
qed

lemma pow2_less_cancel: "pow2 a < pow2 b \<Longrightarrow> a < b"
  by (metis linorder_not_le pow2_mono)

lemma round_even_int [simp]: "round_even (of_int n) = n"
  by (simp add: round_even_def)

lemma round_even_close: "\<bar>of_int (round_even x) - x\<bar> \<le> 1 / 2"
  unfolding round_even_def Let_def
  by (auto simp: abs_if) (linarith | simp add: field_simps)+

lemma pow2_diff: "pow2 (int a - int b) = 2 ^ a / 2 ^ b"
proof -
  have "pow2 (int a) = 2 ^ b * pow2 (int a - int b)"
    using pow2_add_nat [of "int a - int b" b] by simp
  then show ?thesis by (simp add: pow2_nat field_simps)
qed

lemma quotient_of_pos:
  assumes "0 < x" and "quotient_of x = (p, q)"
  shows "0 < p" "0 < q" "x = of_int p / of_int q"
proof -
  show q: "0 < q" using assms(2) by (rule quotient_of_denom_pos)
  show x: "x = of_int p / of_int q" using assms(2) by (rule quotient_of_div)
  show "0 < p" using assms(1) q unfolding x by (simp add: zero_less_divide_iff)
qed

lemma ilog2_bounds:
  assumes "0 < x"
  shows "pow2 (ilog2 x) \<le> x \<and> x < pow2 (ilog2 x + 1)"
proof -
  obtain p q where pq: "quotient_of x = (p, q)" by (cases "quotient_of x")
  note pos = quotient_of_pos [OF assms pq]
  define bp where "bp = bits (nat p)"
  define bq where "bq = bits (nat q)"
  have p: "2 ^ (bp - 1) \<le> nat p" "nat p < 2 ^ bp"
    using bits_bounds [of "nat p"] pos(1) by (auto simp: bp_def)
  have q: "2 ^ (bq - 1) \<le> nat q" "nat q < 2 ^ bq"
    using bits_bounds [of "nat q"] pos(2) by (auto simp: bq_def)
  have np: "of_int p = (of_nat (nat p) :: rat)" and nq: "of_int q = (of_nat (nat q) :: rat)"
    using pos(1,2) by simp_all
  have p': "(2::rat) ^ (bp - 1) \<le> of_int p" "of_int p < (2::rat) ^ bp"
    using p unfolding np by (metis of_nat_le_iff of_nat_numeral of_nat_power, metis of_nat_less_iff of_nat_numeral of_nat_power)
  have q': "(2::rat) ^ (bq - 1) \<le> of_int q" "of_int q < (2::rat) ^ bq"
    using q unfolding nq by (metis of_nat_le_iff of_nat_numeral of_nat_power, metis of_nat_less_iff of_nat_numeral of_nat_power)
  have bp: "0 < bp" and bq: "0 < bq"
    using pos(1,2) bits.simps [of "nat p"] bits.simps [of "nat q"] by (simp_all add: bp_def bq_def)
  have upper: "x < 2 ^ bp / 2 ^ (bq - 1)"
    unfolding pos(3) by (rule frac_less) (use p' q' pos in auto)
  have lower: "2 ^ (bp - 1) / 2 ^ bq < x"
    unfolding pos(3) by (rule frac_less2) (use p' q' pos in auto)
  have k1: "pow2 (int bp - int bq + 1) = 2 ^ bp / 2 ^ (bq - 1)"
    using pow2_diff [of bp "bq - 1"] bq by (simp add: of_nat_diff algebra_simps)
  have k0: "pow2 (int bp - int bq - 1) = 2 ^ (bp - 1) / 2 ^ bq"
    using pow2_diff [of "bp - 1" bq] bp by (simp add: of_nat_diff algebra_simps)
  show ?thesis
    using upper lower k1 k0
    by (auto simp: ilog2_def Let_def pq bp_def [symmetric] bq_def [symmetric])
qed

lemma ulp_pos [simp]: "0 < ulp x" "ulp x \<noteq> 0"
  by (simp_all add: ulp_def)

text \<open>Rounding moves a number by at most half a unit in the last place.\<close>

lemma to_double_close: "x \<noteq> 0 \<Longrightarrow> \<bar>to_double x - x\<bar> \<le> ulp x / 2"
proof -
  assume "x \<noteq> 0"
  have "to_double x - x = (of_int (round_even (x / ulp x)) - x / ulp x) * ulp x"
    using \<open>x \<noteq> 0\<close> by (simp add: to_double_def algebra_simps)
  then have "\<bar>to_double x - x\<bar> = \<bar>of_int (round_even (x / ulp x)) - x / ulp x\<bar> * ulp x"
    by (simp add: abs_mult less_imp_le)
  also have "\<dots> \<le> 1 / 2 * ulp x"
    by (rule mult_right_mono) (use round_even_close in \<open>simp_all add: less_imp_le\<close>)
  finally show ?thesis by simp
qed

text \<open>A multiple of its own unit in the last place is a double already.\<close>

lemma to_double_multiple: "x = of_int m * ulp x \<Longrightarrow> to_double x = x"
proof -
  assume m: "x = of_int m * ulp x"
  then have "x / ulp x = of_int m" by (metis nonzero_mult_div_cancel_right ulp_pos(2))
  then show ?thesis using m by (simp add: to_double_def)
qed

lemma ilog2_lower: "0 < x \<Longrightarrow> pow2 k \<le> x \<Longrightarrow> k \<le> ilog2 x"
proof -
  assume "0 < x" and k: "pow2 k \<le> x"
  then have "x < pow2 (ilog2 x + 1)" using ilog2_bounds by blast
  with k have "pow2 k < pow2 (ilog2 x + 1)" by linarith
  then show ?thesis using pow2_less_cancel by fastforce
qed

lemma ilog2_upper: "0 < x \<Longrightarrow> x < pow2 k \<Longrightarrow> ilog2 x < k"
proof -
  assume "0 < x" and "x < pow2 k"
  moreover from \<open>0 < x\<close> have "pow2 (ilog2 x) \<le> x" using ilog2_bounds by blast
  ultimately have "pow2 (ilog2 x) < pow2 k" by linarith
  then show ?thesis by (rule pow2_less_cancel)
qed

text \<open>Integers below \<open>2^53\<close> are doubles.\<close>

lemma to_double_int:
  assumes "\<bar>n\<bar> < 2 ^ 53"
  shows "to_double (of_int n) = of_int n"
proof (cases "n = 0")
  case True
  then show ?thesis by (simp add: to_double_def)
next
  case False
  let ?x = "\<bar>of_int n\<bar> :: rat"
  have x: "1 \<le> ?x" using False by (simp add: abs_if)
  have "\<bar>of_int n\<bar> < (2 ^ 53 :: rat)"
    using assms by (metis of_int_abs of_int_less_iff of_int_numeral of_int_power)
  then have "?x < pow2 53" using pow2_nat [of 53] by simp
  then have k: "ilog2 ?x \<le> 52" "0 \<le> ilog2 ?x"
    using x False ilog2_upper [of ?x 53] ilog2_lower [of ?x 0] by (simp, simp)
  define j where "j = nat (52 - ilog2 ?x)"
  have "ulp (of_int n) = 1 / 2 ^ j"
    using k by (auto simp: ulp_def pow2_def j_def)
  then have "of_int n = of_int (n * 2 ^ j) * ulp (of_int n)" by simp
  then show ?thesis by (rule to_double_multiple)
qed

lemma round_even_ge: "of_int n \<le> y \<Longrightarrow> n \<le> round_even y"
proof -
  assume "of_int n \<le> y"
  then have "n \<le> \<lfloor>y\<rfloor>" by (simp add: le_floor_iff)
  then show ?thesis by (auto simp: round_even_def Let_def)
qed

lemma round_even_less: "y < of_int n - 1 / 2 \<Longrightarrow> round_even y < n"
proof -
  assume y: "y < of_int n - 1 / 2"
  then have f: "\<lfloor>y\<rfloor> < n" by (simp add: floor_less_iff)
  show ?thesis
  proof (cases "\<lfloor>y\<rfloor> = n - 1")
    case True
    with y show ?thesis by (simp add: round_even_def Let_def)
  next
    case False
    with f show ?thesis by (auto simp: round_even_def Let_def)
  qed
qed

text \<open>
  The floor of the float quotient of two integers below \<open>2^53\<close> is their exact integer
  quotient: the rounding never reaches the next integer.
\<close>

lemma floor_div_double:
  assumes a: "0 \<le> a" "a < 2 ^ 53" and b: "0 < b" "b < 2 ^ 53"
  shows "\<lfloor>to_double (of_int a / of_int b)\<rfloor> = a div b"
proof (cases "a = 0")
  case True
  then show ?thesis by (simp add: to_double_def)
next
  case False
  define x where "x = (of_int a / of_int b :: rat)"
  define q where "q = a div b"
  have a1: "1 \<le> a" using False a by simp
  have x0: "0 < x" using a1 b by (simp add: x_def)
  have a53: "of_int a < (2 ^ 53 :: rat)" and b53: "of_int b < (2 ^ 53 :: rat)"
    using a(2) b(2) by (metis of_int_less_iff of_int_numeral of_int_power)+
  have xb: "x * of_int b = of_int a" using b by (simp add: x_def)
  have xle: "x \<le> of_int a"
    using a1 b(1) by (simp add: x_def divide_le_eq mult_le_cancel_left1)
  have "x < pow2 53" using xle a53 pow2_nat [of 53] by simp
  then have k52: "ilog2 x \<le> 52" using ilog2_upper [OF x0, of 53] by simp
  have "1 \<le> x * 2 ^ 53"
  proof -
    have "x * of_int b \<le> x * 2 ^ 53" using x0 b53 by (simp add: mult_left_mono)
    then show ?thesis using xb a1 by (metis of_int_1_le_iff order_trans)
  qed
  then have "pow2 (- 53) \<le> x" by (simp add: pow2_def field_simps)
  then have k53: "- 53 \<le> ilog2 x" by (rule ilog2_lower [OF x0])
  define N where "N = (2 ^ nat (52 - ilog2 x) :: int)"
  define u where "u = ulp x"
  have u: "u = pow2 (ilog2 x - 52)" using x0 k53 by (simp add: u_def ulp_def)
  have u0: "0 < u" by (simp add: u)
  have Nu: "of_int N * u = 1"
    using pow2_add_nat [of "ilog2 x - 52" "nat (52 - ilog2 x)"] k52 by (simp add: N_def u)
  have ub: "u / 2 < 1 / of_int b"
  proof -
    have "pow2 (ilog2 x) = 2 ^ 52 * u"
      using pow2_add_nat [of "ilog2 x - 52" 52] by (simp add: u)
    then have "2 ^ 52 * u \<le> x" using ilog2_bounds [OF x0] by simp
    then have "2 ^ 52 * u * of_int b \<le> of_int a"
      using xb b(1) by (metis mult_right_mono of_int_0_le_iff order_less_imp_le)
    then have "u * of_int b < 2" using a53 by simp
    then show ?thesis using b(1) by (simp add: field_simps)
  qed
  have q: "of_int q \<le> x" and gap: "1 / of_int b \<le> of_int (q + 1) - x"
  proof -
    have e: "a = b * q + a mod b" "0 \<le> a mod b" "a mod b \<le> b - 1"
      using b(1) pos_mod_bound [of b a] by (simp_all add: q_def)
    then have "b * q \<le> a" "a + 1 \<le> b * (q + 1)" by (simp_all add: algebra_simps)
    then have "of_int b * of_int q \<le> (of_int a :: rat)"
      "of_int a + 1 \<le> (of_int b * of_int (q + 1) :: rat)"
      by (metis of_int_le_iff of_int_mult, metis of_int_1 of_int_add of_int_le_iff of_int_mult)
    then show "of_int q \<le> x" "1 / of_int b \<le> of_int (q + 1) - x"
      using b(1) by (simp_all add: x_def field_simps)
  qed
  define m where "m = round_even (x / u)"
  have "of_int (q * N) \<le> x / u"
    using q u0 Nu by (simp add: pos_le_divide_eq mult.assoc)
  then have lo: "q * N \<le> m" unfolding m_def by (rule round_even_ge)
  have "x < of_int (q + 1) - u / 2" using gap ub by linarith
  then have "x / u < of_int ((q + 1) * N) - 1 / 2"
    using u0 Nu by (simp add: pos_divide_less_eq left_diff_distrib mult.assoc del: of_int_add)
  then have hi: "m < (q + 1) * N" unfolding m_def by (rule round_even_less)
  have r: "to_double x = of_int m * u" using x0 by (simp add: to_double_def m_def u_def)
  have "of_int (q * N) * u \<le> of_int m * u" using lo u0 by (simp add: mult_right_mono del: of_int_mult)
  moreover have "of_int m * u < of_int ((q + 1) * N) * u" using hi u0 by (simp del: of_int_mult)
  ultimately have "of_int q \<le> to_double x" "to_double x < of_int q + 1"
    unfolding r using Nu by (simp_all add: mult.assoc)
  then show ?thesis by (simp add: x_def [symmetric] q_def [symmetric] floor_eq_iff)
qed

section \<open>Numeric operations\<close>

text \<open>
  The order of two numbers of which at least one is no finite number: the undefined one is not
  comparable, the infinite ones are at the ends.
\<close>

definition inf_less :: "pyval \<Rightarrow> pyval \<Rightarrow> bool" where
  "inf_less a b \<longleftrightarrow> a \<noteq> PNan \<and> b \<noteq> PNan \<and> a \<noteq> b \<and> (a = PInf True \<or> b = PInf False)"

text \<open>\<open>a < b\<close> raises \<open>TypeError\<close> unless both are numbers (two strings are never compared).\<close>

definition py_lt :: "pyval \<Rightarrow> pyval \<Rightarrow> bool res" where
  "py_lt a b = (case (num_of a, num_of b) of
     (Some x, Some y) \<Rightarrow> Inr (x < y)
   | _ \<Rightarrow> if is_num a \<and> is_num b then Inr (inf_less a b) else Inl TypeError)"

definition py_le :: "pyval \<Rightarrow> pyval \<Rightarrow> bool res" where
  "py_le a b = (case (num_of a, num_of b) of
     (Some x, Some y) \<Rightarrow> Inr (x \<le> y)
   | _ \<Rightarrow> if is_num a \<and> is_num b then Inr (inf_less a b \<or> (a = b \<and> a \<noteq> PNan)) else Inl TypeError)"

text \<open>
  A number as the operand of a float operation: an integer is converted, which fails beyond the
  range of floats. \<open>None\<close> stands for the numbers that are not finite.
\<close>

definition in_float_range :: "rat \<Rightarrow> bool" where
  "in_float_range x \<longleftrightarrow> x = 0 \<or> ilog2 \<bar>x\<bar> < 1024"

definition float_operand :: "pyval \<Rightarrow> rat option res" where
  "float_operand v =
     (if nonfinite v then Inr None
      else (case (int_of v, num_of v) of
          (Some i, _) \<Rightarrow> (let x = to_double (of_int i) in
             if in_float_range x then Inr (Some x) else Inl OverflowError)
        | (None, Some x) \<Rightarrow> Inr (Some x)
        | (None, None) \<Rightarrow> Inl TypeError))"

definition float_op :: "(rat \<Rightarrow> rat \<Rightarrow> pyval res) \<Rightarrow> (pyval \<Rightarrow> pyval \<Rightarrow> pyval res) \<Rightarrow> pyval \<Rightarrow> pyval \<Rightarrow> pyval res" where
  "float_op g h a b =
     (if \<not> (is_num a \<and> is_num b) then Inl TypeError
      else rbind (float_operand a) (\<lambda>x. rbind (float_operand b) (\<lambda>y.
        (case (x, y) of (Some p, Some q) \<Rightarrow> g p q | _ \<Rightarrow> h a b))))"

text \<open>Addition and subtraction stay in the integers when both operands do.\<close>

definition py_arith ::
  "(int \<Rightarrow> int \<Rightarrow> int) \<Rightarrow> (rat \<Rightarrow> rat \<Rightarrow> rat) \<Rightarrow> (pyval \<Rightarrow> pyval \<Rightarrow> pyval) \<Rightarrow> pyval \<Rightarrow> pyval \<Rightarrow> pyval res" where
  "py_arith f g h a b = (case (int_of a, int_of b) of
     (Some i, Some j) \<Rightarrow> Inr (PInt (f i j))
   | _ \<Rightarrow> float_op (\<lambda>x y. Inr (PFloat (to_double (g x y)))) (\<lambda>a b. Inr (h a b)) a b)"

text \<open>Sums with an operand that is not finite.\<close>

definition inf_add :: "pyval \<Rightarrow> pyval \<Rightarrow> pyval" where
  "inf_add a b = (if a = PNan \<or> b = PNan then PNan
     else (case (a, b) of
        (PInf s, PInf t) \<Rightarrow> if s = t then a else PNan
      | (PInf s, _) \<Rightarrow> a
      | _ \<Rightarrow> b))"

fun inf_neg :: "pyval \<Rightarrow> pyval" where
  "inf_neg (PInf s) = PInf (\<not> s)"
| "inf_neg v = v"

definition py_add :: "pyval \<Rightarrow> pyval \<Rightarrow> pyval res" where
  "py_add = py_arith (+) (+) inf_add"

definition py_sub :: "pyval \<Rightarrow> pyval \<Rightarrow> pyval res" where
  "py_sub = py_arith (-) (-) (\<lambda>a b. inf_add a (inf_neg b))"

text \<open>
  True division always gives a float, correctly rounded for integers of any size; a quotient of integers
  beyond the range of floats raises, one of floats is infinite.
\<close>

definition inf_div :: "pyval \<Rightarrow> pyval \<Rightarrow> pyval res" where
  "inf_div a b = (if py_eq b (PInt 0) then Inl ZeroDivisionError
     else if a = PNan \<or> b = PNan then Inr PNan
     else (case (a, b) of
        (PInf s, PInf t) \<Rightarrow> Inr PNan
      | (PInf s, _) \<Rightarrow> Inr (PInf (s \<noteq> (py_lt b (PInt 0) = Inr True)))
      | _ \<Rightarrow> Inr (PFloat 0)))"

definition py_truediv :: "pyval \<Rightarrow> pyval \<Rightarrow> pyval res" where
  "py_truediv a b = (case (int_of a, int_of b) of
     (Some i, Some j) \<Rightarrow>
       if j = 0 then Inl ZeroDivisionError
       else (let q = to_double (of_int i / of_int j) in
         if in_float_range q then Inr (PFloat q) else Inl OverflowError)
   | _ \<Rightarrow> float_op (\<lambda>x y.
         if y = 0 then Inl ZeroDivisionError
         else (let q = to_double (x / y) in
           Inr (if in_float_range q then PFloat q else PInf (q < 0)))) inf_div a b)"

text \<open>A float that is not finite has no integer part.\<close>

fun to_int_error :: "pyval \<Rightarrow> exn" where
  "to_int_error (PInf neg) = OverflowError"
| "to_int_error PNan = ValueError"
| "to_int_error _ = TypeError"

definition math_floor :: "pyval \<Rightarrow> pyval res" where
  "math_floor a = (case num_of a of Some x \<Rightarrow> Inr (PInt \<lfloor>x\<rfloor>) | None \<Rightarrow> Inl (to_int_error a))"

text \<open>\<open>min(a, b)\<close> and \<open>max(a, b)\<close> return their first argument on a tie.\<close>

definition py_min :: "pyval \<Rightarrow> pyval \<Rightarrow> pyval res" where
  "py_min a b = rbind (py_lt b a) (\<lambda>l. Inr (if l then b else a))"

definition py_max :: "pyval \<Rightarrow> pyval \<Rightarrow> pyval res" where
  "py_max a b = rbind (py_lt a b) (\<lambda>l. Inr (if l then b else a))"

text \<open>The number of iterations of \<open>for _ in range(0, n)\<close>.\<close>

definition py_range :: "pyval \<Rightarrow> nat res" where
  "py_range n = (case int_of n of Some i \<Rightarrow> Inr (nat i) | None \<Rightarrow> Inl TypeError)"

lemma py_lt_int [simp]: "py_lt (PInt a) (PInt b) = Inr (a < b)"
  by (simp add: py_lt_def)

lemma py_le_int [simp]: "py_le (PInt a) (PInt b) = Inr (a \<le> b)"
  by (simp add: py_le_def)

lemma py_float_ops [simp]:
  "py_lt (PFloat a) (PFloat b) = Inr (a < b)" "py_sub (PFloat a) (PFloat b) = Inr (PFloat (to_double (a - b)))"
  by (simp_all add: py_lt_def py_sub_def py_arith_def float_op_def float_operand_def)

lemma py_sub_int [simp]: "py_sub (PInt a) (PInt b) = Inr (PInt (a - b))"
  by (simp add: py_sub_def py_arith_def)

lemma py_add_int [simp]: "py_add (PInt a) (PInt b) = Inr (PInt (a + b))"
  by (simp add: py_add_def py_arith_def)

lemma py_min_int [simp]: "py_min (PInt a) (PInt b) = Inr (PInt (min a b))"
  by (simp add: py_min_def)

lemma py_max_int [simp]: "py_max (PInt a) (PInt b) = Inr (PInt (max a b))"
  by (simp add: py_max_def)

lemma py_range_int [simp]: "py_range (PInt n) = Inr (nat n)"
  by (simp add: py_range_def)

lemma py_eq_str [simp]: "py_eq (PStr a) (PStr b) \<longleftrightarrow> a = b"
  by (simp add: py_eq_def)

lemma py_eq_none [simp]: "py_eq PNone v \<longleftrightarrow> v = PNone" "py_eq v PNone \<longleftrightarrow> v = PNone"
  by (cases v; simp add: py_eq_def)+

section \<open>Dictionaries among the values\<close>

text \<open>\<open>v.get(k)\<close> with a default, \<open>v[k]\<close> and \<open>k in v\<close> for a string \<open>k\<close>.\<close>

fun py_get :: "pyval \<Rightarrow> string \<Rightarrow> pyval \<Rightarrow> pyval res" where
  "py_get (PDict d) k dflt = Inr (case dict_get d k of Some v \<Rightarrow> v | None \<Rightarrow> dflt)"
| "py_get _ k dflt = Inl AttributeError"

fun py_item :: "pyval \<Rightarrow> string \<Rightarrow> pyval res" where
  "py_item (PDict d) k = dict_at d k"
| "py_item _ k = Inl TypeError"

fun py_setitem :: "pyval \<Rightarrow> string \<Rightarrow> pyval \<Rightarrow> pyval res" where
  "py_setitem (PDict d) k v = Inr (PDict (dict_set k v d))"
| "py_setitem _ k v = Inl TypeError"

text \<open>\<open>k in v\<close>: a key of a dictionary, an element of a list, a substring of a string.\<close>

definition substring :: "string \<Rightarrow> string \<Rightarrow> bool" where
  "substring k s \<longleftrightarrow> list_ex (\<lambda>i. take (length k) (drop i s) = k) [0..<Suc (length s)]"

text \<open>\<open>s.replace(p, "")\<close>, from left to right.\<close>

fun remove_sub :: "string \<Rightarrow> string \<Rightarrow> string" where
  "remove_sub p [] = []"
| "remove_sub p (c # cs) =
     (if p \<noteq> [] \<and> take (length p) (c # cs) = p then remove_sub p (drop (length p - 1) cs)
      else c # remove_sub p cs)"

fun py_contains :: "pyval \<Rightarrow> string \<Rightarrow> bool res" where
  "py_contains (PDict d) k = Inr (dict_in k d)"
| "py_contains (PList xs) k = Inr (py_in (PStr k) xs)"
| "py_contains (PStr s) k = Inr (substring k s)"
| "py_contains _ k = Inl TypeError"

text \<open>
  \<open>int(v)\<close>: finite numbers are truncated towards zero, the other floats raise, a string is stripped and read as an
  optionally signed literal whose digits may be separated by single underscores.
\<close>

definition char_code :: "char \<Rightarrow> nat" where
  "char_code c = of_char c"

definition is_digit :: "char \<Rightarrow> bool" where
  "is_digit c \<longleftrightarrow> 48 \<le> char_code c \<and> char_code c \<le> 57"

definition is_space :: "char \<Rightarrow> bool" where
  "is_space c \<longleftrightarrow> char_code c \<in> {9, 10, 11, 12, 13, 28, 29, 30, 31, 32}"

definition digit_val :: "char \<Rightarrow> int" where
  "digit_val c = int (char_code c) - 48"

definition strip :: "string \<Rightarrow> string" where
  "strip s = rev (dropWhile is_space (rev (dropWhile is_space s)))"

fun int_digits :: "bool \<Rightarrow> string \<Rightarrow> int \<Rightarrow> int option" where
  "int_digits after [] acc = (if after then Some acc else None)"
| "int_digits after (c # cs) acc =
     (if is_digit c then int_digits True cs (10 * acc + digit_val c)
      else if c = CHR ''_'' \<and> after then int_digits False cs acc
      else None)"

fun int_literal :: "string \<Rightarrow> int option" where
  "int_literal [] = None"
| "int_literal (c # cs) =
     (if c = CHR ''-'' then map_option uminus (int_digits False cs 0)
      else if c = CHR ''+'' then int_digits False cs 0
      else int_digits False (c # cs) 0)"

definition trunc :: "rat \<Rightarrow> int" where
  "trunc x = (if 0 \<le> x then \<lfloor>x\<rfloor> else - \<lfloor>- x\<rfloor>)"

fun py_int :: "pyval \<Rightarrow> int res" where
  "py_int (PBool b) = Inr (if b then 1 else 0)"
| "py_int (PInt i) = Inr i"
| "py_int (PFloat x) = Inr (trunc x)"
| "py_int (PStr s) = (case int_literal (strip s) of Some i \<Rightarrow> Inr i | None \<Rightarrow> Inl ValueError)"
| "py_int v = Inl (to_int_error v)"

end
