(* ===== verification/Rules.thy ===== *)
theory Rules
  imports Pyval
begin

text \<open>
  The event rules of a workflow: \<open>config/types.py\<close> with the action names of
  \<open>defaults.py\<close>. A rule pairs a condition (\<open>when\<close>) with an action that has a budget of
  repetitions and a backoff. \<open>rule_should_trigger\<close> is the check the manager makes for every
  finished job; it also spends the budget, so it is a computation over the rule. \<open>make_rule\<close>
  is the constructor with its validation, which runs one trial check.
\<close>

section \<open>Names (defaults.py)\<close>

definition workflow_actions :: "string list" where
  "workflow_actions = [''grow'', ''shrink'', ''finish-workflow'']"

definition state_machine_actions :: "string list" where
  "state_machine_actions = [''repeat'']"

definition all_actions :: "string list" where
  "all_actions = state_machine_actions @ workflow_actions"

section \<open>Actions\<close>

record action =
  a_spec :: pyval
  repetitions :: pyval
  backoff :: pyval
  backoff_counter :: pyval

text \<open>\<open>Action.__init__\<close> and \<open>parse_frequency\<close>.\<close>

definition parse_frequency :: "pyval \<Rightarrow> action res" where
  "parse_frequency spec =
     rbind (py_get spec ''repetitions'' PNone) (\<lambda>r.
     rbind (py_get spec ''backoff'' PNone) (\<lambda>b.
     Inr \<lparr>a_spec = spec, repetitions = r, backoff = b, backoff_counter = PInt 0\<rparr>))"

definition action_name :: "action \<Rightarrow> pyval res" where
  "action_name a = py_item (a_spec a) ''action''"

definition action_metric :: "action \<Rightarrow> pyval res" where
  "action_metric a = py_item (a_spec a) ''metric''"

definition action_min_completions :: "action \<Rightarrow> pyval res" where
  "action_min_completions a = py_get (a_spec a) ''minCompletions'' PNone"

definition action_max_size :: "action \<Rightarrow> pyval res" where
  "action_max_size a = py_get (a_spec a) ''maxSize'' PNone"

definition action_min_size :: "action \<Rightarrow> pyval res" where
  "action_min_size a = py_get (a_spec a) ''minSize'' PNone"

text \<open>\<open>self.backoff is not None and self.backoff >= 0\<close>.\<close>

definition backoff_set :: "action \<Rightarrow> bool res" where
  "backoff_set a = (if backoff a = PNone then Inr False else py_le (PInt 0) (backoff a))"

definition action_finished :: "action \<Rightarrow> bool res" where
  "action_finished a =
     (if repetitions a = PNone then Inr False else py_le (repetitions a) (PInt 0))"

definition action_should_trigger :: "action \<Rightarrow> bool res" where
  "action_should_trigger a =
     rbind (action_finished a) (\<lambda>done.
       if done then Inr False
       else rbind (backoff_set a) (\<lambda>on.
         if on then Inr False
         else rbind (if repetitions a = PNone then Inr False else py_le (repetitions a) (PInt 0))
           (\<lambda>out. if out then Inr False else Inr True)))"

text \<open>\<open>self.repetitions -= 1\<close> when repetitions are limited.\<close>

definition spend_repetition :: "(action, unit) act" where
  "spend_repetition a =
     (if repetitions a = PNone then (Inr (), a)
      else (case py_sub (repetitions a) (PInt 1) of
          Inl e \<Rightarrow> (Inl e, a)
        | Inr r \<Rightarrow> (Inr (), a\<lparr>repetitions := r\<rparr>)))"

definition backoff_tick :: "(action, unit) act" where
  "backoff_tick a =
     (case py_lt (PInt 0) (backoff_counter a) of
        Inl e \<Rightarrow> (Inl e, a)
      | Inr False \<Rightarrow> (Inr (), a)
      | Inr True \<Rightarrow> (case py_sub (backoff_counter a) (PInt 1) of
            Inl e \<Rightarrow> (Inl e, a)
          | Inr c \<Rightarrow> (Inr (), a\<lparr>backoff_counter := c\<rparr>)))"

definition backoff_reset :: "(action, unit) act" where
  "backoff_reset = modify (\<lambda>a.
     if py_eq (backoff_counter a) (PInt 0) then a\<lparr>backoff_counter := backoff a\<rparr> else a)"

definition perform_backoff :: "(action, unit) act" where
  "perform_backoff = andthen backoff_tick (andthen backoff_reset spend_repetition)"

text \<open>\<open>Action.perform\<close>: it returns nothing, whatever its comment says.\<close>

definition perform :: "(action, unit) act" where
  "perform =
     bind (\<lambda>a. (backoff_set a, a)) (\<lambda>on.
       andthen (if on then perform_backoff else ret ()) spend_repetition)"

section \<open>The inequality in a rule\<close>

text \<open>
  \<open>re.search\<close> with \<open>(?P<inequality>[<>]=?)\s*(?P<comparator>-?\d+(\.\d*)?)\<close>: the first
  position where the pattern matches. The pattern has no choice to undo: after an optional
  part is taken, giving it back leaves a character the rest cannot match, so the greedy
  reading is the only one.
\<close>

definition digits_int :: "string \<Rightarrow> int" where
  "digits_int ds = foldl (\<lambda>n c. 10 * n + digit_val c) 0 ds"

definition decimal :: "string \<Rightarrow> string \<Rightarrow> rat" where
  "decimal ds fs = of_int (digits_int ds) + of_int (digits_int fs) / 10 ^ length fs"

definition fraction_at :: "string \<Rightarrow> string" where
  "fraction_at r = (case r of [] \<Rightarrow> []
     | c # r' \<Rightarrow> if c = CHR ''.'' then takeWhile is_digit r' else [])"

definition unsigned_at :: "string \<Rightarrow> rat option" where
  "unsigned_at t =
     (let ds = takeWhile is_digit t; r = dropWhile is_digit t
      in if ds = [] then None else Some (decimal ds (fraction_at r)))"

definition number_at :: "string \<Rightarrow> rat option" where
  "number_at s = (case s of [] \<Rightarrow> None
     | c # r \<Rightarrow> if c = CHR ''-'' then map_option uminus (unsigned_at r) else unsigned_at s)"

definition when_at :: "string \<Rightarrow> (string \<times> rat) option" where
  "when_at s = (case s of [] \<Rightarrow> None
     | c # r \<Rightarrow>
        if c = CHR ''<'' \<or> c = CHR ''>'' then
          (let (oper, rest) = (case r of [] \<Rightarrow> ([c], [])
                | d # r' \<Rightarrow> if d = CHR ''='' then ([c, d], r') else ([c], r))
           in map_option (\<lambda>x. (oper, to_double x)) (number_at (dropWhile is_space rest)))
        else None)"

fun when_search :: "string \<Rightarrow> (string \<times> rat) option" where
  "when_search [] = None"
| "when_search (c # s) = (case when_at (c # s) of Some m \<Rightarrow> Some m | None \<Rightarrow> when_search s)"

section \<open>Rules\<close>

record rule =
  r_spec :: pyval
  disabled :: bool
  r_action :: action

definition rule_when :: "rule \<Rightarrow> pyval res" where
  "rule_when r = py_get (r_spec r) ''when'' PNone"

text \<open>Running a method of the rule's action: it works on the action the rule holds.\<close>

definition on_action :: "(action, 'a) act \<Rightarrow> (rule, 'a) act" where
  "on_action m r = (case m (r_action r) of (x, a) \<Rightarrow> (x, r\<lparr>r_action := a\<rparr>))"

text \<open>The comparison the parsed inequality stands for.\<close>

definition compare :: "string \<Rightarrow> pyval \<Rightarrow> pyval \<Rightarrow> bool res" where
  "compare oper v k =
     (if oper = ''<'' then py_lt v k
      else if oper = ''<='' then py_le v k
      else if oper = ''>'' then py_lt k v
      else if oper = ''>='' then py_le k v
      else if oper = ''=='' \<or> oper = ''='' then Inr (py_eq v k)
      else Inl ValueError)"

definition is_number :: "pyval \<Rightarrow> bool" where
  "is_number v \<longleftrightarrow> is_num v"

text \<open>
  \<open>return self.action.perform()\<close>: the action is performed and the caller gets
  \<open>perform\<close>'s result, which is Python's \<open>None\<close>.
\<close>

definition performed_none :: "(rule, bool option) act" where
  "performed_none = andthen (on_action perform) (ret None)"

text \<open>\<open>Rule.should_trigger\<close>; the result is \<open>True\<close>, \<open>False\<close> or \<open>None\<close>.\<close>

definition rule_inequality :: "pyval \<Rightarrow> pyval \<Rightarrow> (rule, bool option) act" where
  "rule_inequality w value =
     (case w of
        PStr s \<Rightarrow>
          (case when_search s of
             None \<Rightarrow> throw AttributeError
           | Some (oper, k) \<Rightarrow>
               bind (lift (compare oper value (PFloat k))) (\<lambda>hit.
                 if hit then andthen (on_action perform) (ret (Some True))
                 else ret (Some False)))
      | _ \<Rightarrow> throw TypeError)"

definition rule_should_trigger :: "pyval \<Rightarrow> (rule, bool option) act" where
  "rule_should_trigger value =
     bind (\<lambda>r. (action_should_trigger (r_action r), r)) (\<lambda>go.
     if \<not> go then ret (Some False)
     else bind (\<lambda>r. (rule_when r, r)) (\<lambda>w.
       if w = PNone then performed_none
       else if value = PNone \<and> py_eq w (PStr ''undefined'') then performed_none
       else if value = PNone then ret (Some False)
       else if is_number w \<and> \<not> py_eq value w then ret (Some False)
       else if is_number w \<and> py_eq value w then performed_none
       else rule_inequality w value))"

text \<open>\<open>Rule.check_when\<close>: one trial check with the value 10; any exception becomes \<open>ValueError\<close>.\<close>

definition check_when :: "(rule, unit) act" where
  "check_when =
     bind (\<lambda>r. (rule_when r, r)) (\<lambda>w.
       if int_of w \<noteq> None \<and> 0 \<le> the (int_of w) then ret ()
       else attempt (bind (rule_should_trigger (PInt 10)) (\<lambda>_. ret ()))
              (\<lambda>_. throw ValueError))"

definition rule_validate :: "(rule, unit) act" where
  "rule_validate =
     bind (\<lambda>r. (action_name (r_action r), r)) (\<lambda>n.
       if py_in n (map PStr all_actions) then check_when else throw ValueError)"

text \<open>\<open>Rule.__init__\<close>.\<close>

definition make_rule :: "pyval \<Rightarrow> rule res" where
  "make_rule spec =
     rbind (parse_frequency spec) (\<lambda>a.
       (case rule_validate \<lparr>r_spec = spec, disabled = False, r_action = a\<rparr> of
          (Inl e, _) \<Rightarrow> Inl e
        | (Inr _, r) \<Rightarrow> Inr r))"

section \<open>Parsing what a rule prints\<close>

lemma char_code_digit: "d < 10 \<Longrightarrow> char_code (digit_char d) = 48 + d"
  by (simp add: char_code_def digit_char_def)

lemma is_digit_digit_char [simp]: "d < 10 \<Longrightarrow> is_digit (digit_char d)"
  by (simp add: is_digit_def char_code_digit)

lemma digit_val_digit_char [simp]: "d < 10 \<Longrightarrow> digit_val (digit_char d) = int d"
  by (simp add: digit_val_def char_code_digit)

lemma show_nat_digits: "\<forall>c \<in> set (show_nat n). is_digit c"
proof (induction n rule: show_nat.induct)
  case (1 n)
  then show ?case by (subst show_nat.simps) auto
qed

lemma show_nat_nonempty [simp]: "show_nat n \<noteq> []"
  by (subst show_nat.simps) simp

lemma digits_int_snoc: "digits_int (ds @ [c]) = 10 * digits_int ds + digit_val c"
  by (simp add: digits_int_def)

lemma digits_int_show_nat: "digits_int (show_nat n) = int n"
proof (induction n rule: show_nat.induct)
  case (1 n)
  show ?case
  proof (cases "n < 10")
    case True
    then show ?thesis by (simp add: show_nat.simps [of n] digits_int_def)
  next
    case False
    with 1 have "digits_int (show_nat (n div 10)) = int (n div 10)" by simp
    moreover have "10 * int (n div 10) + int (n mod 10) = int n" by presburger
    ultimately show ?thesis using False by (simp add: show_nat.simps [of n] digits_int_snoc)
  qed
qed

lemma takeWhile_show_nat [simp]: "takeWhile is_digit (show_nat n) = show_nat n"
  by (simp add: show_nat_digits takeWhile_eq_all_conv)

lemma dropWhile_show_nat [simp]: "dropWhile is_digit (show_nat n) = []"
  by (simp add: show_nat_digits)

lemma unsigned_at_show_nat: "unsigned_at (show_nat n) = Some (of_nat n)"
  by (simp add: unsigned_at_def fraction_at_def decimal_def digits_int_show_nat)
    (simp add: digits_int_def)

lemma show_nat_head:
  obtains c cs where "show_nat n = c # cs" "is_digit c"
  using show_nat_digits [of n] show_nat_nonempty [of n]
  by (cases "show_nat n") auto

lemma digit_not_special: "is_digit c \<Longrightarrow> \<not> is_space c \<and> c \<noteq> CHR ''-'' \<and> c \<noteq> CHR ''=''"
  by (auto simp: is_digit_def is_space_def char_code_def)

lemma number_at_show_nat: "number_at (show_nat n) = Some (of_nat n)"
proof -
  obtain c cs where c: "show_nat n = c # cs" "is_digit c" by (rule show_nat_head)
  then have "c \<noteq> CHR ''-''" using digit_not_special by blast
  with c show ?thesis using unsigned_at_show_nat [of n] by (simp add: number_at_def)
qed

lemma dropWhile_space_show_nat: "dropWhile is_space (show_nat n) = show_nat n"
proof -
  obtain c cs where c: "show_nat n = c # cs" "is_digit c" by (rule show_nat_head)
  then have "\<not> is_space c" using digit_not_special by blast
  with c show ?thesis by simp
qed

definition operators :: "string list" where
  "operators = [''<'', ''<='', ''>'', ''>='']"

lemma when_search_print:
  assumes "oper \<in> set operators"
  shows "when_search (oper @ show_nat n) = Some (oper, to_double (of_nat n))"
proof -
  obtain c cs where c: "show_nat n = c # cs" "is_digit c" by (rule show_nat_head)
  have ne: "c \<noteq> CHR ''=''" using c digit_not_special by blast
  have num: "number_at (dropWhile is_space (c # cs)) = Some (of_nat n)"
    using dropWhile_space_show_nat [of n] number_at_show_nat [of n] c(1) by simp
  have eq: "\<not> is_space (CHR ''='')" by (simp add: is_space_def char_code_def)
  from assms show ?thesis
    using ne by (auto simp: operators_def c(1) when_at_def num simp del: dropWhile.simps)
qed

section \<open>How a rule decides\<close>

lemma on_action_perform_free:
  "repetitions (r_action r) = PNone \<Longrightarrow> backoff (r_action r) = PNone \<Longrightarrow>
   on_action perform r = (Inr (), r)"
  by (simp add: on_action_def perform_def backoff_set_def spend_repetition_def py_eval
      bind_def andthen_def)

lemma on_action_perform_count:
  "repetitions (r_action r) = PInt n \<Longrightarrow> backoff (r_action r) = PNone \<Longrightarrow>
   on_action perform r = (Inr (), r\<lparr>r_action := (r_action r)\<lparr>repetitions := PInt (n - 1)\<rparr>\<rparr>)"
  by (simp add: on_action_def perform_def backoff_set_def spend_repetition_def py_eval
      bind_def andthen_def)

lemma action_should_trigger_free:
  "repetitions a = PNone \<Longrightarrow> backoff a = PNone \<Longrightarrow> action_should_trigger a = Inr True"
  by (simp add: action_should_trigger_def action_finished_def backoff_set_def)

lemma action_should_trigger_count:
  "repetitions a = PInt n \<Longrightarrow> backoff a = PNone \<Longrightarrow> action_should_trigger a = Inr (0 < n)"
  by (auto simp: action_should_trigger_def action_finished_def backoff_set_def)

lemma action_should_trigger_backoff:
  assumes "num_of (backoff a) = Some b" "0 \<le> b"
    and "repetitions a = PNone \<or> num_of (repetitions a) \<noteq> None"
  shows "action_should_trigger a = Inr False"
proof -
  have on: "backoff_set a = Inr True"
    using assms(1,2) by (auto simp: backoff_set_def py_le_def)
  obtain f where "action_finished a = Inr f"
    using assms(3) by (cases "repetitions a = PNone") (auto simp: action_finished_def py_le_def)
  with on show ?thesis by (cases f) (simp_all add: action_should_trigger_def)
qed

text \<open>The rule watches an inequality that was parsed from its \<open>when\<close>.\<close>

definition inequality_rule :: "rule \<Rightarrow> string \<Rightarrow> rat \<Rightarrow> bool" where
  "inequality_rule r oper k \<longleftrightarrow>
     (\<exists>s. rule_when r = Inr (PStr s) \<and> when_search s = Some (oper, k)) \<and> oper \<in> set operators"

fun holds :: "string \<Rightarrow> rat \<Rightarrow> rat \<Rightarrow> bool" where
  "holds oper v k =
     (if oper = ''<'' then v < k else if oper = ''<='' then v \<le> k
      else if oper = ''>'' then k < v else k \<le> v)"

declare holds.simps [simp del]

lemma compare_holds:
  "oper \<in> set operators \<Longrightarrow> num_of value = Some v \<Longrightarrow>
   compare oper value (PFloat k) = Inr (holds oper v k)"
  by (auto simp: operators_def compare_def py_lt_def py_le_def holds.simps)

lemma num_not_none: "num_of value = Some v \<Longrightarrow> value \<noteq> PNone"
  by auto

lemma rule_should_trigger_inequality:
  assumes "inequality_rule r oper k" and "num_of value = Some v"
    and "action_should_trigger (r_action r) = Inr True"
  shows "rule_should_trigger value r =
     (if holds oper v k then andthen (on_action perform) (ret (Some True)) r
      else (Inr (Some False), r))"
proof -
  obtain s where s: "rule_when r = Inr (PStr s)" "when_search s = Some (oper, k)"
    and oper: "oper \<in> set operators"
    using assms(1) by (auto simp: inequality_rule_def)
  show ?thesis
    using s oper num_not_none [OF assms(2)] assms(2,3)
    by (simp add: rule_should_trigger_def rule_inequality_def bind_def py_eval is_number_def
        compare_holds)
qed

lemma rule_should_trigger_closed:
  "action_should_trigger (r_action r) = Inr False \<Longrightarrow>
   rule_should_trigger value r = (Inr (Some False), r)"
  by (simp add: rule_should_trigger_def bind_def py_eval)

text \<open>A rule whose action has no repetition limit and no backoff reports, for a numeric
  metric value, exactly whether the value satisfies the inequality written in its \<open>when\<close>, and
  the check leaves the rule as it was.\<close>

theorem unlimited_rule_decides:
  assumes "oper \<in> set operators"
    and "rule_when r = Inr (PStr (oper @ show_nat n))"
    and "repetitions (r_action r) = PNone" and "backoff (r_action r) = PNone"
    and "num_of value = Some v"
  shows "rule_should_trigger value r =
     (Inr (Some (holds oper v (to_double (of_nat n)))), r)"
proof -
  have "inequality_rule r oper (to_double (of_nat n))"
    using assms(1,2) when_search_print by (auto simp: inequality_rule_def)
  then show ?thesis
    using assms rule_should_trigger_inequality [OF _ assms(5)]
    by (simp add: action_should_trigger_free on_action_perform_free andthen_Inr py_eval)
qed

text \<open>A concrete rule for the witnesses: grow while a mean is at least 7.\<close>

definition example_spec :: "string \<Rightarrow> pyval \<Rightarrow> pyval \<Rightarrow> pyval" where
  "example_spec w reps bo = PDict [(''action'', PStr ''grow''), (''metric'', PStr ''mean.a.x''),
     (''when'', PStr w), (''repetitions'', reps), (''backoff'', bo)]"

definition example_rule :: "string \<Rightarrow> pyval \<Rightarrow> pyval \<Rightarrow> rule" where
  "example_rule w reps bo = \<lparr>r_spec = example_spec w reps bo, disabled = False,
     r_action = \<lparr>a_spec = example_spec w reps bo, repetitions = reps, backoff = bo,
       backoff_counter = PInt 0\<rparr>\<rparr>"

lemma example_rule_simps [simp]:
  "rule_when (example_rule w reps bo) = Inr (PStr w)"
  "repetitions (r_action (example_rule w reps bo)) = reps"
  "backoff (r_action (example_rule w reps bo)) = bo"
  by (simp_all add: example_rule_def example_spec_def rule_when_def)

lemma to_double_numeral: "numeral n < (2 ^ 53 :: int) \<Longrightarrow> to_double (numeral n) = numeral n"
  using to_double_int [of "numeral n"] by simp

lemma show_nat_7: "show_nat 7 = ''7''"
  by code_simp

lemma example_inequality: "inequality_rule (example_rule ''>=7'' reps bo) ''>='' 7"
proof -
  have "when_search (''>='' @ show_nat 7) = Some (''>='', to_double (of_nat 7))"
    by (rule when_search_print) (simp add: operators_def)
  then show ?thesis
    by (simp add: inequality_rule_def operators_def show_nat_7 to_double_numeral)
qed

theorem unlimited_rule_decides_witness:
  "rule_should_trigger (PInt 8) (example_rule ''>=7'' PNone PNone) =
     (Inr (Some True), example_rule ''>=7'' PNone PNone)"
proof -
  have "rule_should_trigger (PInt 8) (example_rule ''>=7'' PNone PNone) =
     (Inr (Some (holds ''>='' 8 (to_double (of_nat 7)))), example_rule ''>=7'' PNone PNone)"
    by (rule unlimited_rule_decides)
      (simp_all add: operators_def show_nat_7)
  then show ?thesis by (simp add: holds.simps to_double_numeral)
qed

text \<open>The outcomes of a sequence of checks of one rule: which of them fired.\<close>

fun trigger_run :: "pyval list \<Rightarrow> rule \<Rightarrow> bool list \<times> rule" where
  "trigger_run [] r = ([], r)"
| "trigger_run (v # vs) r =
     (case rule_should_trigger v r of (x, r') \<Rightarrow>
        (case trigger_run vs r' of (xs, r'') \<Rightarrow> ((x = Inr (Some True)) # xs, r'')))"

definition fired :: "bool list \<Rightarrow> nat" where
  "fired xs = length (filter id xs)"

definition satisfying :: "string \<Rightarrow> rat \<Rightarrow> pyval list \<Rightarrow> nat" where
  "satisfying oper k vs = length (filter (\<lambda>v. holds oper (the (num_of v)) k) vs)"

definition rest_of_budget :: "nat \<Rightarrow> rule \<Rightarrow> rule" where
  "rest_of_budget m r = r\<lparr>r_action := (r_action r)\<lparr>repetitions := PInt (int m)\<rparr>\<rparr>"

lemma inequality_rule_rest [simp]:
  "inequality_rule (rest_of_budget m r) oper k = inequality_rule r oper k"
  by (simp add: inequality_rule_def rule_when_def rest_of_budget_def)

lemma rest_of_budget_simps [simp]:
  "repetitions (r_action (rest_of_budget m r)) = PInt (int m)"
  "backoff (r_action (rest_of_budget m r)) = backoff (r_action r)"
  "rest_of_budget m (rest_of_budget m' r) = rest_of_budget m r"
  by (simp_all add: rest_of_budget_def)

text \<open>One check of a rule with \<open>m\<close> repetitions left.\<close>

lemma rule_check_step:
  assumes "inequality_rule r oper k" and "backoff (r_action r) = PNone" and "num_of value = Some v"
  shows "rule_should_trigger value (rest_of_budget m r) =
     (if m \<noteq> 0 \<and> holds oper v k
      then (Inr (Some True), rest_of_budget (m - 1) r)
      else (Inr (Some False), rest_of_budget m r))"
proof (cases "m = 0")
  case True
  have "action_should_trigger (r_action (rest_of_budget 0 r)) = Inr False"
    using assms(2) action_should_trigger_count [of _ 0] by simp
  with True show ?thesis by (simp add: rule_should_trigger_closed)
next
  case False
  have go: "action_should_trigger (r_action (rest_of_budget m r)) = Inr True"
    using False assms(2) action_should_trigger_count [of "r_action (rest_of_budget m r)" "int m"]
    by simp
  have "on_action perform (rest_of_budget m r) = (Inr (), rest_of_budget (m - 1) r)"
    using on_action_perform_count [of "rest_of_budget m r" "int m"] assms(2) False
    by (simp add: rest_of_budget_def of_nat_diff)
  then show ?thesis
    using rule_should_trigger_inequality [OF _ assms(3) go] assms(1) False
    by (simp add: andthen_Inr py_eval)
qed

lemma trigger_run_budget:
  assumes "inequality_rule r oper k" and "backoff (r_action r) = PNone"
    and "list_all (\<lambda>v. num_of v \<noteq> None) vs"
  shows "fired (fst (trigger_run vs (rest_of_budget m r))) = min m (satisfying oper k vs) \<and>
     snd (trigger_run vs (rest_of_budget m r)) = rest_of_budget (m - satisfying oper k vs) r"
  using assms(3)
proof (induction vs arbitrary: m)
  case Nil
  then show ?case by (simp add: fired_def satisfying_def)
next
  case (Cons w vs)
  then obtain v where v: "num_of w = Some v" by auto
  from Cons.prems have "list_all (\<lambda>v. num_of v \<noteq> None) vs" by simp
  note ih = Cons.IH [OF this]
  show ?case
    using rule_check_step [OF assms(1,2) v, of m] ih [of m] ih [of "m - 1"] v
    by (auto simp: fired_def satisfying_def split: prod.splits)
qed

text \<open>
  Loading a rule runs one trial check with the value 10, which spends a repetition when the inequality
  holds for it.
\<close>

definition trial_cost :: "string \<Rightarrow> rat \<Rightarrow> nat" where
  "trial_cost oper k = (if holds oper 10 k then 1 else 0)"

lemma make_rule_budget:
  assumes "py_item spec ''action'' = Inr (PStr act)" and "act \<in> set all_actions"
    and "py_get spec ''repetitions'' PNone = Inr (PInt (int n))" and "py_get spec ''backoff'' PNone = Inr PNone"
    and "py_get spec ''when'' PNone = Inr (PStr s)" and "when_search s = Some (oper, k)"
    and "oper \<in> set operators"
  shows "\<exists>r. make_rule spec = Inr r \<and> inequality_rule r oper k \<and> backoff (r_action r) = PNone \<and>
    r = rest_of_budget (n - trial_cost oper k) r"
proof -
  define a where "a = \<lparr>a_spec = spec, repetitions = PInt (int n), backoff = PNone,
    backoff_counter = PInt 0\<rparr>"
  define r where "r = \<lparr>r_spec = spec, disabled = False, r_action = a\<rparr>"
  have ineq: "inequality_rule r oper k"
    using assms(5-7) by (auto simp: inequality_rule_def rule_when_def r_def)
  have r: "rest_of_budget n r = r" "backoff (r_action r) = PNone"
    by (simp_all add: rest_of_budget_def r_def a_def)
  have "rule_should_trigger (PInt 10) r =
      (Inr (Some (n \<noteq> 0 \<and> holds oper 10 k)), rest_of_budget (n - trial_cost oper k) r)"
    using rule_check_step [OF ineq r(2), of "PInt 10" 10 n] r(1)
    by (cases "n = 0") (simp_all add: trial_cost_def split: if_splits)
  moreover have "rule_when r = Inr (PStr s)" "action_name (r_action r) = Inr (PStr act)"
    using assms(1,5) by (simp_all add: rule_when_def action_name_def r_def a_def)
  moreover have "py_in (PStr act) (map PStr all_actions)"
    using assms(2) by (auto simp: py_in_def list_ex_iff)
  ultimately have "rule_validate r = (Inr (), rest_of_budget (n - trial_cost oper k) r)"
    by (simp add: rule_validate_def check_when_def bind_def attempt_def py_eval)
  moreover have "parse_frequency spec = Inr a"
    using assms(3,4) by (simp add: parse_frequency_def a_def)
  ultimately have "make_rule spec = Inr (rest_of_budget (n - trial_cost oper k) r)"
    by (simp add: make_rule_def r_def [symmetric])
  with ineq r(2) show ?thesis by simp
qed

text \<open>C28. A configured rule with \<open>n\<close> repetitions, an inequality as its \<open>when\<close> and no backoff is accepted, and
  loading it spends one of the repetitions when the inequality holds for the trial value 10. Of the
  rest it makes exact use: over any sequence of finite numbers as metric values the number of times
  it fires is the smaller of what is left and the number of values that satisfy the inequality, and
  its remaining budget is the difference; so it fires for the first satisfying values and never
  after the budget is used up, and a rule with one repetition whose inequality holds for 10 never.\<close>

theorem rule_budget:
  assumes "py_item spec ''action'' = Inr (PStr act)" and "act \<in> set all_actions"
    and "py_get spec ''repetitions'' PNone = Inr (PInt (int n))" and "py_get spec ''backoff'' PNone = Inr PNone"
    and "py_get spec ''when'' PNone = Inr (PStr s)" and "when_search s = Some (oper, k)"
    and "oper \<in> set operators" and "list_all (\<lambda>v. num_of v \<noteq> None) vs"
  shows "\<exists>r. make_rule spec = Inr r \<and>
    fired (fst (trigger_run vs r)) = min (n - trial_cost oper k) (satisfying oper k vs) \<and>
    repetitions (r_action (snd (trigger_run vs r))) = PInt (int (n - trial_cost oper k - satisfying oper k vs))"
proof -
  obtain r where r: "make_rule spec = Inr r" "inequality_rule r oper k" "backoff (r_action r) = PNone"
    "r = rest_of_budget (n - trial_cost oper k) r"
    using make_rule_budget [OF assms(1-7)] by blast
  from trigger_run_budget [OF r(2,3) assms(8), of "n - trial_cost oper k"] r(1,4) show ?thesis by auto
qed

theorem rule_budget_witness:
  "\<exists>r. make_rule (example_spec ''>=7'' (PInt 2) PNone) = Inr r \<and>
     fired (fst (trigger_run [PInt 9, PInt 1, PInt 8, PInt 7] r)) = 1"
proof -
  have w: "when_search ''>=7'' = Some (''>='', 7)"
    using example_inequality [of "PInt 1" PNone] by (auto simp: inequality_rule_def)
  let ?vs = "[PInt 9, PInt 1, PInt 8, PInt 7]"
  have "\<exists>r. make_rule (example_spec ''>=7'' (PInt 2) PNone) = Inr r \<and>
      fired (fst (trigger_run ?vs r)) = min (2 - trial_cost ''>='' 7) (satisfying ''>='' 7 ?vs) \<and>
      repetitions (r_action (snd (trigger_run ?vs r))) = PInt (int (2 - trial_cost ''>='' 7 - satisfying ''>='' 7 ?vs))"
    by (rule rule_budget [OF _ _ _ _ _ w, where act = "''grow''"])
      (simp_all add: example_spec_def dict_at_def all_actions_def state_machine_actions_def workflow_actions_def
        operators_def)
  moreover have "min (2 - trial_cost ''>='' 7) (satisfying ''>='' 7 ?vs) = 1"
    by (simp add: satisfying_def trial_cost_def holds.simps)
  ultimately show ?thesis by metis
qed

text \<open>A rule with no \<open>when\<close>, or with a number as its \<open>when\<close>, never makes the manager act:
  the check performs the bookkeeping of the action but its result is never \<open>True\<close>.\<close>

theorem direct_when_never_fires:
  assumes "rule_when r = Inr w" and "w = PNone \<or> is_number w"
  shows "fst (rule_should_trigger value r) \<noteq> Inr (Some True)"
  using assms
  by (auto simp: rule_should_trigger_def performed_none_def bind_def andthen_def py_eval
      split: prod.splits sum.splits)

theorem direct_when_never_fires_witness:
  "fst (rule_should_trigger (PInt 3) \<lparr>r_spec = PDict [(''when'', PInt 3)], disabled = False,
      r_action = r_action (example_rule ''>=7'' (PInt 1) PNone)\<rparr>) \<noteq> Inr (Some True)"
  by (rule direct_when_never_fires [where w = "PInt 3"]) (simp_all add: rule_when_def is_number_def)

text \<open>A rule whose action sets a backoff never fires: every check with any value answers
  \<open>False\<close> and leaves the rule unchanged, so the backoff counter is never advanced.\<close>

theorem backoff_never_fires:
  assumes "num_of (backoff (r_action r)) = Some b" and "0 \<le> b"
    and "repetitions (r_action r) = PNone \<or> num_of (repetitions (r_action r)) \<noteq> None"
  shows "trigger_run vs r = (replicate (length vs) False, r)"
proof (induction vs)
  case Nil
  show ?case by simp
next
  case (Cons v vs)
  have "rule_should_trigger v r = (Inr (Some False), r)"
    using action_should_trigger_backoff [OF assms] by (rule rule_should_trigger_closed)
  with Cons show ?case by simp
qed

theorem backoff_never_fires_witness:
  "trigger_run [PInt 8, PInt 9] (example_rule ''>=7'' PNone (PInt 2)) =
     ([False, False], example_rule ''>=7'' PNone (PInt 2))"
  using backoff_never_fires [of "example_rule ''>=7'' PNone (PInt 2)" 2 "[PInt 8, PInt 9]"]
  by (simp add: numeral_2_eq_2)

text \<open>A rule whose \<open>when\<close> is a string with no readable inequality is rejected when it is
  loaded, provided its action could run at all. This covers \<open>undefined\<close> and every equality
  such as \<open>== 5\<close>: \<open>should_trigger\<close> handles both, but the trial check with the value 10
  ends in an exception.\<close>

theorem unreadable_when_rejected:
  assumes "py_item spec ''action'' = Inr (PStr act)" and "act \<in> set all_actions"
    and "py_get spec ''repetitions'' PNone = Inr PNone"
    and "py_get spec ''backoff'' PNone = Inr PNone"
    and "py_get spec ''when'' PNone = Inr (PStr s)" and "when_search s = None"
  shows "make_rule spec = Inl ValueError"
proof -
  define a where "a = \<lparr>a_spec = spec, repetitions = PNone, backoff = PNone,
    backoff_counter = PInt 0\<rparr>"
  define r where "r = \<lparr>r_spec = spec, disabled = False, r_action = a\<rparr>"
  have go: "action_should_trigger (r_action r) = Inr True"
    by (simp add: r_def a_def action_should_trigger_free)
  have w: "rule_when r = Inr (PStr s)" "action_name (r_action r) = Inr (PStr act)"
    using assms(1,5) by (simp_all add: rule_when_def action_name_def r_def a_def)
  have "rule_should_trigger (PInt 10) r = (Inl AttributeError, r)"
    using go w assms(6)
    by (simp add: rule_should_trigger_def rule_inequality_def bind_def py_eval is_number_def)
  moreover have "py_in (PStr act) (map PStr all_actions)"
    using assms(2) by (auto simp: py_in_def list_ex_iff)
  ultimately have "rule_validate r = (Inl ValueError, r)"
    using w by (simp add: rule_validate_def check_when_def bind_def attempt_def py_eval)
  moreover have "parse_frequency spec = Inr a"
    using assms(3,4) by (simp add: parse_frequency_def a_def)
  ultimately show ?thesis
    by (simp add: make_rule_def r_def [symmetric])
qed

theorem unreadable_when_rejected_witness:
  "make_rule (example_spec ''undefined'' PNone PNone) = Inl ValueError \<and>
   make_rule (example_spec ''== 5'' PNone PNone) = Inl ValueError"
proof -
  have "when_search ''undefined'' = None" "when_search ''== 5'' = None"
    by (simp_all add: when_at_def)
  then show ?thesis
    using unreadable_when_rejected [of "example_spec ''undefined'' PNone PNone" "''grow''" "''undefined''"]
      unreadable_when_rejected [of "example_spec ''== 5'' PNone PNone" "''grow''" "''== 5''"]
    by (simp add: example_spec_def dict_at_def all_actions_def state_machine_actions_def
        workflow_actions_def)
qed

end
