(* ===== verification/Config.thy ===== *)
theory Config
  imports Rules
begin

text \<open>
  The workflow configuration: \<open>config/config.py\<close> with the constants of \<open>defaults.py\<close>.
  A workflow is the parsed main file (\<open>cfg\<close>), the parsed job files by step name in the
  order of the main file (\<open>jobs\<close>) and the event rules grouped by metric (\<open>rules\<close>).
  The file system with the YAML parser and the JSON schema validator are not part of the
  repository and are parameters: \<open>fs path\<close> is \<open>None\<close> when there is no such file and the
  outcome of parsing it otherwise, \<open>js schema value\<close> tells whether the value validates.
\<close>

section \<open>Constants (defaults.py)\<close>

definition default_scheduler :: string where
  "default_scheduler = ''kubernetes''"

definition default_registry :: string where
  "default_registry = ''registry-0.state-machine.default.svc.cluster.local:5000''"

definition operator_label :: string where
  "operator_label = ''jobid''"

definition default_workdir :: string where
  "default_workdir = ''/tmp/out''"

definition default_prefix :: string where
  "default_prefix = ''job_''"

definition supported_schedulers :: "string list" where
  "supported_schedulers = [default_scheduler, ''flux'']"

section \<open>Paths\<close>

text \<open>\<open>os.path.join\<close> and \<open>os.path.dirname\<close> on POSIX.\<close>

definition path_join :: "string \<Rightarrow> string \<Rightarrow> string" where
  "path_join a b =
     (if b \<noteq> [] \<and> hd b = CHR ''/'' then b
      else if a = [] \<or> last a = CHR ''/'' then a @ b
      else a @ CHR ''/'' # b)"

definition dirname :: "string \<Rightarrow> string" where
  "dirname p =
     (let head = rev (dropWhile (\<lambda>c. c \<noteq> CHR ''/'') (rev p));
          bare = rev (dropWhile (\<lambda>c. c = CHR ''/'') (rev head))
      in if bare = [] then head else bare)"

type_synonym filesys = "string \<Rightarrow> pyval res option"
type_synonym schema_check = "pyval \<Rightarrow> pyval \<Rightarrow> bool"

definition path_exists :: "filesys \<Rightarrow> string \<Rightarrow> bool" where
  "path_exists fs p \<longleftrightarrow> fs p \<noteq> None"

definition find_config :: "filesys \<Rightarrow> string \<Rightarrow> string \<Rightarrow> string res" where
  "find_config fs config_dir config_file =
     (let found = (if config_dir \<noteq> [] \<and> \<not> path_exists fs config_file
                   then path_join config_dir config_file else config_file)
      in if \<not> path_exists fs found \<and> config_dir \<noteq> [] then Inl SystemExit
         else if \<not> path_exists fs found then Inl SystemExit
         else Inr found)"

definition read_yaml :: "filesys \<Rightarrow> string \<Rightarrow> pyval res" where
  "read_yaml fs p = (case fs p of None \<Rightarrow> Inl (OtherError ''FileNotFoundError'') | Some r \<Rightarrow> r)"

definition load_config :: "filesys \<Rightarrow> string \<Rightarrow> string \<Rightarrow> pyval res" where
  "load_config fs config_dir config_file =
     rbind (find_config fs config_dir config_file) (read_yaml fs)"

section \<open>The workflow\<close>

record workflow =
  cfg :: pyval
  jobs :: "(string, pyval) dict"
  rules :: "(string, rule list) dict"
  filename :: string
  config_dir :: string

text \<open>
  A path or a name must be a string: the path functions raise \<open>TypeError\<close> on anything else.
  Job names are strings by the job schema, metric names by the use the manager makes of them.
\<close>

fun string_of :: "pyval \<Rightarrow> string res" where
  "string_of (PStr s) = Inr s"
| "string_of _ = Inl TypeError"

subsection \<open>Loading jobs\<close>

text \<open>One entry of the main file's job list: the entry with its name added, and the job.\<close>

definition load_job :: "filesys \<Rightarrow> schema_check \<Rightarrow> pyval \<Rightarrow> string \<Rightarrow> pyval \<Rightarrow> (pyval \<times> string \<times> pyval) res" where
  "load_job fs js job_schema dir job_config =
     rbind (py_item job_config ''config'') (\<lambda>path.
     rbind (string_of path) (\<lambda>p.
     rbind (load_config fs dir p) (\<lambda>job.
     if \<not> js job_schema job then Inl (OtherError ''ValidationError'')
     else
     rbind (py_item job ''name'') (\<lambda>name.
     rbind (py_setitem job_config ''name'' name) (\<lambda>job_config'.
     rbind (py_item job ''config'') (\<lambda>conf.
     rbind (py_setitem conf ''name'' name) (\<lambda>conf'.
     rbind (py_setitem job ''config'' conf') (\<lambda>job'.
     rbind (string_of name) (\<lambda>key.
     Inr (job_config', key, job'))))))))))"

fun load_jobs_loop ::
  "filesys \<Rightarrow> schema_check \<Rightarrow> pyval \<Rightarrow> string \<Rightarrow> pyval list \<Rightarrow> (string, pyval) dict \<Rightarrow>
   (pyval list \<times> (string, pyval) dict) res" where
  "load_jobs_loop fs js sch dir [] acc = Inr ([], acc)"
| "load_jobs_loop fs js sch dir (c # cs) acc =
     rbind (load_job fs js sch dir c) (\<lambda>(c', key, job).
     rbind (load_jobs_loop fs js sch dir cs (dict_set key job acc)) (\<lambda>(cs', acc').
     Inr (c' # cs', acc')))"

definition load_jobs :: "filesys \<Rightarrow> schema_check \<Rightarrow> pyval \<Rightarrow> workflow \<Rightarrow> workflow res" where
  "load_jobs fs js sch w =
     rbind (py_contains (cfg w) ''jobs'') (\<lambda>present.
     if \<not> present then Inl ValueError
     else rbind (py_item (cfg w) ''jobs'') (\<lambda>entries.
     if \<not> truthy entries then Inl ValueError
     else (case entries of
        PList cs \<Rightarrow>
          rbind (load_jobs_loop fs js sch (config_dir w) cs (jobs w)) (\<lambda>(cs', js').
          rbind (py_setitem (cfg w) ''jobs'' (PList cs')) (\<lambda>cfg'.
          Inr (w\<lparr>cfg := cfg', jobs := js'\<rparr>)))
      | _ \<Rightarrow> Inl TypeError)))"

subsection \<open>Loading events\<close>

definition add_rule :: "(string, rule list) dict \<Rightarrow> string \<Rightarrow> rule \<Rightarrow> (string, rule list) dict" where
  "add_rule rs m r =
     (let rs' = (if dict_in m rs then rs else dict_set m [] rs)
      in dict_set m (the (dict_get rs' m) @ [r]) rs')"

fun load_events_loop :: "pyval list \<Rightarrow> (string, rule list) dict \<Rightarrow> (string, rule list) dict res" where
  "load_events_loop [] rs = Inr rs"
| "load_events_loop (e # es) rs =
     rbind (make_rule e) (\<lambda>r.
     rbind (action_metric (r_action r)) (\<lambda>mv.
     rbind (string_of mv) (\<lambda>m.
     load_events_loop es (add_rule rs m r))))"

definition load_events :: "workflow \<Rightarrow> workflow res" where
  "load_events w =
     rbind (py_item (cfg w) ''workflow'') (\<lambda>wf.
     rbind (py_get wf ''events'' PNone) (\<lambda>events.
     if \<not> truthy events then Inr (w\<lparr>rules := []\<rparr>)
     else (case events of
        PList es \<Rightarrow> rbind (load_events_loop es []) (\<lambda>rs. Inr (w\<lparr>rules := rs\<rparr>))
      | _ \<Rightarrow> Inl TypeError)))"

subsection \<open>Construction\<close>

definition load :: "filesys \<Rightarrow> string \<Rightarrow> string option \<Rightarrow> workflow res" where
  "load fs config_path dir =
     (let d = (case dir of None \<Rightarrow> dirname config_path | Some d \<Rightarrow> d) in
      rbind (find_config fs d config_path) (\<lambda>f.
      rbind (read_yaml fs f) (\<lambda>c.
      Inr \<lparr>cfg = c, jobs = [], rules = [], filename = f, config_dir = d\<rparr>)))"

definition workflow_config :: "filesys \<Rightarrow> schema_check \<Rightarrow> pyval \<Rightarrow> string \<Rightarrow> string option \<Rightarrow> workflow res" where
  "workflow_config fs js sch config_path dir =
     rbind (load fs config_path dir) (\<lambda>w.
     rbind (load_jobs fs js sch w) load_events)"

definition load_workflow_config ::
  "filesys \<Rightarrow> schema_check \<Rightarrow> pyval \<Rightarrow> pyval \<Rightarrow> string \<Rightarrow> string option \<Rightarrow> bool \<Rightarrow> workflow res" where
  "load_workflow_config fs js job_schema config_schema config_path dir validate =
     rbind (workflow_config fs js job_schema config_path dir) (\<lambda>w.
     if validate \<and> \<not> js config_schema (cfg w) then Inl (OtherError ''ValidationError'')
     else Inr w)"

section \<open>Reading and changing the configuration\<close>

definition get_job :: "workflow \<Rightarrow> string \<Rightarrow> pyval" where
  "get_job w name = (case dict_get (jobs w) name of Some j \<Rightarrow> j | None \<Rightarrow> PNone)"

text \<open>\<open>self.cfg.get(section, {}).get(key)\<close>.\<close>

definition cfg_entry :: "workflow \<Rightarrow> string \<Rightarrow> string \<Rightarrow> pyval res" where
  "cfg_entry w sect key =
     rbind (py_get (cfg w) sect (PDict [])) (\<lambda>s. py_get s key PNone)"

definition registry_host :: "workflow \<Rightarrow> pyval res" where
  "registry_host w =
     rbind (cfg_entry w ''registry'' ''host'') (\<lambda>h. Inr (py_or h (PStr default_registry)))"

definition workdir :: "workflow \<Rightarrow> pyval res" where
  "workdir w = py_get (cfg w) ''workdir'' PNone"

definition registry_plain_http :: "workflow \<Rightarrow> pyval res" where
  "registry_plain_http w =
     rbind (cfg_entry w ''registry'' ''plain_http'') (\<lambda>p.
       if p = PNone then Inr (PBool True) else Inr p)"

definition push_to :: "workflow \<Rightarrow> pyval res" where
  "push_to w = cfg_entry w ''registry'' ''push''"

definition pull_from :: "workflow \<Rightarrow> pyval res" where
  "pull_from w = cfg_entry w ''registry'' ''pull''"

definition prefix :: "workflow \<Rightarrow> pyval res" where
  "prefix w = rbind (py_item (cfg w) ''workflow'') (\<lambda>wf. py_get wf ''prefix'' PNone)"

text \<open>\<open>self.cfg[section][key] = v\<close>, creating the section first when it is missing.\<close>

definition set_section :: "workflow \<Rightarrow> string \<Rightarrow> (string \<times> pyval) list \<Rightarrow> workflow res" where
  "set_section w sect kvs =
     rbind (py_contains (cfg w) sect) (\<lambda>present.
     rbind (if present then Inr (cfg w) else py_setitem (cfg w) sect (PDict [])) (\<lambda>c.
     rbind (py_item c sect) (\<lambda>s.
     rbind (foldl (\<lambda>acc (k, v). rbind acc (\<lambda>d. py_setitem d k v)) (Inr s) kvs) (\<lambda>s'.
     rbind (py_setitem c sect s') (\<lambda>c'.
     Inr (w\<lparr>cfg := c'\<rparr>))))))"

definition set_filesystem :: "workflow \<Rightarrow> pyval \<Rightarrow> workflow res" where
  "set_filesystem w path = set_section w ''filesystem'' [(''path'', path)]"

definition set_workdir :: "workflow \<Rightarrow> pyval \<Rightarrow> workflow res" where
  "set_workdir w dir =
     (if \<not> truthy dir then Inr w
      else rbind (py_setitem (cfg w) ''workdir'' dir) (\<lambda>c. Inr (w\<lparr>cfg := c\<rparr>)))"

definition filesystem :: "workflow \<Rightarrow> pyval res" where
  "filesystem w = cfg_entry w ''filesystem'' ''path''"

definition set_registry :: "workflow \<Rightarrow> pyval \<Rightarrow> pyval \<Rightarrow> workflow res" where
  "set_registry w host plain_http =
     set_section w ''registry''
       ((if host \<noteq> PNone then [(''host'', host)] else []) @
        (if plain_http \<noteq> PNone then [(''plain_http'', plain_http)] else []))"

definition max_size :: "workflow \<Rightarrow> pyval res" where
  "max_size w = cfg_entry w ''cluster'' ''max_size''"

text \<open>The fallback \<open>defaults.default_completions\<close> does not exist: reading it raises.\<close>

definition completions_needed :: "workflow \<Rightarrow> pyval res" where
  "completions_needed w =
     rbind (cfg_entry w ''workflow'' ''completed'') (\<lambda>c.
       if truthy c then Inr c else Inl AttributeError)"

text \<open>The list of job entries, as the loops over \<open>self.cfg["jobs"]\<close> see it.\<close>

definition job_entries :: "workflow \<Rightarrow> pyval list res" where
  "job_entries w = rbind (py_item (cfg w) ''jobs'') (\<lambda>v.
     case v of PList cs \<Rightarrow> Inr cs | _ \<Rightarrow> Inl TypeError)"

definition first_step :: "workflow \<Rightarrow> pyval res" where
  "first_step w = rbind (job_entries w) (\<lambda>cs.
     case cs of [] \<Rightarrow> Inl IndexError | c # _ \<Rightarrow> py_item c ''name'')"

definition last_step :: "workflow \<Rightarrow> pyval res" where
  "last_step w = rbind (job_entries w) (\<lambda>cs.
     if cs = [] then Inl IndexError else py_item (last cs) ''name'')"

text \<open>
  \<open>next_step\<close>: the local variable \<open>last_step\<close> starts as \<open>None\<close> and no statement of the
  loop assigns it, so the loop carries it unchanged.
\<close>

fun next_step_loop :: "pyval \<Rightarrow> pyval \<Rightarrow> pyval list \<Rightarrow> pyval res" where
  "next_step_loop prev current [] = Inr PNone"
| "next_step_loop prev current (job # rest) =
     (if prev \<noteq> PNone \<and> py_eq prev current then py_item job ''name''
      else next_step_loop prev current rest)"

definition next_step :: "workflow \<Rightarrow> string \<Rightarrow> pyval res" where
  "next_step w current =
     rbind (job_entries w) (next_step_loop PNone (PStr current))"

definition config_for_step :: "workflow \<Rightarrow> string \<Rightarrow> pyval res" where
  "config_for_step w name =
     (case dict_get (jobs w) name of
        None \<Rightarrow> Inl ValueError
      | Some job \<Rightarrow> py_get job ''config'' (PDict []))"

definition nodes_for_step :: "workflow \<Rightarrow> string \<Rightarrow> pyval res" where
  "nodes_for_step w name = rbind (config_for_step w name) (\<lambda>c. py_get c ''nnodes'' (PInt 1))"

section \<open>What loading establishes\<close>

text \<open>The step names of a list of job entries, where every entry carries one.\<close>

definition named_as :: "pyval list \<Rightarrow> string list \<Rightarrow> bool" where
  "named_as cs ns \<longleftrightarrow> list_all2 (\<lambda>c n. py_item c ''name'' = Inr (PStr n)) cs ns"

lemma py_setitem_get: "py_setitem d k v = Inr d' \<Longrightarrow> py_item d' k = Inr v"
  by (cases d) (auto simp: dict_at_def)

lemma py_setitem_other: "py_setitem d k v = Inr d' \<Longrightarrow> k' \<noteq> k \<Longrightarrow> py_item d' k' = py_item d k'"
  by (cases d) (auto simp: dict_at_def)

lemma py_item_get: "py_item d k = Inr v \<Longrightarrow> py_get d k dflt = Inr v"
  by (cases d) (auto simp: dict_at_def split: option.splits)

text \<open>A loaded job carries its own name in its configuration, an entry the name of its job.\<close>

definition job_named :: "string \<Rightarrow> pyval \<Rightarrow> bool" where
  "job_named n job \<longleftrightarrow>
     (\<exists>c. py_item job ''config'' = Inr (PDict c) \<and> dict_get c ''name'' = Some (PStr n)) \<and>
     py_item job ''name'' = Inr (PStr n)"

lemma py_setitem_dict: "py_setitem d k v = Inr d' \<Longrightarrow> \<exists>c. d' = PDict c \<and> dict_get c k = Some v"
  by (cases d) auto

lemma load_job_named:
  assumes "load_job fs js sch dir c = Inr (c', key, job)"
  shows "py_item c' ''name'' = Inr (PStr key) \<and> job_named key job"
proof -
  obtain job0 name conf conf' where
    name: "py_item job0 ''name'' = Inr name" "string_of name = Inr key"
    and c': "py_setitem c ''name'' name = Inr c'"
    and conf: "py_setitem conf ''name'' name = Inr conf'"
    and job: "py_setitem job0 ''config'' conf' = Inr job"
    using assms by (auto simp: load_job_def rbind_Inr_iff split: if_splits)
  have key: "name = PStr key" using name(2) by (cases name) auto
  show ?thesis
    using py_setitem_get [OF c'] py_setitem_get [OF job] py_setitem_dict [OF conf]
      py_setitem_other [OF job, of "''name''"] name(1)
    by (auto simp: job_named_def key)
qed

definition jobs_ok :: "(string, pyval) dict \<Rightarrow> bool" where
  "jobs_ok d \<longleftrightarrow> (\<forall>n job. dict_get d n = Some job \<longrightarrow> job_named n job) \<and> distinct (dict_keys d)"

lemma jobs_ok_set: "jobs_ok d \<Longrightarrow> job_named n job \<Longrightarrow> jobs_ok (dict_set n job d)"
  by (simp add: jobs_ok_def)

lemma load_jobs_loop_ok:
  assumes "load_jobs_loop fs js sch dir cs acc = Inr (cs', acc')" and "jobs_ok acc"
  shows "\<exists>ns. named_as cs' ns \<and> length cs' = length cs \<and> jobs_ok acc' \<and>
    set (dict_keys acc') = set (dict_keys acc) \<union> set ns \<and>
    (distinct (dict_keys acc @ ns) \<longrightarrow> dict_keys acc' = dict_keys acc @ ns)"
  using assms
proof (induction cs arbitrary: acc cs')
  case Nil
  then show ?case by (auto simp: named_as_def intro!: exI [of _ "[]"])
next
  case (Cons c cs)
  from Cons.prems(1) obtain c1 key job cs1 where
    one: "load_job fs js sch dir c = Inr (c1, key, job)"
    and rest: "load_jobs_loop fs js sch dir cs (dict_set key job acc) = Inr (cs1, acc')"
    and cs': "cs' = c1 # cs1"
    by (auto simp: rbind_Inr_iff)
  note named = load_job_named [OF one]
  have "jobs_ok (dict_set key job acc)"
    using Cons.prems(2) named by (simp add: jobs_ok_set)
  from Cons.IH [OF rest this] obtain ns where ns: "named_as cs1 ns" "length cs1 = length cs"
    "jobs_ok acc'"
    "set (dict_keys acc') = set (dict_keys (dict_set key job acc)) \<union> set ns"
    "distinct (dict_keys (dict_set key job acc) @ ns) \<longrightarrow>
       dict_keys acc' = dict_keys (dict_set key job acc) @ ns"
    by blast
  show ?case
    using ns named cs'
    by (intro exI [of _ "key # ns"]) (auto simp: named_as_def dict_keys_set dict_in_keys)
qed

text \<open>A workflow of two steps for the witnesses.\<close>

definition example_job :: "string \<Rightarrow> int \<Rightarrow> pyval" where
  "example_job n nodes = PDict [(''name'', PStr n), (''config'', PDict [(''nnodes'', PInt nodes)]),
     (''script'', PStr ''sleep 20''), (''image'', PStr ''rockylinux:9'')]"

definition example_files :: filesys where
  "example_files p =
     (if p = ''a.yaml'' then Some (Inr (example_job ''job_a'' 1))
      else if p = ''b.yaml'' then Some (Inr (example_job ''job_b'' 2))
      else None)"

definition example_cfg :: "(string \<times> pyval) list \<Rightarrow> pyval" where
  "example_cfg workflow_section = PDict [(''workflow'', PDict workflow_section),
     (''cluster'', PDict [(''max_size'', PInt 4)]),
     (''jobs'', PList [PDict [(''config'', PStr ''a.yaml'')], PDict [(''config'', PStr ''b.yaml'')]])]"

definition example_start :: "(string \<times> pyval) list \<Rightarrow> workflow" where
  "example_start sec = \<lparr>cfg = example_cfg sec, jobs = [], rules = [],
     filename = ''wf.yaml'', config_dir = []\<rparr>"

definition example_loaded :: "(string \<times> pyval) list \<Rightarrow> workflow" where
  "example_loaded sec = \<lparr>cfg = PDict [(''workflow'', PDict sec),
       (''cluster'', PDict [(''max_size'', PInt 4)]),
       (''jobs'', PList [PDict [(''config'', PStr ''a.yaml''), (''name'', PStr ''job_a'')],
                      PDict [(''config'', PStr ''b.yaml''), (''name'', PStr ''job_b'')]])],
     jobs = [(''job_a'', PDict [(''name'', PStr ''job_a''),
               (''config'', PDict [(''nnodes'', PInt 1), (''name'', PStr ''job_a'')]),
               (''script'', PStr ''sleep 20''), (''image'', PStr ''rockylinux:9'')]),
             (''job_b'', PDict [(''name'', PStr ''job_b''),
               (''config'', PDict [(''nnodes'', PInt 2), (''name'', PStr ''job_b'')]),
               (''script'', PStr ''sleep 20''), (''image'', PStr ''rockylinux:9'')])],
     rules = [], filename = ''wf.yaml'', config_dir = []\<rparr>"

lemma example_load_jobs:
  "load_jobs example_files (\<lambda>_ _. True) PNone (example_start sec) = Inr (example_loaded sec)"
  by (simp add: load_jobs_def example_start_def example_cfg_def example_loaded_def dict_in_def
      dict_at_def load_job_def load_config_def find_config_def path_exists_def read_yaml_def
      example_files_def example_job_def Let_def)

lemma example_start_jobs: "jobs (example_start sec) = []"
  by (simp add: example_start_def)

lemma loaded_jobs:
  assumes "load_jobs fs js sch w = Inr w'" and "jobs w = []"
  shows "\<exists>cs ns. job_entries w' = Inr cs \<and> cs \<noteq> [] \<and> named_as cs ns \<and>
    set (dict_keys (jobs w')) = set ns \<and> jobs_ok (jobs w') \<and>
    (distinct ns \<longrightarrow> dict_keys (jobs w') = ns)"
proof -
  obtain v cs0 cs' acc' c' where
    v: "py_item (cfg w) ''jobs'' = Inr (PList cs0)" "truthy (PList cs0)"
    and loop: "load_jobs_loop fs js sch (config_dir w) cs0 [] = Inr (cs', acc')"
    and c': "py_setitem (cfg w) ''jobs'' (PList cs') = Inr c'"
    and w': "w' = w\<lparr>cfg := c', jobs := acc'\<rparr>"
    using assms
    by (auto simp: load_jobs_def rbind_Inr_iff split: if_splits pyval.splits)
  have "jobs_ok []" by (simp add: jobs_ok_def dict_keys_def)
  from load_jobs_loop_ok [OF loop this] obtain ns where
    ns: "named_as cs' ns" "length cs' = length cs0" "jobs_ok acc'" "set (dict_keys acc') = set ns"
      "distinct ns \<longrightarrow> dict_keys acc' = ns"
    by (auto simp: dict_keys_def)
  have "job_entries w' = Inr cs'"
    using py_setitem_get [OF c'] by (simp add: w' job_entries_def)
  moreover have "cs' \<noteq> []" using v(2) ns(2) by auto
  ultimately show ?thesis using ns w' by auto
qed

text \<open>Loading the job files gives every step of the main file its name and its job: the
  entries of the loaded configuration are named by a list \<open>ns\<close> as long as the file's list,
  the job dictionary knows exactly these names, each under a job that carries the same name,
  and when no name occurs twice the dictionary lists the steps in the file's order.\<close>

theorem load_jobs_steps:
  assumes "load_jobs fs js sch w = Inr w'" and "jobs w = []"
  shows "\<exists>cs ns. job_entries w' = Inr cs \<and> cs \<noteq> [] \<and> named_as cs ns \<and>
    set (dict_keys (jobs w')) = set ns \<and> jobs_ok (jobs w') \<and>
    (distinct ns \<longrightarrow> dict_keys (jobs w') = ns)"
  by (rule loaded_jobs [OF assms])

theorem load_jobs_steps_witness:
  "\<exists>cs ns. job_entries (example_loaded []) = Inr cs \<and> cs \<noteq> [] \<and> named_as cs ns \<and>
    set (dict_keys (jobs (example_loaded []))) = set ns \<and> jobs_ok (jobs (example_loaded []))"
  using load_jobs_steps [OF example_load_jobs [of "[]"] example_start_jobs] by blast

text \<open>The first and the last step of a loaded workflow are known to it.\<close>

lemma config_for_named: "jobs_ok (jobs w) \<Longrightarrow> dict_in n (jobs w) \<Longrightarrow>
  \<exists>c. config_for_step w n = Inr (PDict c) \<and> dict_get c ''name'' = Some (PStr n)"
proof -
  assume ok: "jobs_ok (jobs w)" and "dict_in n (jobs w)"
  then obtain job where job: "dict_get (jobs w) n = Some job" by (auto simp: dict_in_def)
  with ok have "job_named n job" by (simp add: jobs_ok_def)
  then obtain c where c: "py_item job ''config'' = Inr (PDict c)" "dict_get c ''name'' = Some (PStr n)"
    by (auto simp: job_named_def)
  show ?thesis using job c py_item_get [OF c(1)] by (simp add: config_for_step_def)
qed

lemma named_as_last:
  assumes "named_as cs ns" and "cs \<noteq> []"
  shows "py_item (last cs) ''name'' = Inr (PStr (last ns))"
proof -
  have "list_all2 (\<lambda>c n. py_item c ''name'' = Inr (PStr n)) cs ns"
    using assms(1) by (simp add: named_as_def)
  then show ?thesis
    using assms(2) by (induction rule: list_all2_induct) auto
qed

text \<open>After loading, the first and the last step of the workflow exist, and the
  configuration of both can be looked up: the lookups the manager makes at every new job
  sequence and at every status report cannot fail.\<close>

theorem loaded_steps_known:
  assumes "load_jobs fs js sch w = Inr w'" and "jobs w = []"
  shows "\<exists>a z ca cz. first_step w' = Inr (PStr a) \<and> last_step w' = Inr (PStr z) \<and>
    config_for_step w' a = Inr (PDict ca) \<and> dict_get ca ''name'' = Some (PStr a) \<and>
    config_for_step w' z = Inr (PDict cz) \<and> dict_get cz ''name'' = Some (PStr z)"
proof -
  from loaded_jobs [OF assms] obtain cs ns where cs: "job_entries w' = Inr cs" "cs \<noteq> []"
    "named_as cs ns" "set (dict_keys (jobs w')) = set ns" "jobs_ok (jobs w')"
    by blast
  then have ns: "ns \<noteq> []" and len: "length cs = length ns"
    by (auto simp: named_as_def list_all2_lengthD)
  have first: "first_step w' = Inr (PStr (hd ns))"
    using cs ns by (cases cs; cases ns) (auto simp: first_step_def named_as_def)
  have "py_item (last cs) ''name'' = Inr (PStr (last ns))"
    using cs(2,3) by (rule named_as_last [rotated])
  then have last: "last_step w' = Inr (PStr (last ns))"
    using cs by (simp add: last_step_def)
  have "dict_in (hd ns) (jobs w')" "dict_in (last ns) (jobs w')"
    using ns cs(4) by (simp_all add: dict_in_keys)
  then show ?thesis
    using config_for_named [OF cs(5)] first last by blast
qed

theorem loaded_steps_known_witness:
  "\<exists>ca. config_for_step (example_loaded []) ''job_a'' = Inr (PDict ca) \<and>
     first_step (example_loaded []) = Inr (PStr ''job_a'')"
  using loaded_steps_known [OF example_load_jobs [of "[]"] example_start_jobs]
  by (auto simp: example_loaded_def first_step_def job_entries_def dict_at_def)

section \<open>Event rules by metric\<close>

definition rules_for :: "(string, rule list) dict \<Rightarrow> string \<Rightarrow> rule list" where
  "rules_for rs m = (case dict_get rs m of None \<Rightarrow> [] | Some l \<Rightarrow> l)"

lemma rules_for_add: "rules_for (add_rule rs m r) m' =
  (if m' = m then rules_for rs m @ [r] else rules_for rs m')"
  by (auto simp: rules_for_def add_rule_def Let_def dict_in_def)

text \<open>The rule and the metric of one event of the configuration.\<close>

definition event_rule :: "pyval \<Rightarrow> (string \<times> rule) res" where
  "event_rule e = rbind (make_rule e) (\<lambda>r. rbind (action_metric (r_action r)) (\<lambda>mv.
     rbind (string_of mv) (\<lambda>m. Inr (m, r))))"

lemma load_events_loop_groups:
  assumes "load_events_loop es rs = Inr rs'"
  shows "\<exists>mrs. rmap event_rule es = Inr mrs \<and>
    (\<forall>m. rules_for rs' m = rules_for rs m @ map snd (filter (\<lambda>(m', r). m' = m) mrs))"
  using assms
proof (induction es arbitrary: rs)
  case Nil
  then show ?case by simp
next
  case (Cons e es)
  then obtain r mv m where e: "make_rule e = Inr r" "action_metric (r_action r) = Inr mv"
    "string_of mv = Inr m" and rest: "load_events_loop es (add_rule rs m r) = Inr rs'"
    by (auto simp: rbind_Inr_iff)
  from Cons.IH [OF rest] obtain mrs where mrs: "rmap event_rule es = Inr mrs"
    "\<forall>m'. rules_for rs' m' = rules_for (add_rule rs m r) m' @ map snd (filter (\<lambda>(k, r). k = m') mrs)"
    by blast
  have "event_rule e = Inr (m, r)" using e by (simp add: event_rule_def)
  with mrs show ?case by (auto simp: rules_for_add)
qed

text \<open>The rules of a workflow are its events, read in order and grouped by their metric:
  under every metric stand the rules of exactly the events with that metric, in the order of
  the file, and loading fails as soon as one event is not a valid rule.\<close>

theorem load_events_groups:
  assumes "load_events w = Inr w'" and "py_item (cfg w) ''workflow'' = Inr sec"
    and "py_get sec ''events'' PNone = Inr (PList es)"
  shows "\<exists>mrs. rmap event_rule es = Inr mrs \<and>
    (\<forall>m. rules_for (rules w') m = map snd (filter (\<lambda>(m', r). m' = m) mrs))"
proof (cases es)
  case Nil
  with assms show ?thesis by (auto simp: load_events_def rules_for_def)
next
  case (Cons e es')
  with assms obtain rs where "load_events_loop es [] = Inr rs" "w' = w\<lparr>rules := rs\<rparr>"
    by (auto simp: load_events_def rbind_Inr_iff)
  then show ?thesis using load_events_loop_groups [of es "[]" rs] by (auto simp: rules_for_def)
qed

text \<open>One event, whose rule does not trigger on the trial value.\<close>

definition example_event :: pyval where
  "example_event = PDict [(''action'', PStr ''finish-workflow''), (''metric'', PStr ''count.a.failure''),
     (''when'', PInt 3)]"

lemma example_event_rule: "make_rule example_event = Inr \<lparr>r_spec = example_event, disabled = False,
   r_action = \<lparr>a_spec = example_event, repetitions = PNone, backoff = PNone, backoff_counter = PInt 0\<rparr>\<rparr>"
  by (simp add: make_rule_def parse_frequency_def example_event_def rule_validate_def bind_def
      action_name_def dict_at_def py_eval py_in_def all_actions_def state_machine_actions_def
      workflow_actions_def check_when_def rule_when_def)

theorem load_events_groups_witness:
  "\<exists>w' mrs. load_events (example_start [(''events'', PList [example_event])]) = Inr w' \<and>
     rmap event_rule [example_event] = Inr mrs \<and>
     (\<forall>m. rules_for (rules w') m = map snd (filter (\<lambda>(m', r). m' = m) mrs))"
proof -
  let ?w = "example_start [(''events'', PList [example_event])]"
  obtain w' where w': "load_events ?w = Inr w'"
    by (simp add: load_events_def example_start_def example_cfg_def dict_at_def example_event_rule)
      (simp add: action_metric_def example_event_def dict_at_def)
  have "\<exists>mrs. rmap event_rule [example_event] = Inr mrs \<and>
     (\<forall>m. rules_for (rules w') m = map snd (filter (\<lambda>(m', r). m' = m) mrs))"
    by (rule load_events_groups [OF w', of "PDict [(''events'', PList [example_event])]"])
      (simp_all add: example_start_def example_cfg_def dict_at_def)
  with w' show ?thesis by blast
qed

section \<open>The setters and getters\<close>

lemma next_step_loop_none: "next_step_loop PNone current cs = Inr PNone"
  by (induction cs) simp_all

text \<open>\<open>next_step\<close> never finds a next step: for every workflow with a job list and every
  step name it returns \<open>None\<close>, because the name of the previous entry is never recorded.\<close>

theorem next_step_always_none:
  assumes "job_entries w = Inr cs"
  shows "next_step w current = Inr PNone"
  using assms by (simp add: next_step_def next_step_loop_none)

theorem next_step_always_none_witness:
  "next_step (example_loaded []) ''job_a'' = Inr PNone"
  by (rule next_step_always_none) (simp add: job_entries_def example_loaded_def dict_at_def)

text \<open>The registry the manager writes into the workflow is the registry the jobs read
  back: after \<open>set_registry\<close> with a non-empty host, \<open>registry_host\<close> is that host and
  \<open>registry_plain_http\<close> the given flag, whether or not the file had a registry section.\<close>

theorem set_registry_roundtrip:
  assumes "cfg w = PDict c"
    and "dict_get c ''registry'' = None \<or> dict_get c ''registry'' = Some (PDict d)"
    and "host \<noteq> []"
  shows "\<exists>w'. set_registry w (PStr host) (PBool plain) = Inr w' \<and>
    registry_host w' = Inr (PStr host) \<and> registry_plain_http w' = Inr (PBool plain) \<and>
    jobs w' = jobs w \<and> rules w' = rules w \<and> job_entries w' = job_entries w"
  using assms
  by (auto simp: set_registry_def set_section_def registry_host_def registry_plain_http_def
      cfg_entry_def dict_in_def dict_at_def py_or_def job_entries_def split: option.splits)

theorem set_registry_roundtrip_witness:
  "\<exists>w'. set_registry (example_loaded []) (PStr ''reg:5000'') (PBool False) = Inr w' \<and>
     registry_host w' = Inr (PStr ''reg:5000'')"
proof -
  obtain c where c: "cfg (example_loaded []) = PDict c"
    by (simp add: example_loaded_def)
  then have "dict_get c ''registry'' = None"
    by (auto simp: example_loaded_def)
  with set_registry_roundtrip [OF c, of _ "''reg:5000''" False] show ?thesis
    by auto
qed

end
