(* ===== verification/TrackerUtils.thy ===== *)
theory TrackerUtils
  imports Rules
begin

text \<open>
  What the trackers share: the records of \<open>tracker/types.py\<close>, the truth lists of
  \<open>tracker/types.py\<close> and \<open>utils.py\<close>, and the walltime conversion of
  \<open>tracker/utils.py\<close> with the number parsing of the Python library it relies on.
\<close>

section \<open>Types (tracker/types.py, utils.py)\<close>

datatype submission_code = SubmitOK | SubmitERROR | SubmitCONFLICT

datatype cancel_code = CancelOK | CancelERROR

record job_submission =
  status :: submission_code
  return_code :: int

record job_setup =
  setup_name :: string
  setup_nodes :: int
  cores_per_task :: int
  script :: pyval
  tasks :: pyval
  walltime :: pyval
  gpus :: int
  setup_workdir :: pyval

definition true_options :: "pyval list" where
  "true_options = [PStr ''true'', PBool True, PStr ''1'', PInt 1]"

definition true_values :: "pyval list" where
  "true_values = [PStr ''1'', PStr ''yes'', PInt 1, PStr ''true'', PBool True, PStr ''True'']"

section \<open>Reading floats\<close>

text \<open>
  \<open>float(s)\<close>: an optionally signed decimal literal with an optional fraction and exponent,
  surrounded by blanks. The spellings of infinity and NaN have no value here; where the
  program meets one it goes on to \<open>int(...)\<close>, which raises.
\<close>

definition digit_run :: "string \<Rightarrow> string \<times> string" where
  "digit_run s = (takeWhile (\<lambda>c. is_digit c \<or> c = CHR ''_'') s, dropWhile (\<lambda>c. is_digit c \<or> c = CHR ''_'') s)"

text \<open>Underscores stand between two digits only.\<close>

fun run_ok :: "bool \<Rightarrow> string \<Rightarrow> bool" where
  "run_ok after [] = after"
| "run_ok after (c # cs) = (if is_digit c then run_ok True cs else after \<and> run_ok False cs)"

definition run_digits :: "string \<Rightarrow> string" where
  "run_digits s = filter is_digit s"

definition exponent_at :: "string \<Rightarrow> int option" where
  "exponent_at s = (case s of [] \<Rightarrow> Some 0
     | c # r \<Rightarrow> if c = CHR ''e'' \<or> c = CHR ''E'' then int_literal r else None)"

definition scale10 :: "rat \<Rightarrow> int \<Rightarrow> rat" where
  "scale10 x e = (if 0 \<le> e then x * 10 ^ nat e else x / 10 ^ nat (- e))"

definition unsigned_float :: "string \<Rightarrow> rat option" where
  "unsigned_float s =
     (let (ds, r) = digit_run s;
          (fs, r') = (case r of [] \<Rightarrow> ([], []) | c # t \<Rightarrow> if c = CHR ''.'' then digit_run t else ([], r))
      in if (ds = [] \<and> fs = []) \<or> (ds \<noteq> [] \<and> \<not> run_ok False ds) \<or> (fs \<noteq> [] \<and> \<not> run_ok False fs)
         then None
         else map_option (scale10 (decimal (run_digits ds) (run_digits fs))) (exponent_at r'))"

definition float_literal :: "string \<Rightarrow> rat option" where
  "float_literal s = (case strip s of [] \<Rightarrow> None
     | c # r \<Rightarrow>
        map_option to_double
          (if c = CHR ''-'' then map_option uminus (unsigned_float r)
           else if c = CHR ''+'' then unsigned_float r
           else unsigned_float (c # r)))"

definition py_float :: "string \<Rightarrow> rat res" where
  "py_float s = (case float_literal s of Some x \<Rightarrow> Inr x | None \<Rightarrow> Inl ValueError)"

definition isnumeric :: "string \<Rightarrow> bool" where
  "isnumeric s \<longleftrightarrow> s \<noteq> [] \<and> list_all is_digit s"

section \<open>Walltimes (tracker/utils.py)\<close>

text \<open>\<open>int(float(walltime) * 60.0)\<close>.\<close>

definition minutes :: "rat \<Rightarrow> pyval" where
  "minutes x = PInt (trunc (to_double (to_double x * 60)))"

text \<open>The loop over the reversed parts: \<open>seconds += float(value) * (60.0**i)\<close>.\<close>

fun seconds_loop :: "nat \<Rightarrow> rat \<Rightarrow> string list \<Rightarrow> rat res" where
  "seconds_loop i seconds [] = Inr seconds"
| "seconds_loop i seconds (v # vs) =
     rbind (py_float v) (\<lambda>x.
       seconds_loop (Suc i) (to_double (seconds + to_double (x * to_double (60 ^ i)))) vs)"

definition convert_string :: "string \<Rightarrow> pyval res" where
  "convert_string s =
     (if isnumeric s then rbind (py_float s) (\<lambda>x. Inr (minutes x))
      else if CHR '':'' \<in> set s
      then rbind (seconds_loop 0 0 (rev (split_char (CHR '':'') s))) (\<lambda>x. Inr (PFloat x))
      else if s = [] \<or> s = ''inf'' then Inr (PInt 0)
      else Inl ValueError)"

fun convert_walltime_to_seconds :: "pyval \<Rightarrow> pyval res" where
  "convert_walltime_to_seconds (PBool b) = Inr (minutes (if b then 1 else 0))"
| "convert_walltime_to_seconds (PInt i) = Inr (minutes (of_int i))"
| "convert_walltime_to_seconds (PFloat x) = Inr (minutes x)"
| "convert_walltime_to_seconds (PInf neg) = Inl OverflowError"
| "convert_walltime_to_seconds PNan = Inl ValueError"
| "convert_walltime_to_seconds (PStr s) = convert_string s"
| "convert_walltime_to_seconds PNone = Inl TypeError"
| "convert_walltime_to_seconds (PList xs) =
     (if py_in (PStr '':'') xs then Inl AttributeError
      else if xs = [] then Inr (PInt 0) else Inl ValueError)"
| "convert_walltime_to_seconds (PDict d) =
     (if dict_in '':'' d then Inl AttributeError
      else if d = [] then Inr (PInt 0) else Inl ValueError)"

section \<open>Correctness of the conversion\<close>

text \<open>A part of a walltime: a number, possibly padded with zeros to a width.\<close>

definition padded :: "nat \<times> nat \<Rightarrow> string" where
  "padded p = zfill (fst p) (show_nat (snd p))"

lemma padded_digits: "list_all is_digit (padded p)" "padded p \<noteq> []"
  using show_nat_digits [of "snd p"]
  by (auto simp: padded_def zfill_def list_all_iff is_digit_def char_code_def)

lemma digits_int_zeros: "digits_int (replicate k (CHR ''0'') @ ds) = digits_int ds"
  by (induction k) (simp_all add: digits_int_def digit_val_def char_code_def)

lemma digits_int_padded: "digits_int (padded p) = int (snd p)"
  by (simp add: padded_def zfill_def digits_int_zeros digits_int_show_nat)

lemma dropWhile_space_digits: "list_all is_digit ds \<Longrightarrow> dropWhile is_space ds = ds"
  using digit_not_special by (cases ds) auto

lemma strip_digits: "list_all is_digit ds \<Longrightarrow> strip ds = ds"
  by (simp add: strip_def dropWhile_space_digits)

lemma run_ok_digits: "list_all is_digit ds \<Longrightarrow> run_ok a ds \<longleftrightarrow> ds \<noteq> [] \<or> a"
  by (induction ds arbitrary: a) auto

lemma unsigned_float_digits:
  assumes "list_all is_digit ds" and "ds \<noteq> []"
  shows "unsigned_float ds = Some (of_int (digits_int ds))"
proof -
  have "digit_run ds = (ds, [])"
    using assms by (simp add: digit_run_def list_all_iff takeWhile_eq_all_conv)
  moreover have "filter is_digit ds = ds"
    using assms by (simp add: list_all_iff)
  ultimately show ?thesis
    using assms by (simp add: unsigned_float_def exponent_at_def scale10_def decimal_def
        run_digits_def run_ok_digits) (simp add: digits_int_def)
qed

lemma py_float_digits:
  assumes "list_all is_digit ds" and "ds \<noteq> []"
  shows "py_float ds = Inr (to_double (of_int (digits_int ds)))"
proof -
  obtain c cs where c: "ds = c # cs" "is_digit c" using assms by (cases ds) auto
  moreover have "c \<noteq> CHR ''-''" "c \<noteq> CHR ''+''"
    using c by (auto simp: is_digit_def char_code_def)
  ultimately show ?thesis
    using unsigned_float_digits [OF assms] strip_digits [OF assms(1)]
    by (simp add: py_float_def float_literal_def)
qed

lemma py_float_padded: "py_float (padded p) = Inr (to_double (of_nat (snd p)))"
  using py_float_digits [OF padded_digits] by (simp add: digits_int_padded)

lemma to_double_nat: "n < 2 ^ 53 \<Longrightarrow> to_double (of_nat n) = of_nat n"
  using to_double_int [of "int n"] by simp

text \<open>The number a list of sexagesimal parts stands for.\<close>

definition sexagesimal :: "nat list \<Rightarrow> nat" where
  "sexagesimal ns = foldl (\<lambda>a n. 60 * a + n) 0 ns"

fun sexagesimal_rev :: "nat \<Rightarrow> nat list \<Rightarrow> nat" where
  "sexagesimal_rev i [] = 0"
| "sexagesimal_rev i (n # ns) = n * 60 ^ i + sexagesimal_rev (Suc i) ns"

lemma sexagesimal_rev_Suc: "sexagesimal_rev (Suc i) ns = 60 * sexagesimal_rev i ns"
  by (induction ns arbitrary: i) (auto simp: algebra_simps)

lemma sexagesimal_rev_eq: "sexagesimal_rev 0 (rev ns) = sexagesimal ns"
proof (induction ns rule: rev_induct)
  case Nil
  then show ?case by (simp add: sexagesimal_def)
next
  case (snoc n ns)
  then show ?case by (simp add: sexagesimal_def sexagesimal_rev_Suc)
qed

text \<open>Nine parts at most: \<open>60^8\<close> is the largest power of 60 among the exact doubles.\<close>

lemma power60_bound: "i \<le> 8 \<Longrightarrow> (60::nat) ^ i < 2 ^ 53"
  using power_increasing [of i 8 "60::nat"] by simp

lemma seconds_loop_exact:
  assumes "acc + sexagesimal_rev i (map snd ps) < 2 ^ 53" and "i + length ps \<le> 9"
  shows "seconds_loop i (of_nat acc) (map padded ps) =
    Inr (of_nat (acc + sexagesimal_rev i (map snd ps)))"
  using assms
proof (induction ps arbitrary: acc i)
  case Nil
  then show ?case by simp
next
  case (Cons p ps)
  define n where "n = snd p"
  have sum: "acc + n * 60 ^ i < 2 ^ 53" using Cons.prems(1) by (simp add: n_def)
  have n: "n < 2 ^ 53"
  proof -
    have "n * 1 \<le> n * 60 ^ i" by (rule mult_le_mono2) simp
    with sum show ?thesis by linarith
  qed
  have pw: "to_double (60 ^ i) = 60 ^ i"
    using to_double_nat [OF power60_bound, of i] Cons.prems(2) by simp
  have nn: "to_double (of_nat n) = of_nat n"
    by (rule to_double_nat [OF n])
  have pr: "to_double (of_nat n * 60 ^ i) = of_nat n * 60 ^ i"
    using to_double_nat [of "n * 60 ^ i"] sum by simp
  have s: "to_double (of_nat acc + of_nat n * 60 ^ i) = of_nat (acc + n * 60 ^ i)"
    using to_double_nat [of "acc + n * 60 ^ i"] sum by simp
  have "seconds_loop i (of_nat acc) (map padded (p # ps))
      = seconds_loop (Suc i) (of_nat (acc + n * 60 ^ i)) (map padded ps)"
    by (simp add: py_float_padded n_def [symmetric] nn pw pr s del: of_nat_add)
  also have "\<dots> = Inr (of_nat (acc + n * 60 ^ i + sexagesimal_rev (Suc i) (map snd ps)))"
    using Cons.prems by (intro Cons.IH) (simp_all add: n_def)
  finally show ?case by (simp add: add.assoc n_def)
qed

lemma colon_not_digit: "list_all is_digit ds \<Longrightarrow> CHR '':'' \<notin> set ds"
  by (auto simp: list_all_iff is_digit_def char_code_def)

lemma split_join_digits:
  "ws \<noteq> [] \<Longrightarrow> \<forall>w \<in> set ws. CHR '':'' \<notin> set w \<Longrightarrow>
   split_char (CHR '':'') (join_char (CHR '':'') ws) = ws"
proof (induction ws)
  case Nil
  then show ?case by simp
next
  case (Cons w ws)
  then show ?case
    by (cases ws) (simp_all add: split_char_no_sep split_char_append)
qed

lemma join_has_separator: "2 \<le> length ws \<Longrightarrow> c \<in> set (join_char c ws)"
  by (cases ws; cases "tl ws") auto

text \<open>A walltime written as two to nine colon-separated numbers, each padded with zeros or
  not, is converted to its exact number of seconds as long as that number is below \<open>2^53\<close>:
  none of the floating-point steps of the loop rounds.\<close>

theorem walltime_colon_exact:
  assumes "2 \<le> length ps" and "length ps \<le> 9" and "sexagesimal (map snd ps) < 2 ^ 53"
  shows "convert_walltime_to_seconds (PStr (join_char (CHR '':'') (map padded ps))) =
    Inr (PFloat (of_nat (sexagesimal (map snd ps))))"
proof -
  let ?s = "join_char (CHR '':'') (map padded ps)"
  have colon: "CHR '':'' \<in> set ?s" using assms(1) by (simp add: join_has_separator)
  then have "\<not> isnumeric ?s" using colon_not_digit by (auto simp: isnumeric_def)
  moreover have "split_char (CHR '':'') ?s = map padded ps"
    using assms(1) padded_digits(1) colon_not_digit by (intro split_join_digits) auto
  moreover have "seconds_loop 0 0 (map padded (rev ps)) = Inr (of_nat (sexagesimal (map snd ps)))"
    using seconds_loop_exact [of 0 0 "rev ps"] assms(2,3) sexagesimal_rev_eq [of "map snd ps"]
    by (simp add: rev_map)
  ultimately show ?thesis
    using colon by (simp add: convert_string_def rev_map)
qed

theorem walltime_colon_exact_witness:
  "convert_walltime_to_seconds (PStr ''1:05:00'') = Inr (PFloat 3900)"
proof -
  have "join_char (CHR '':'') (map padded [(0, 1), (2, 5), (2, 0)]) = ''1:05:00''"
    by code_simp
  then show ?thesis
    using walltime_colon_exact [of "[(0, 1), (2, 5), (2, 0)]"] by (simp add: sexagesimal_def)
qed

text \<open>A walltime given as a number, or as the digits of one, counts minutes: below
  \<open>2^53\<close> seconds the result is exactly sixty times the number, as an integer; an absent
  walltime (\<open>step.walltime or 0\<close>) is zero seconds.\<close>

theorem walltime_minutes:
  assumes "60 * n < 2 ^ 53"
  shows "convert_walltime_to_seconds (PInt (int n)) = Inr (PInt (60 * int n)) \<and>
    convert_walltime_to_seconds (PStr (padded (w, n))) = Inr (PInt (60 * int n)) \<and>
    convert_walltime_to_seconds (py_or PNone (PInt 0)) = Inr (PInt 0)"
proof -
  have n: "to_double (of_nat n) = of_nat n" using assms by (intro to_double_nat) simp
  have n60: "to_double (of_nat n * 60) = of_nat (60 * n)"
    using to_double_nat [OF assms] by (simp add: mult.commute)
  have fl: "\<lfloor>(60 * of_nat n :: rat)\<rfloor> = 60 * int n"
    using floor_of_int [of "60 * int n"] by simp
  have m: "minutes (of_nat n) = PInt (60 * int n)"
    by (simp add: minutes_def n n60 trunc_def fl)
  have z: "minutes 0 = PInt 0"
    by (simp add: minutes_def to_double_def trunc_def)
  have "isnumeric (padded (w, n))" using padded_digits by (simp add: isnumeric_def)
  then show ?thesis
    using m z n by (simp add: convert_string_def py_float_padded py_or_def)
qed

theorem walltime_minutes_witness:
  "convert_walltime_to_seconds (PInt 90) = Inr (PInt 5400)"
  using walltime_minutes [of 90] by simp

end
