(* ===== verification/Tracker_Interface.thy ===== *)
theory Tracker_Interface
  imports Config TrackerUtils
begin

text \<open>
  What the state machines and the manager see of a tracker module: the job objects it lists
  and streams (\<open>tracker/job.py\<close>), the custom metrics it delivers, and the operations of its
  \<open>Tracker\<close> class. The operations act on a world \<open>'w\<close>: the cluster behind the scheduler and
  everything else outside the process. Both schedulers provide this interface.
\<close>

section \<open>Jobs as the manager sees them (tracker/job.py)\<close>

text \<open>
  The properties and methods of a job object, read while one event is handled. The base class
  answers \<open>False\<close> for \<open>always_succeed\<close> and nothing for \<open>duration\<close>.
\<close>

record wjob =
  jobid :: "string option"
  step_name :: "string option"
  always_succeed :: bool
  is_active :: bool
  is_completed :: bool
  job_failed :: bool
  job_succeeded :: bool
  duration :: "rat option"

definition base_always_succeed :: bool where
  "base_always_succeed = False"

definition base_duration :: "rat option" where
  "base_duration = None"

text \<open>A string formatted into an f-string; \<open>None\<close> prints as its name.\<close>

definition fmt :: "string option \<Rightarrow> string" where
  "fmt s = (case s of None \<Rightarrow> ''None'' | Some t \<Rightarrow> t)"

definition job_label :: "wjob \<Rightarrow> string" where
  "job_label j = fmt (jobid j) @ ''_'' @ fmt (step_name j)"

text \<open>A property that may be \<open>None\<close> or empty, as a condition.\<close>

definition str_truthy :: "string option \<Rightarrow> bool" where
  "str_truthy s \<longleftrightarrow> s \<noteq> None \<and> s \<noteq> Some []"

section \<open>Jobs by status\<close>

datatype job_class = Success | Failed | Running | Queued | Unknown

record 'j by_status =
  success :: "'j list"
  failed :: "'j list"
  running :: "'j list"
  queued :: "'j list"
  unknown :: "'j list"

definition no_jobs :: "'j by_status" where
  "no_jobs = \<lparr>success = [], failed = [], running = [], queued = [], unknown = []\<rparr>"

fun add_job :: "job_class \<Rightarrow> 'j \<Rightarrow> 'j by_status \<Rightarrow> 'j by_status" where
  "add_job Success j s = s\<lparr>success := success s @ [j]\<rparr>"
| "add_job Failed j s = s\<lparr>failed := failed s @ [j]\<rparr>"
| "add_job Running j s = s\<lparr>running := running s @ [j]\<rparr>"
| "add_job Queued j s = s\<lparr>queued := queued s @ [j]\<rparr>"
| "add_job Unknown j s = s\<lparr>unknown := unknown s @ [j]\<rparr>"

fun jobs_of :: "job_class \<Rightarrow> 'j by_status \<Rightarrow> 'j list" where
  "jobs_of Success s = success s"
| "jobs_of Failed s = failed s"
| "jobs_of Running s = running s"
| "jobs_of Queued s = queued s"
| "jobs_of Unknown s = unknown s"

lemma jobs_of_add: "jobs_of c (add_job c' j s) = jobs_of c s @ (if c = c' then [j] else [])"
  by (cases c; cases c') simp_all

lemma jobs_of_no_jobs [simp]: "jobs_of c no_jobs = []"
  by (cases c) (simp_all add: no_jobs_def)

text \<open>
  Both schedulers sort the listed jobs with one loop whose body decides the class of a job. The
  interface: a classification and a wrapper; the loop is \<open>sort_jobs\<close>.
\<close>

definition sort_jobs :: "('r \<Rightarrow> job_class) \<Rightarrow> ('r \<Rightarrow> 'j) \<Rightarrow> 'r list \<Rightarrow> 'j by_status" where
  "sort_jobs classify wrap raw = foldl (\<lambda>s r. add_job (classify r) (wrap r) s) no_jobs raw"

lemma sort_jobs_foldl:
  "jobs_of c (foldl (\<lambda>s r. add_job (classify r) (wrap r) s) s raw) =
   jobs_of c s @ map wrap (filter (\<lambda>r. classify r = c) raw)"
  by (induction raw arbitrary: s) (auto simp: jobs_of_add)

lemma jobs_of_sort: "jobs_of c (sort_jobs classify wrap raw) = map wrap (filter (\<lambda>r. classify r = c) raw)"
  by (simp add: sort_jobs_def sort_jobs_foldl)

lemma sort_jobs_fields:
  "success (sort_jobs f w raw) = map w (filter (\<lambda>r. f r = Success) raw)"
  "failed (sort_jobs f w raw) = map w (filter (\<lambda>r. f r = Failed) raw)"
  "running (sort_jobs f w raw) = map w (filter (\<lambda>r. f r = Running) raw)"
  "queued (sort_jobs f w raw) = map w (filter (\<lambda>r. f r = Queued) raw)"
  "unknown (sort_jobs f w raw) = map w (filter (\<lambda>r. f r = Unknown) raw)"
  using jobs_of_sort [of Success f w raw] jobs_of_sort [of Failed f w raw]
    jobs_of_sort [of Running f w raw] jobs_of_sort [of Queued f w raw]
    jobs_of_sort [of Unknown f w raw]
  by simp_all

text \<open>Every listed job is in exactly one of the lists.\<close>

lemma sort_jobs_length:
  "length (success (sort_jobs f w raw)) + length (failed (sort_jobs f w raw)) +
   length (running (sort_jobs f w raw)) + length (queued (sort_jobs f w raw)) +
   length (unknown (sort_jobs f w raw)) = length raw"
proof (induction raw)
  case Nil
  then show ?case by (simp add: sort_jobs_fields)
next
  case (Cons r raw)
  then show ?case by (cases "f r") (simp_all add: sort_jobs_fields)
qed

section \<open>The contract of a job object\<close>

text \<open>
  The manager's decisions on a finished job rest on two laws of its status methods: the job
  does not count as both failed and succeeded, and a finished job counts as one of the two.
  A scheduler whose methods also look at completion satisfies the stronger contract, in which
  a job that is not finished counts as neither.
\<close>

locale job_status =
  fixes completed :: "'j \<Rightarrow> bool"
    and failing :: "'j \<Rightarrow> bool"
    and succeeding :: "'j \<Rightarrow> bool"
  assumes exclusive: "\<not> (failing j \<and> succeeding j)"
    and decided: "completed j \<Longrightarrow> failing j \<or> succeeding j"
begin

lemma succeeded_not_failed: "succeeding j \<Longrightarrow> \<not> failing j"
  using exclusive by blast

lemma completed_iff_not_failed: "completed j \<Longrightarrow> succeeding j \<longleftrightarrow> \<not> failing j"
  using exclusive decided by blast

end

locale final_job_status = job_status +
  assumes failed_final: "failing j \<Longrightarrow> completed j"
    and succeeded_final: "succeeding j \<Longrightarrow> completed j"
begin

lemma completed_iff: "completed j \<longleftrightarrow> failing j \<or> succeeding j"
  using decided failed_final succeeded_final by blast

lemma not_completed_neither: "\<not> completed j \<Longrightarrow> \<not> failing j \<and> \<not> succeeding j"
  using completed_iff by blast

end

section \<open>The operations of a tracker\<close>

record custom_metric =
  cm_job_name :: string
  cm_step_name :: string
  cm_metrics :: pyval

text \<open>
  \<open>op_new\<close> is the constructor \<open>Tracker(state_name, workflow)\<close>, \<open>op_submit\<close> is
  \<open>submit_job(jobid, repeat)\<close>, \<open>op_cleanup\<close> is \<open>cleanup(jobid)\<close>; \<open>op_save_log\<close> gives the
  outcome of \<open>save_log(job)\<close> together with the metrics it appended to the tracker, which stay
  when it raises; \<open>op_list\<close> is the module's \<open>list_jobs_by_status()\<close>. A tracker holds its job
  description by reference, so every operation sees the workflow as it is when it is called.
  The job identifier is that of the job object the machine was made for, \<open>None\<close> when it had none.
\<close>

record 'w tracker_ops =
  op_new :: "workflow \<Rightarrow> string \<Rightarrow> ('w, unit) act"
  op_submit :: "workflow \<Rightarrow> string \<Rightarrow> string option \<Rightarrow> bool \<Rightarrow> ('w, job_submission) act"
  op_cleanup :: "workflow \<Rightarrow> string \<Rightarrow> string option \<Rightarrow> ('w, unit) act"
  op_save_log :: "workflow \<Rightarrow> string \<Rightarrow> wjob \<Rightarrow> 'w \<Rightarrow> (unit res \<times> custom_metric list) \<times> 'w"
  op_list :: "('w, wjob by_status) act"

text \<open>
  An environment that remembers the submissions it was asked for and answers each with an
  arbitrary function of that history: every deterministic scheduler behaves like one of these,
  so a statement about the submissions made holds for all of them.
\<close>

record submission_call =
  sc_step :: string
  sc_jobid :: "string option"
  sc_repeat :: bool

definition recording_ops ::
  "(submission_call list \<Rightarrow> submission_call \<Rightarrow> job_submission res) \<Rightarrow>
   (submission_call list \<Rightarrow> wjob by_status res) \<Rightarrow>
   (submission_call list \<Rightarrow> string \<Rightarrow> custom_metric list) \<Rightarrow> submission_call list tracker_ops" where
  "recording_ops answer listing logs =
     \<lparr>op_new = (\<lambda>w n. ret ()),
      op_submit = (\<lambda>w n j rep h.
        let c = \<lparr>sc_step = n, sc_jobid = j, sc_repeat = rep\<rparr> in (answer h c, h @ [c])),
      op_cleanup = (\<lambda>w n j. ret ()),
      op_save_log = (\<lambda>w n job h. ((Inr (), logs h n), h)),
      op_list = (\<lambda>h. (listing h, h))\<rparr>"

section \<open>The empty watcher (tracker/watcher.py)\<close>

text \<open>
  A tracker module without a watcher of its own, which is that of Flux, gets one that does
  nothing; its queue of metrics stays empty.
\<close>

definition empty_watcher_metrics :: "custom_metric list" where
  "empty_watcher_metrics = []"

definition empty_watcher_start :: "('w, unit) act" where
  "empty_watcher_start = ret ()"

definition empty_watcher_stop :: "('w, unit) act" where
  "empty_watcher_stop = ret ()"

definition empty_watcher_save :: "string \<Rightarrow> ('w, unit) act" where
  "empty_watcher_save outdir = ret ()"

definition empty_watcher_results :: "string \<Rightarrow> ('w, unit) act" where
  "empty_watcher_results outdir = ret ()"

end
