(* ===== verification/Machine.thy ===== *)
theory Machine
  imports Tracker_Interface
begin

text \<open>
  The state machine of one job sequence: \<open>machine/machine.py\<close>. \<open>new_state_machine\<close> builds,
  from the steps of the workflow, the states, the guarded transitions of the event
  \<open>change\<close> and the flags the guards read; an instance enters its states through
  \<open>on_enter_start\<close> and \<open>on_change\<close>. The \<open>statemachine\<close> package that runs the transitions is
  not part of the repository: what the code uses of it is the record \<open>sm_lib\<close>.
\<close>

section \<open>Definitions of machines\<close>

record transition =
  t_source :: string
  t_target :: string
  t_cond :: "string option"

text \<open>
  A machine class: the states in the order of their declaration, the transitions of
  \<open>change\<close> in the order they were added, and the attributes of the class that are flags.
\<close>

record machine_class =
  c_states :: "string list"
  c_trans :: "transition list"
  c_attrs :: "string \<rightharpoonup> bool"
  c_jobid :: "string option"

definition success_flag :: "string \<Rightarrow> string" where
  "success_flag s = s @ ''_success''"

definition failure_flag :: "string \<Rightarrow> string" where
  "failure_flag s = s @ ''_failure''"

definition repeat_flag :: "string \<Rightarrow> string" where
  "repeat_flag s = s @ ''_repeat''"

text \<open>\<open>states[job] = ...\<close>: a dictionary assignment keeps the place of a present key.\<close>

definition add_state :: "string \<Rightarrow> string list \<Rightarrow> string list" where
  "add_state s ss = (if s \<in> set ss then ss else ss @ [s])"

text \<open>One iteration of the loop over \<open>config.jobs\<close>; \<open>prev\<close> is \<open>None\<close> in the first.\<close>

definition add_step :: "string option \<Rightarrow> string \<Rightarrow> machine_class \<Rightarrow> machine_class" where
  "add_step prev job c =
     (let c1 = c\<lparr>c_states := add_state job (c_states c)\<rparr>;
          c2 = (case prev of
             Some l \<Rightarrow> c1\<lparr>c_attrs := (c_attrs c1)(success_flag l \<mapsto> False, failure_flag l \<mapsto> False),
                          c_trans := c_trans c1 @ [\<lparr>t_source = l, t_target = job, t_cond = Some (success_flag l)\<rparr>]\<rparr>
           | None \<Rightarrow> c1\<lparr>c_attrs := (c_attrs c1)(success_flag job \<mapsto> False, failure_flag job \<mapsto> False),
                          c_trans := c_trans c1 @ [\<lparr>t_source = ''start'', t_target = job, t_cond = None\<rparr>]\<rparr>)
      in c2\<lparr>c_attrs := (c_attrs c2)(repeat_flag job \<mapsto> False),
            c_trans := c_trans c2 @ [\<lparr>t_source = job, t_target = job, t_cond = Some (repeat_flag job)\<rparr>]\<rparr>)"

fun add_steps :: "string option \<Rightarrow> string list \<Rightarrow> machine_class \<Rightarrow> machine_class" where
  "add_steps prev [] c = c"
| "add_steps prev (job # rest) c = add_steps (Some job) rest (add_step prev job c)"

definition empty_class :: "string option \<Rightarrow> machine_class" where
  "empty_class jid = \<lparr>c_states = [''start'', ''complete''], c_trans = [],
     c_attrs = [''is_complete'' \<mapsto> False], c_jobid = jid\<rparr>"

text \<open>After the loop: the final flag and the transition from the last step to \<open>complete\<close>.\<close>

definition finish_class :: "string \<Rightarrow> machine_class \<Rightarrow> machine_class" where
  "finish_class job c =
     c\<lparr>c_states := add_state ''complete'' (c_states c),
       c_trans := c_trans c @ [\<lparr>t_source = job, t_target = ''complete'', t_cond = Some (success_flag job)\<rparr>],
       c_attrs := (c_attrs c)(''simulation_failed'' \<mapsto> False, success_flag job \<mapsto> False,
                              failure_flag job \<mapsto> False)\<rparr>"

text \<open>\<open>new_state_machine\<close>; with no step the loop variable is unbound after the loop.\<close>

definition new_state_machine :: "workflow \<Rightarrow> string option \<Rightarrow> machine_class res" where
  "new_state_machine w jid =
     (let steps = dict_keys (jobs w) in
      if steps = [] then Inl (OtherError ''UnboundLocalError'')
      else Inr (finish_class (last steps) (add_steps None steps (empty_class jid))))"

section \<open>The state machine package\<close>

text \<open>
  \<open>lib_pick ts s flag\<close>: the transition taken for the event in state \<open>s\<close> when the guard
  attributes have the values \<open>flag\<close>, or none. \<open>lib_same i n\<close>: whether the element of
  \<open>machine.states\<close> for the state with identifier \<open>i\<close> compares equal to the step name \<open>n\<close> of a job;
  \<open>lib_text i\<close>: that element inside an f-string. The elements come in the order of
  declaration, and entering a state runs its \<open>on_enter\<close> method after it became current.
\<close>

record sm_lib =
  lib_pick :: "transition list \<Rightarrow> string \<Rightarrow> (string \<Rightarrow> bool) \<Rightarrow> transition option"
  lib_same :: "string \<Rightarrow> string option \<Rightarrow> bool"
  lib_text :: "string \<Rightarrow> string"

definition enabled :: "string \<Rightarrow> (string \<Rightarrow> bool) \<Rightarrow> transition \<Rightarrow> bool" where
  "enabled s flag t \<longleftrightarrow> t_source t = s \<and> (case t_cond t of None \<Rightarrow> True | Some c \<Rightarrow> flag c)"

text \<open>
  The documented choice of the package: transitions are tried in the order of their
  declaration and the first whose guard holds is taken.
\<close>

locale transition_choice =
  fixes pick :: "transition list \<Rightarrow> string \<Rightarrow> (string \<Rightarrow> bool) \<Rightarrow> transition option"
  assumes pick_Some: "pick ts s flag = Some t \<Longrightarrow>
      enabled s flag t \<and> (\<exists>us vs. ts = us @ t # vs \<and> (\<forall>u \<in> set us. \<not> enabled s flag u))"
    and pick_None: "pick ts s flag = None \<Longrightarrow> \<forall>t \<in> set ts. \<not> enabled s flag t"
begin

lemma pick_Nil: "pick [] s flag = None"
  using pick_Some by (cases "pick [] s flag") fastforce+

lemma pick_find: "pick ts s flag = find (enabled s flag) ts"
proof (cases "pick ts s flag")
  case None
  then have "\<forall>t \<in> set ts. \<not> enabled s flag t" by (rule pick_None)
  then have "find (enabled s flag) ts = None" by (simp add: find_None_iff)
  with None show ?thesis by simp
next
  case (Some t)
  then obtain us vs where ts: "ts = us @ t # vs" and us: "\<forall>u \<in> set us. \<not> enabled s flag u"
    and t: "enabled s flag t"
    using pick_Some by blast
  from us have "find (enabled s flag) (us @ t # vs) = Some t"
    using t by (induction us) auto
  with Some ts show ?thesis by simp
qed

end

definition first_enabled :: "transition list \<Rightarrow> string \<Rightarrow> (string \<Rightarrow> bool) \<Rightarrow> transition option" where
  "first_enabled ts s flag = find (enabled s flag) ts"

interpretation choice: transition_choice first_enabled
proof unfold_locales
  fix ts s flag t
  assume "first_enabled ts s flag = Some t"
  then show "enabled s flag t \<and> (\<exists>us vs. ts = us @ t # vs \<and> (\<forall>u \<in> set us. \<not> enabled s flag u))"
    unfolding first_enabled_def
  proof (induction ts)
    case Nil
    then show ?case by simp
  next
    case (Cons u ts)
    show ?case
    proof (cases "enabled s flag u")
      case True
      with Cons.prems show ?thesis by (intro conjI exI [of _ "[]"] exI [of _ ts]) simp_all
    next
      case False
      with Cons obtain us vs where "enabled s flag t" "ts = us @ t # vs"
        "\<forall>u \<in> set us. \<not> enabled s flag u"
        by auto
      with False show ?thesis by (intro conjI exI [of _ "u # us"] exI [of _ vs]) simp_all
    qed
  qed
next
  fix ts s flag
  assume "first_enabled ts s flag = None"
  then show "\<forall>t \<in> set ts. \<not> enabled s flag t" by (simp add: first_enabled_def find_None_iff)
qed

section \<open>Instances\<close>

text \<open>
  An instance: the current state, the flags (instance attributes over the class's), and the
  trackers with the metrics each has collected; \<open>None\<close> while the attribute does not exist.
\<close>

record machine =
  m_jobid :: "string option"
  m_current :: string
  m_attrs :: "string \<rightharpoonup> bool"
  m_trackers :: "(string, custom_metric list) dict option"
  m_states :: "string list"
  m_trans :: "transition list"

text \<open>\<open>getattr(self, name, False) is True\<close>.\<close>

definition flag :: "machine \<Rightarrow> string \<Rightarrow> bool" where
  "flag m a \<longleftrightarrow> m_attrs m a = Some True"

definition set_flag :: "string \<Rightarrow> bool \<Rightarrow> machine \<Rightarrow> machine" where
  "set_flag a b m = m\<lparr>m_attrs := (m_attrs m)(a \<mapsto> b)\<rparr>"

text \<open>\<open>state_name or self.current_state.id\<close>.\<close>

definition or_current :: "string option \<Rightarrow> machine \<Rightarrow> string" where
  "or_current s m = (case s of None \<Rightarrow> m_current m | Some n \<Rightarrow> if n = [] then m_current m else n)"

definition is_running :: "string option \<Rightarrow> machine \<Rightarrow> bool" where
  "is_running s m \<longleftrightarrow> or_current s m = m_current m"

definition is_failed :: "string option \<Rightarrow> machine \<Rightarrow> bool" where
  "is_failed s m \<longleftrightarrow> flag m (failure_flag (or_current s m))"

definition is_succeeded :: "string option \<Rightarrow> machine \<Rightarrow> bool" where
  "is_succeeded s m \<longleftrightarrow> flag m (success_flag (or_current s m))"

definition is_repeating :: "machine \<Rightarrow> bool" where
  "is_repeating m \<longleftrightarrow> flag m (repeat_flag (m_current m))"

text \<open>\<open>repeat\<close>.\<close>

definition mark_repeat :: "string \<Rightarrow> machine \<Rightarrow> machine" where
  "mark_repeat n = set_flag (repeat_flag n) True"

definition mark_succeeded :: "string option \<Rightarrow> machine \<Rightarrow> machine" where
  "mark_succeeded s m =
     (let n = or_current s m in
      if flag m (repeat_flag n) then m else set_flag (success_flag n) True m)"

definition unmark_repeatable :: "string \<Rightarrow> machine \<Rightarrow> machine" where
  "unmark_repeatable n = set_flag (repeat_flag n) False"

definition mark_failed :: "string option \<Rightarrow> machine \<Rightarrow> machine" where
  "mark_failed s m = set_flag (failure_flag (or_current s m)) True m"

text \<open>\<open>mark_running\<close>: the loop over \<open>self.states\<close>.\<close>

fun mark_running_loop :: "sm_lib \<Rightarrow> string option \<Rightarrow> string list \<Rightarrow> machine \<Rightarrow> machine" where
  "mark_running_loop L n [] m = m"
| "mark_running_loop L n (s # ss) m =
     (if lib_same L s n then m
      else mark_running_loop L n ss (mark_succeeded (Some (lib_text L s)) m))"

definition mark_running :: "sm_lib \<Rightarrow> string option \<Rightarrow> machine \<Rightarrow> machine" where
  "mark_running L n m = mark_running_loop L n (m_states m) m"

section \<open>Effects of an instance\<close>

text \<open>
  The methods that reach a tracker work on the instance together with the world. The workflow
  is read, never written, by a machine.
\<close>

type_synonym ('w, 'a) mact = "(machine \<times> 'w, 'a) act"

definition on_machine :: "(machine \<Rightarrow> machine) \<Rightarrow> ('w, unit) mact" where
  "on_machine f = modify (\<lambda>(m, w). (f m, w))"

definition on_world :: "('w, 'a) act \<Rightarrow> ('w, 'a) mact" where
  "on_world a s = (case s of (m, w) \<Rightarrow> (case a w of (r, w') \<Rightarrow> (r, (m, w'))))"

definition machine_get :: "(machine \<Rightarrow> 'a) \<Rightarrow> ('w, 'a) mact" where
  "machine_get f = reads (\<lambda>(m, w). f m)"

text \<open>\<open>init_trackers\<close> makes one tracker per state that is a step.\<close>

definition step_states :: "string list \<Rightarrow> string list" where
  "step_states ss = filter (\<lambda>s. s \<notin> {''start'', ''complete''}) ss"

definition add_tracker :: "string \<Rightarrow> machine \<Rightarrow> machine" where
  "add_tracker n m = m\<lparr>m_trackers := map_option (dict_set n []) (m_trackers m)\<rparr>"

definition init_trackers :: "'w tracker_ops \<Rightarrow> workflow \<Rightarrow> ('w, unit) mact" where
  "init_trackers ops wfl =
     andthen (on_machine (\<lambda>m. m\<lparr>m_trackers := Some []\<rparr>))
       (bind (machine_get m_states) (\<lambda>ss.
          for_each (step_states ss) (\<lambda>n.
            andthen (on_world (op_new ops wfl n)) (on_machine (add_tracker n)))))"

definition on_enter_start :: "'w tracker_ops \<Rightarrow> workflow \<Rightarrow> ('w, unit) mact" where
  "on_enter_start ops wfl =
     bind (machine_get m_trackers) (\<lambda>t. if t = None then init_trackers ops wfl else ret ())"

text \<open>Instantiating the class: the instance enters its initial state \<open>start\<close>.\<close>

definition fresh_machine :: "machine_class \<Rightarrow> machine" where
  "fresh_machine c = \<lparr>m_jobid = c_jobid c, m_current = ''start'', m_attrs = c_attrs c,
     m_trackers = None, m_states = c_states c, m_trans = c_trans c\<rparr>"

definition create_state_machine_job :: "'w tracker_ops \<Rightarrow> workflow \<Rightarrow> machine_class \<Rightarrow> ('w, machine) act" where
  "create_state_machine_job ops wfl c w =
     (case on_enter_start ops wfl (fresh_machine c, w) of
        (Inl e, (m, w')) \<Rightarrow> (Inl e, w')
      | (Inr _, (m, w')) \<Rightarrow> (Inr m, w'))"

text \<open>\<open>self.trackers[name]\<close>.\<close>

definition tracker_at :: "string \<Rightarrow> machine \<Rightarrow> custom_metric list res" where
  "tracker_at n m = (case m_trackers m of None \<Rightarrow> Inl AttributeError | Some d \<Rightarrow> dict_at d n)"

text \<open>\<open>on_change\<close>, the method run on entering a step.\<close>

definition submit_current :: "'w tracker_ops \<Rightarrow> workflow \<Rightarrow> ('w, unit) mact" where
  "submit_current ops wfl =
     bind (machine_get (\<lambda>m. (m_current m, m_jobid m, tracker_at (m_current m) m,
         m_attrs m (repeat_flag (m_current m)))))
       (\<lambda>(n, jid, t, rep).
          bind (lift t) (\<lambda>_.
          (case rep of
             None \<Rightarrow> throw AttributeError
           | Some False \<Rightarrow> bind (on_world (op_submit ops wfl n jid False)) (\<lambda>_. ret ())
           | Some True \<Rightarrow> bind (on_world (op_submit ops wfl n jid True))
               (\<lambda>_. on_machine (unmark_repeatable n)))))"

definition on_change :: "'w tracker_ops \<Rightarrow> workflow \<Rightarrow> ('w, unit) mact" where
  "on_change ops wfl =
     bind (machine_get id) (\<lambda>m.
       if is_succeeded None m then ret ()
       else if is_failed None m then ret ()
       else if m_current m = ''complete'' then on_machine (set_flag ''is_complete'' True)
       else submit_current ops wfl)"

text \<open>The event \<open>change\<close>: entering a step runs \<open>on_change\<close>, no other state has a method for it.\<close>

definition change :: "sm_lib \<Rightarrow> 'w tracker_ops \<Rightarrow> workflow \<Rightarrow> ('w, unit) mact" where
  "change L ops wfl =
     bind (machine_get (\<lambda>m. (lib_pick L (m_trans m) (m_current m) (flag m), step_states (m_states m))))
       (\<lambda>(t, steps). case t of
          None \<Rightarrow> throw TransitionNotAllowed
        | Some t \<Rightarrow> andthen (on_machine (\<lambda>m. m\<lparr>m_current := t_target t\<rparr>))
            (if t_target t \<in> set steps then on_change ops wfl else ret ()))"

text \<open>\<open>next_step_config\<close> calls a method the workflow class does not have.\<close>

definition next_step_config :: "workflow \<Rightarrow> string \<Rightarrow> pyval res" where
  "next_step_config wfl current =
     (if current = ''complete'' \<or> current = ''start''
      then rbind (first_step wfl) (\<lambda>n. rbind (string_of n) (config_for_step wfl))
      else Inl AttributeError)"

text \<open>\<open>post_completion\<close>: whatever saving the log raises is dropped, the metrics stay.\<close>

definition push_metrics :: "string \<Rightarrow> custom_metric list \<Rightarrow> machine \<Rightarrow> machine" where
  "push_metrics n ms m =
     m\<lparr>m_trackers := map_option (\<lambda>d. case dict_get d n of
         None \<Rightarrow> d | Some l \<Rightarrow> dict_set n (l @ ms) d) (m_trackers m)\<rparr>"

definition post_completion :: "'w tracker_ops \<Rightarrow> workflow \<Rightarrow> wjob \<Rightarrow> ('w, unit) mact" where
  "post_completion ops wfl j =
     attempt
       (bind (machine_get (\<lambda>m. (m_current m, tracker_at (m_current m) m))) (\<lambda>(n, t).
          bind (lift t) (\<lambda>_. (\<lambda>(m, w).
            (case op_save_log ops wfl n j w of
               ((r, ms), w') \<Rightarrow> (r, (push_metrics n ms m, w')))))))
       (\<lambda>_. ret ())"

text \<open>\<open>metrics\<close> pops everything the trackers have collected, in the order of the trackers.\<close>

definition metrics :: "('w, custom_metric list) mact" where
  "metrics = (\<lambda>(m, w). case m_trackers m of
      None \<Rightarrow> (Inl AttributeError, (m, w))
    | Some d \<Rightarrow> (Inr (concat (map snd d)),
        (m\<lparr>m_trackers := Some (map (\<lambda>(n, _). (n, [])) d)\<rparr>, w)))"

definition cleanup :: "'w tracker_ops \<Rightarrow> workflow \<Rightarrow> ('w, unit) mact" where
  "cleanup ops wfl =
     bind (machine_get (\<lambda>m. (m_trackers m, m_jobid m))) (\<lambda>(t, jid).
       case t of None \<Rightarrow> throw AttributeError
       | Some d \<Rightarrow> for_each (dict_keys d) (\<lambda>n.
           attempt (on_world (op_cleanup ops wfl n jid)) (\<lambda>_. ret ())))"

end
