(* ===== verification/Metrics.thy ===== *)
theory Metrics
  imports Config
begin

text \<open>
  The metrics of a workflow: \<open>manager/metrics.py\<close>. A store maps a model name, a step and a key
  to a streaming statistic. The statistics belong to the package \<open>river\<close>, which is not part
  of the repository: a statistic is its model name with the values it has been updated with, in
  order, and the record \<open>stat_lib\<close> says for such a history how an update ends and what \<open>get\<close>
  gives. The file shows which histories every operation extends.
\<close>

section \<open>Statistics\<close>

record stat =
  st_model :: string
  st_seen :: "pyval list"

record stat_lib =
  sl_update :: "string \<Rightarrow> pyval list \<Rightarrow> pyval \<Rightarrow> unit res"
  sl_get :: "string \<Rightarrow> pyval list \<Rightarrow> pyval res"

type_synonym metrics_store = "(string, (string, (string, stat) dict) dict) dict"

definition model_inits :: "string list" where
  "model_inits = [''variance'', ''mean'', ''iqr'', ''max'', ''min'', ''mad'']"

definition new_metrics :: metrics_store where
  "new_metrics = map (\<lambda>n. (n, [])) model_inits @ [(''count'', [])]"

section \<open>Recording\<close>

definition or_global :: "string option \<Rightarrow> string" where
  "or_global step = (case step of None \<Rightarrow> ''global'' | Some n \<Rightarrow> if n = [] then ''global'' else n)"

text \<open>
  Updating one statistic: a missing step and a missing key are added first. \<open>makers\<close> are the
  models a missing statistic can be made for; the update itself may raise, after the value
  reached the statistic.
\<close>

definition update_stat :: "stat_lib \<Rightarrow> string list \<Rightarrow> string \<Rightarrow> string \<Rightarrow> string \<Rightarrow> pyval \<Rightarrow> (metrics_store, unit) act" where
  "update_stat lib makers model step key v ms =
     (case dict_get ms model of
        None \<Rightarrow> (Inl (KeyError model), ms)
      | Some steps0 \<Rightarrow>
          let steps = (if dict_in step steps0 then steps0 else dict_set step [] steps0);
              keys = the (dict_get steps step)
          in if \<not> dict_in key keys \<and> model \<notin> set makers
             then (Inl (KeyError model), dict_set model steps ms)
             else let st = (case dict_get keys key of Some st \<Rightarrow> st | None \<Rightarrow> \<lparr>st_model = model, st_seen = []\<rparr>);
                      st' = st\<lparr>st_seen := st_seen st @ [v]\<rparr>
                  in (sl_update lib (st_model st) (st_seen st) v,
                      dict_set model (dict_set step (dict_set key st' keys) steps) ms))"

definition increment_counter :: "stat_lib \<Rightarrow> string \<Rightarrow> string option \<Rightarrow> pyval \<Rightarrow> (metrics_store, unit) act" where
  "increment_counter lib key step by = update_stat lib [''count''] ''count'' (or_global step) key by"

definition add_model_entry ::
  "stat_lib \<Rightarrow> string \<Rightarrow> pyval \<Rightarrow> string option \<Rightarrow> string option \<Rightarrow> (metrics_store, unit) act" where
  "add_model_entry lib key v step model_name =
     for_each (case model_name of None \<Rightarrow> model_inits | Some m \<Rightarrow> [m])
       (\<lambda>m. update_stat lib model_inits m (or_global step) key v)"

definition add_custom_metric :: "stat_lib \<Rightarrow> pyval \<Rightarrow> string \<Rightarrow> string option \<Rightarrow> (metrics_store, unit) act" where
  "add_custom_metric lib metrics job_name step_name =
     (case metrics of
        PDict d \<Rightarrow> for_each d (\<lambda>(k, v).
          andthen (add_model_entry lib k v step_name None) (increment_counter lib k step_name v))
      | _ \<Rightarrow> throw AttributeError)"

section \<open>Reading\<close>

text \<open>\<open>round(x, 3)\<close>: the nearest multiple of a thousandth, as a float; integers stay.\<close>

definition round3 :: "pyval \<Rightarrow> pyval res" where
  "round3 v = (case v of
     PFloat x \<Rightarrow> Inr (PFloat (to_double (of_int (round_even (x * 1000)) / 1000)))
   | PInf neg \<Rightarrow> Inr (PInf neg)
   | PNan \<Rightarrow> Inr PNan
   | PInt i \<Rightarrow> Inr (PInt i)
   | PBool b \<Rightarrow> Inr (PInt (if b then 1 else 0))
   | _ \<Rightarrow> Inl TypeError)"

definition dict_rmap :: "('v \<Rightarrow> 'u res) \<Rightarrow> ('k, 'v) dict \<Rightarrow> ('k, 'u) dict res" where
  "dict_rmap f d = rmap (\<lambda>(k, v). rbind (f v) (\<lambda>u. Inr (k, u))) d"

definition summarize_all ::
  "stat_lib \<Rightarrow> metrics_store \<Rightarrow> (string, (string, (string, pyval) dict) dict) dict res" where
  "summarize_all lib ms =
     dict_rmap (dict_rmap (dict_rmap (\<lambda>st. rbind (sl_get lib (st_model st) (st_seen st)) round3))) ms"

text \<open>
  \<open>model[step][key].get()\<close> with \<open>except KeyError\<close>: a statistic that does not exist reads as
  \<open>None\<close> (\<open>iter_triggers\<close> of the manager).
\<close>

definition or_none :: "pyval res \<Rightarrow> pyval res" where
  "or_none r = (case r of Inl (KeyError k) \<Rightarrow> Inr PNone | _ \<Rightarrow> r)"

definition metric_value :: "stat_lib \<Rightarrow> (string, (string, stat) dict) dict \<Rightarrow> string \<Rightarrow> string \<Rightarrow> pyval res" where
  "metric_value lib model step key =
     or_none (rbind (dict_at model step) (\<lambda>keys. rbind (dict_at keys key) (\<lambda>st.
       sl_get lib (st_model st) (st_seen st))))"

section \<open>Which histories grow\<close>

definition stat_of :: "metrics_store \<Rightarrow> string \<Rightarrow> string \<Rightarrow> string \<Rightarrow> stat option" where
  "stat_of ms m s k = (case dict_get ms m of None \<Rightarrow> None
     | Some steps \<Rightarrow> (case dict_get steps s of None \<Rightarrow> None | Some keys \<Rightarrow> dict_get keys k))"

definition seen :: "metrics_store \<Rightarrow> string \<Rightarrow> string \<Rightarrow> string \<Rightarrow> pyval list" where
  "seen ms m s k = (case stat_of ms m s k of None \<Rightarrow> [] | Some st \<Rightarrow> st_seen st)"

definition all_models :: "string list" where
  "all_models = model_inits @ [''count'']"

text \<open>A store has all models, and every statistic stands under its own model.\<close>

definition store_ok :: "metrics_store \<Rightarrow> bool" where
  "store_ok ms \<longleftrightarrow> dict_keys ms = all_models \<and> (\<forall>m s k st. stat_of ms m s k = Some st \<longrightarrow> st_model st = m)"

lemma new_metrics_get: "dict_get new_metrics m = (if m \<in> set all_models then Some [] else None)"
proof -
  have e: "new_metrics = map (\<lambda>n. (n, [])) all_models" by (simp add: new_metrics_def all_models_def)
  show ?thesis unfolding e by (simp add: map_of_map_restrict restrict_map_def)
qed

lemma new_metrics_ok: "store_ok new_metrics"
  by (simp add: store_ok_def stat_of_def new_metrics_get split: if_splits)
    (simp add: new_metrics_def all_models_def dict_keys_def comp_def)

lemma stat_of_dict_set:
  "stat_of (dict_set model steps ms) m s k =
    (if m = model then (case dict_get steps s of None \<Rightarrow> None | Some keys \<Rightarrow> dict_get keys k)
     else stat_of ms m s k)"
  by (simp add: stat_of_def)

lemma update_stat_stat_of:
  assumes "update_stat lib makers model step key v ms = (r, ms')" and "model \<in> set makers"
    and "dict_in model ms"
  shows "stat_of ms' m s k = (if m = model \<and> s = step \<and> k = key
     then Some \<lparr>st_model = (case stat_of ms model step key of None \<Rightarrow> model | Some st \<Rightarrow> st_model st),
                st_seen = seen ms model step key @ [v]\<rparr>
     else stat_of ms m s k)"
proof -
  obtain steps0 where s0: "dict_get ms model = Some steps0" using assms(3) by (auto simp: dict_in_def)
  define steps where "steps = (if dict_in step steps0 then steps0 else dict_set step [] steps0)"
  define keys where "keys = the (dict_get steps step)"
  define st where "st = (case dict_get keys key of Some st \<Rightarrow> st | None \<Rightarrow> \<lparr>st_model = model, st_seen = []\<rparr>)"
  have ms': "ms' = dict_set model (dict_set step (dict_set key (st\<lparr>st_seen := st_seen st @ [v]\<rparr>) keys) steps) ms"
    using assms(1,2) by (simp add: update_stat_def s0 Let_def flip: steps_def keys_def st_def)
  have keys: "dict_get steps step = Some keys"
    by (cases "dict_get steps0 step") (auto simp: keys_def steps_def dict_in_def)
  have old: "stat_of ms model s k = (case dict_get steps s of None \<Rightarrow> None | Some ks \<Rightarrow> dict_get ks k)" for s k
    using s0 by (auto simp: stat_of_def steps_def dict_in_def split: option.splits)
  have st': "st\<lparr>st_seen := st_seen st @ [v]\<rparr> =
      \<lparr>st_model = (case stat_of ms model step key of None \<Rightarrow> model | Some st \<Rightarrow> st_model st),
       st_seen = seen ms model step key @ [v]\<rparr>"
    by (cases "dict_get keys key") (simp_all add: st_def seen_def old keys)
  show ?thesis
  proof (cases "m = model \<and> s = step")
    case True
    then show ?thesis
      unfolding ms' st' stat_of_dict_set by (simp add: old keys)
  next
    case False
    then show ?thesis
      unfolding ms' stat_of_dict_set by (auto simp: old)
  qed
qed

lemma update_stat_seen:
  assumes "update_stat lib makers model step key v ms = (r, ms')" and "model \<in> set makers"
    and "dict_in model ms"
  shows "seen ms' m s k = seen ms m s k @ (if m = model \<and> s = step \<and> k = key then [v] else [])"
  using update_stat_stat_of [OF assms, of m s k] by (simp add: seen_def)

lemma update_stat_keys:
  assumes "update_stat lib makers model step key v ms = (r, ms')"
  shows "dict_keys ms' = dict_keys ms"
  using assms by (auto simp: update_stat_def Let_def dict_keys_set dict_in_def split: option.splits if_splits)

lemma update_stat_ok:
  assumes "update_stat lib makers model step key v ms = (r, ms')" and "model \<in> set makers"
    and "model \<in> set all_models" and "store_ok ms"
  shows "store_ok ms'"
proof -
  have i: "dict_in model ms" using assms(3,4) by (simp add: store_ok_def dict_in_keys)
  have "st_model st = m" if st: "stat_of ms' m s k = Some st" for m s k st
  proof (cases "m = model \<and> s = step \<and> k = key")
    case True
    then have "st_model st = (case stat_of ms model step key of None \<Rightarrow> model | Some st \<Rightarrow> st_model st)"
      using st update_stat_stat_of [OF assms(1,2) i, of m s k] by (simp add: True)
    then show ?thesis using assms(4) True by (auto simp: store_ok_def split: option.splits)
  next
    case False
    then have "stat_of ms m s k = Some st"
      using st update_stat_stat_of [OF assms(1,2) i, of m s k] by auto
    then show ?thesis using assms(4) by (simp add: store_ok_def)
  qed
  then show ?thesis
    using assms(4) update_stat_keys [OF assms(1)] by (simp add: store_ok_def)
qed

lemma add_entries_seen:
  assumes "for_each names (\<lambda>m. update_stat lib model_inits m step key v) ms = (Inr (), ms')"
    and "distinct names" and "set names \<subseteq> set model_inits" and "store_ok ms"
  shows "seen ms' m s k = seen ms m s k @ (if m \<in> set names \<and> s = step \<and> k = key then [v] else [])"
  using assms
proof (induction names arbitrary: ms)
  case Nil
  then show ?case by simp
next
  case (Cons n names)
  obtain r ms1 where u: "update_stat lib model_inits n step key v ms = (r, ms1)"
    by (cases "update_stat lib model_inits n step key v ms")
  then have rest: "for_each names (\<lambda>m. update_stat lib model_inits m step key v) ms1 = (Inr (), ms')"
    using Cons.prems(1) by (cases r) auto
  have n: "n \<in> set model_inits" "n \<in> set all_models" using Cons.prems(3) by (auto simp: all_models_def)
  then have i: "dict_in n ms" using Cons.prems(4) by (simp add: store_ok_def dict_in_keys)
  have "seen ms' m s k = seen ms1 m s k @ (if m \<in> set names \<and> s = step \<and> k = key then [v] else [])"
    using Cons.IH [OF rest] Cons.prems update_stat_ok [OF u n] by simp
  then show ?case
    using update_stat_seen [OF u n(1) i, of m s k] Cons.prems(2) by auto
qed

lemma model_inits_distinct: "distinct model_inits" "''count'' \<notin> set model_inits"
  by (simp_all add: model_inits_def)

lemma add_entries_keeps:
  assumes "set names \<subseteq> set all_models" and "set names \<subseteq> set makers"
  shows "keeps store_ok (for_each names (\<lambda>m. update_stat lib makers m step key v))"
proof (rule keeps_for_each)
  fix m
  assume "m \<in> set names"
  then have "m \<in> set makers" "m \<in> set all_models" using assms by auto
  then show "keeps store_ok (update_stat lib makers m step key v)"
    by (intro keepsI) (metis prod.collapse update_stat_ok)
qed

lemma add_model_entry_keeps [act_inv]: "keeps store_ok (add_model_entry lib key v step None)"
proof -
  have "set model_inits \<subseteq> set all_models" by (auto simp: all_models_def)
  then show ?thesis
    unfolding add_model_entry_def option.case by (rule add_entries_keeps) simp
qed

lemma increment_counter_keeps [act_inv]: "keeps store_ok (increment_counter lib key step v)"
proof (rule keepsI)
  fix ms
  assume "store_ok ms"
  then show "store_ok (snd (increment_counter lib key step v ms))"
    unfolding increment_counter_def
    by (metis (no_types) all_models_def in_set_conv_decomp list.set_intros(1) prod.collapse update_stat_ok)
qed

lemma add_custom_metric_keeps [act_inv]: "keeps store_ok (add_custom_metric lib v job step)"
  by (cases v) (auto simp: add_custom_metric_def intro!: act_inv)

lemma add_custom_pairs_seen:
  assumes "for_each d (\<lambda>(k, v). andthen (add_model_entry lib k v step None) (increment_counter lib k step v)) ms
      = (Inr (), ms')"
    and "store_ok ms" and "m \<in> set all_models"
  shows "seen ms' m s k = seen ms m s k @
    (if s = or_global step then map snd (filter (\<lambda>(k', _). k' = k) d) else [])"
  using assms
proof (induction d arbitrary: ms)
  case Nil
  then show ?case by simp
next
  case (Cons p d)
  obtain k1 v1 where p: "p = (k1, v1)" by (cases p)
  define body where
    "body = (\<lambda>(k, v). andthen (add_model_entry lib k v step None) (increment_counter lib k step v))"
  from Cons.prems(1) have "for_each ((k1, v1) # d) body ms = (Inr (), ms')"
    by (simp only: p body_def)
  then obtain ms2 where ms2: "body (k1, v1) ms = (Inr (), ms2)" "for_each d body ms2 = (Inr (), ms')"
    by (auto split: prod.splits sum.splits)
  then obtain ms1 where
    e: "add_model_entry lib k1 v1 step None ms = (Inr (), ms1)"
    and c: "increment_counter lib k1 step v1 ms1 = (Inr (), ms2)"
    by (auto simp: body_def andthen_Inr_iff)
  note rest = ms2(2) [unfolded body_def]
  have ok1: "store_ok ms1" using keepsD [OF add_model_entry_keeps Cons.prems(2) e] .
  have ok2: "store_ok ms2" using keepsD [OF increment_counter_keeps ok1 c] .
  have i: "dict_in ''count'' ms1" using ok1 by (simp add: store_ok_def dict_in_keys all_models_def)
  have "seen ms1 m s k = seen ms m s k @ (if m \<in> set model_inits \<and> s = or_global step \<and> k = k1 then [v1] else [])"
    using add_entries_seen [OF e [unfolded add_model_entry_def option.case] model_inits_distinct(1) subset_refl Cons.prems(2)] .
  moreover have "seen ms2 m s k = seen ms1 m s k @ (if m = ''count'' \<and> s = or_global step \<and> k = k1 then [v1] else [])"
    using update_stat_seen [OF c [unfolded increment_counter_def] _ i] by simp
  ultimately show ?case
    using Cons.IH [OF rest ok2 Cons.prems(3)] Cons.prems(3) model_inits_distinct(2)
    by (auto simp: p all_models_def)
qed

lemma filter_dict_get:
  "distinct (dict_keys d) \<Longrightarrow>
   map snd (filter (\<lambda>(k', _). k' = k) d) = (case dict_get d k of None \<Rightarrow> [] | Some v \<Rightarrow> [v])"
proof (induction d)
  case Nil
  then show ?case by simp
next
  case (Cons p d)
  have "k \<notin> fst ` set d \<Longrightarrow> filter (\<lambda>(k', _). k' = k) d = []"
    by (induction d) auto
  with Cons show ?case by (cases p) (auto simp: dict_keys_def)
qed

text \<open>C27. Recording the custom metrics of a job adds each value, once, to all seven models of its step
  (the counter included) under the name the job gave it, and to nothing else; a job without a
  step counts for the whole workflow.\<close>

theorem custom_metric_recorded:
  assumes "add_custom_metric lib (PDict d) job step ms = (Inr (), ms')"
    and "store_ok ms" and "distinct (dict_keys d)" and "m \<in> set all_models"
  shows "store_ok ms' \<and> seen ms' m s k = seen ms m s k @
    (if s = or_global step then (case dict_get d k of None \<Rightarrow> [] | Some v \<Rightarrow> [v]) else [])"
  using add_custom_pairs_seen [of d lib step ms ms' m s k] assms filter_dict_get [OF assms(3), of k]
    keepsD [OF add_custom_metric_keeps assms(2,1)]
  by (simp add: add_custom_metric_def)

definition example_stats :: stat_lib where
  "example_stats = \<lparr>sl_update = (\<lambda>m h v. Inr ()), sl_get = (\<lambda>m h. Inr (PInt (int (length h))))\<rparr>"

theorem custom_metric_recorded_witness:
  "\<exists>ms'. add_custom_metric example_stats (PDict [(''loss'', PInt 3)]) ''j'' (Some ''job_a'') new_metrics = (Inr (), ms') \<and>
     seen ms' ''mean'' ''job_a'' ''loss'' = [PInt 3] \<and> seen ms' ''count'' ''job_a'' ''loss'' = [PInt 3]"
proof -
  have "fst (add_custom_metric example_stats (PDict [(''loss'', PInt 3)]) ''j'' (Some ''job_a'') new_metrics) = Inr ()"
    by code_simp
  then obtain ms' where
    r: "add_custom_metric example_stats (PDict [(''loss'', PInt 3)]) ''j'' (Some ''job_a'') new_metrics = (Inr (), ms')"
    by (metis prod.collapse)
  have n: "seen new_metrics m s k = []" for m s k
    by (simp add: seen_def stat_of_def new_metrics_get)
  show ?thesis
    using r custom_metric_recorded [OF r new_metrics_ok, of "''mean''" "''job_a''" "''loss''"]
      custom_metric_recorded [OF r new_metrics_ok, of "''count''" "''job_a''" "''loss''"]
    by (simp add: n or_global_def all_models_def model_inits_def dict_keys_def)
qed

end
