(* ===== verification/Manager.thy ===== *)
theory Manager
  imports Machine Metrics
begin

text \<open>
  The workflow manager: \<open>manager/manager.py\<close> with \<open>timed\<close> of \<open>manager/utils.py\<close>. The manager
  keeps one state machine per job sequence; it starts them, feeds them the events of their jobs
  and applies the workflow's rules. Its state is the record \<open>mgr\<close>; machines are objects that a
  dictionary and local variables share, so they live in a heap and \<open>trackers\<close> maps a job
  identifier to a place in it. What is outside the process is the record \<open>env\<close>.
\<close>

section \<open>State and surroundings\<close>

text \<open>
  The package of the state machines, the tracker module, the statistics, the clock, the draw of
  \<open>random.choice(range(0, 99999999))\<close>, the number of nested calls Python's recursion limit
  leaves to \<open>generate_id\<close>, the tracker's watcher, the writing of the times, the current
  directory and a fresh temporary directory.
\<close>

record 'w env =
  e_lib :: sm_lib
  e_ops :: "'w tracker_ops"
  e_stats :: stat_lib
  e_clock :: "('w, rat) act"
  e_draw :: "('w, nat) act"
  e_depth :: nat
  e_start_watcher :: "('w, unit) act"
  e_stop_watcher :: "('w, unit) act"
  e_save_watcher :: "string \<Rightarrow> ('w, unit) act"
  e_write_times :: "string \<Rightarrow> (string, rat) dict \<Rightarrow> (string, rat list) dict \<Rightarrow> ('w, unit) act"
  e_cwd :: "('w, string) act"
  e_mkdtemp :: "('w, string) act"

record 'w mgr =
  wfl :: workflow
  id_prefix :: pyval
  trackers :: "(string option, nat) dict"
  heap :: "machine list"
  store :: metrics_store
  stamps :: "(string, rat) dict"
  timings :: "(string, rat list) dict"
  world :: 'w

definition in_world :: "('w, 'a) act \<Rightarrow> ('w mgr, 'a) act" where
  "in_world a s = (case a (world s) of (r, w) \<Rightarrow> (r, s\<lparr>world := w\<rparr>))"

definition in_store :: "(metrics_store, 'a) act \<Rightarrow> ('w mgr, 'a) act" where
  "in_store a s = (case a (store s) of (r, ms) \<Rightarrow> (r, s\<lparr>store := ms\<rparr>))"

text \<open>A method of the machine object at place \<open>i\<close>.\<close>

definition on_obj :: "nat \<Rightarrow> ('w, 'a) mact \<Rightarrow> ('w mgr, 'a) act" where
  "on_obj i a s = (case a (heap s ! i, world s) of
     (r, (m, w)) \<Rightarrow> (r, s\<lparr>heap := (heap s)[i := m], world := w\<rparr>))"

definition set_tracker :: "string option \<Rightarrow> nat \<Rightarrow> ('w mgr, unit) act" where
  "set_tracker k i = modify (\<lambda>s. s\<lparr>trackers := dict_set k i (trackers s)\<rparr>)"

section \<open>Times\<close>

text \<open>\<open>add_timestamp\<close> and \<open>add_timestamp_first_seen\<close> keep the first time of a name.\<close>

definition add_timestamp :: "'w env \<Rightarrow> string \<Rightarrow> ('w mgr, unit) act" where
  "add_timestamp env name =
     bind (reads stamps) (\<lambda>ts.
       if dict_in name ts then ret ()
       else bind (in_world (e_clock env)) (\<lambda>t. modify (\<lambda>s. s\<lparr>stamps := dict_set name t (stamps s)\<rparr>)))"

definition add_timestamp_first_seen :: "'w env \<Rightarrow> string \<Rightarrow> ('w mgr, unit) act" where
  "add_timestamp_first_seen env label = add_timestamp env (label @ ''_start'')"

text \<open>The decorator \<open>timed\<close>: the rounded duration of a call that returns.\<close>

definition elapsed :: "rat \<Rightarrow> rat \<Rightarrow> rat" where
  "elapsed t0 t1 = to_double (of_int (round_even (to_double (t1 - t0) * 1000)) / 1000)"

definition timed :: "'w env \<Rightarrow> string \<Rightarrow> ('w mgr, 'a) act \<Rightarrow> ('w mgr, 'a) act" where
  "timed env name f =
     bind (in_world (e_clock env)) (\<lambda>t0.
     bind f (\<lambda>res.
     bind (in_world (e_clock env)) (\<lambda>t1.
     bind (modify (\<lambda>s. s\<lparr>timings := dict_set name
         ((case dict_get (timings s) name of None \<Rightarrow> [] | Some l \<Rightarrow> l) @ [elapsed t0 t1]) (timings s)\<rparr>))
       (\<lambda>_. ret res))))"

section \<open>Construction\<close>

datatype tracker_kind = KubernetesKind | FluxKind

text \<open>\<open>tracker.load\<close>.\<close>

definition load_tracker :: "string \<Rightarrow> tracker_kind res" where
  "load_tracker name =
     (if name \<notin> set supported_schedulers then Inl ValueError
      else if lower name = ''kubernetes'' then Inr KubernetesKind
      else if lower name = ''flux'' then Inr FluxKind
      else Inl ValueError)"

definition init_registry :: "pyval \<Rightarrow> pyval \<Rightarrow> workflow \<Rightarrow> workflow res" where
  "init_registry registry plain_http W =
     set_registry W (py_or registry (PStr default_registry))
       (if plain_http \<noteq> PNone then plain_http else PBool True)"

definition init_storage ::
  "'w env \<Rightarrow> pyval \<Rightarrow> pyval \<Rightarrow> bool \<Rightarrow> workflow \<Rightarrow> ('w, workflow) act" where
  "init_storage env registry plain_http use_fs W =
     (if \<not> use_fs then lift (init_registry registry plain_http W)
      else bind (lift (filesystem W)) (\<lambda>f.
        if truthy f then ret W
        else bind (lift (workdir W)) (\<lambda>d.
          bind (if truthy d then ret d else bind (e_mkdtemp env) (\<lambda>t. ret (PStr t))) (\<lambda>p.
            lift (set_filesystem W p)))))"

definition manager_init ::
  "'w env \<Rightarrow> workflow \<Rightarrow> string option \<Rightarrow> pyval \<Rightarrow> pyval \<Rightarrow> pyval \<Rightarrow> pyval \<Rightarrow> 'w \<Rightarrow> ('w mgr) res \<times> 'w" where
  "manager_init env W scheduler fs_arg workdir_arg registry plain_http =
     bind (lift (prefix W)) (\<lambda>p.
     bind (if truthy fs_arg then ret True else bind (lift (filesystem W)) (\<lambda>f. ret (f \<noteq> PNone))) (\<lambda>use_fs.
     bind (lift (set_workdir W workdir_arg)) (\<lambda>W1.
     bind (init_storage env registry plain_http use_fs W1) (\<lambda>W2.
     bind (lift (load_tracker (case scheduler of None \<Rightarrow> default_scheduler
                                | Some n \<Rightarrow> if n = [] then default_scheduler else n))) (\<lambda>_.
       (\<lambda>w. (Inr \<lparr>wfl = W2, id_prefix = py_or p (PStr default_prefix), trackers = [], heap = [],
                 store = new_metrics, stamps = [], timings = [], world = w\<rparr>, w)))))))"

section \<open>The state of the cluster\<close>

definition list_jobs_by_status :: "'w env \<Rightarrow> ('w mgr, wjob by_status) act" where
  "list_jobs_by_status env = timed env ''list_jobs_by_status'' (in_world (op_list (e_ops env)))"

record current_state =
  completed_ids :: "string option set"
  active_ids :: "string option set"
  state_jobs :: "wjob by_status"
  failed_ids :: "string option set"

definition opt_val :: "string option \<Rightarrow> pyval" where
  "opt_val s = (case s of None \<Rightarrow> PNone | Some n \<Rightarrow> PStr n)"

definition in_step :: "wjob \<Rightarrow> pyval \<Rightarrow> bool" where
  "in_step j step = py_eq (opt_val (step_name j)) step"

definition ids_where :: "(wjob \<Rightarrow> bool) \<Rightarrow> wjob list \<Rightarrow> string option set" where
  "ids_where P js = set (map jobid (filter P js))"

text \<open>The four loops of \<open>get_current_state\<close> over the listed jobs.\<close>

definition sort_state :: "pyval \<Rightarrow> wjob by_status \<Rightarrow> current_state" where
  "sort_state final js =
     (let bad = ids_where (\<lambda>j. str_truthy (jobid j)) (failed js);
          done = ids_where (\<lambda>j. str_truthy (jobid j) \<and> str_truthy (step_name j) \<and> jobid j \<notin> bad \<and> in_step j final)
                   (success js);
          live = ids_where (\<lambda>j. str_truthy (jobid j) \<and> jobid j \<notin> done \<and> jobid j \<notin> bad) (queued js @ running js);
          between = ids_where (\<lambda>j. \<not> in_step j final \<and> jobid j \<notin> done \<and> jobid j \<notin> bad) (success js)
      in \<lparr>completed_ids = done, active_ids = live \<union> between, state_jobs = js, failed_ids = bad\<rparr>)"

definition get_current_state :: "'w env \<Rightarrow> ('w mgr, current_state) act" where
  "get_current_state env =
     bind (list_jobs_by_status env) (\<lambda>js.
     bind (reads wfl) (\<lambda>W.
     bind (lift (last_step W)) (\<lambda>l. ret (sort_state l js))))"

section \<open>Machines of the manager\<close>

text \<open>\<open>new_state_machine(self.workflow, jobid, self.scheduler)()\<close>.\<close>

definition new_machine :: "'w env \<Rightarrow> string option \<Rightarrow> ('w mgr, nat) act" where
  "new_machine env jid =
     bind (reads wfl) (\<lambda>W.
     bind (lift (new_state_machine W jid)) (\<lambda>c.
     bind (in_world (create_state_machine_job (e_ops env) W c)) (\<lambda>m.
     bind (reads (\<lambda>s. length (heap s))) (\<lambda>i.
     bind (modify (\<lambda>s. s\<lparr>heap := heap s @ [m]\<rparr>)) (\<lambda>_. ret i)))))"

definition get_state_machine :: "'w env \<Rightarrow> wjob \<Rightarrow> ('w mgr, nat) act" where
  "get_state_machine env j =
     bind (reads trackers) (\<lambda>ts.
       case dict_get ts (jobid j) of Some i \<Rightarrow> ret i | None \<Rightarrow> new_machine env (jobid j))"

definition obj_change :: "'w env \<Rightarrow> nat \<Rightarrow> ('w mgr, unit) act" where
  "obj_change env i = bind (reads wfl) (\<lambda>W. on_obj i (change (e_lib env) (e_ops env) W))"

definition obj_mark :: "nat \<Rightarrow> (machine \<Rightarrow> machine) \<Rightarrow> ('w mgr, unit) act" where
  "obj_mark i f = on_obj i (on_machine f)"

text \<open>The two loops of \<open>init_state\<close>.\<close>

definition restore_active :: "'w env \<Rightarrow> wjob \<Rightarrow> ('w mgr, unit) act" where
  "restore_active env j =
     bind (get_state_machine env j) (\<lambda>i.
     andthen (obj_mark i (mark_running (e_lib env) (step_name j)))
       (set_tracker (jobid j) i))"

definition restore_succeeded :: "'w env \<Rightarrow> pyval \<Rightarrow> wjob \<Rightarrow> ('w mgr, unit) act" where
  "restore_succeeded env final j =
     bind (reads trackers) (\<lambda>ts.
       if in_step j final \<or> dict_in (jobid j) ts then ret ()
       else bind (get_state_machine env j) (\<lambda>i.
         andthen (obj_mark i (mark_running (e_lib env) (step_name j)))
           (attempt (andthen (obj_change env i) (set_tracker (jobid j) i)) (\<lambda>_. ret ()))))"

definition init_state :: "'w env \<Rightarrow> ('w mgr, unit) act" where
  "init_state env =
     andthen (modify (\<lambda>s. s\<lparr>trackers := []\<rparr>))
       (bind (get_current_state env) (\<lambda>cs.
        andthen (for_each (running (state_jobs cs) @ queued (state_jobs cs)) (restore_active env))
          (bind (reads wfl) (\<lambda>W.
           bind (lift (last_step W)) (\<lambda>l.
             for_each (success (state_jobs cs)) (restore_succeeded env l))))))"

section \<open>Completion\<close>

definition save_dir :: "'w env \<Rightarrow> ('w mgr, string) act" where
  "save_dir env =
     bind (reads wfl) (\<lambda>W.
     bind (lift (workdir W)) (\<lambda>d.
       if truthy d then lift (string_of d) else in_world (e_cwd env)))"

definition save_times :: "'w env \<Rightarrow> ('w mgr, unit) act" where
  "save_times env =
     bind (save_dir env) (\<lambda>d.
     bind (reads (\<lambda>s. (stamps s, timings s))) (\<lambda>(ss, ts).
       in_world (e_write_times env (path_join d ''workflow-times.json'') ss ts)))"

definition complete_workflow :: "'w env \<Rightarrow> ('w mgr, unit) act" where
  "complete_workflow env =
     andthen (add_timestamp env ''workflow_complete'')
    (andthen (in_world (e_stop_watcher env))
    (bind (save_dir env) (\<lambda>d.
     andthen (in_world (e_save_watcher env d))
    (andthen (save_times env)
    (bind (reads (\<lambda>s. summarize_all (e_stats env) (store s))) (\<lambda>summary.
     bind (lift summary) (\<lambda>_. throw SystemExit)))))))"

text \<open>Whether \<open>needed - completions <= 0\<close>.\<close>

definition enough :: "workflow \<Rightarrow> nat \<Rightarrow> bool res" where
  "enough W n =
     rbind (completions_needed W) (\<lambda>need.
     rbind (py_sub need (PInt (int n))) (\<lambda>d. py_le d (PInt 0)))"

definition check_complete :: "'w env \<Rightarrow> ('w mgr, unit) act" where
  "check_complete env =
     bind (get_current_state env) (\<lambda>cs.
     bind (reads wfl) (\<lambda>W.
     bind (lift (enough W (card (completed_ids cs)))) (\<lambda>fin.
       if fin then complete_workflow env else ret ())))"

section \<open>Submitting new sequences\<close>

text \<open>
  How many sequences \<open>new_jobs\<close> starts, from the numbers of completed and active ones. The name of
  the step is read for the report that precedes a submission.
\<close>

definition plan_jobs :: "workflow \<Rightarrow> nat \<Rightarrow> nat \<Rightarrow> nat res" where
  "plan_jobs W completions active_jobs =
     rbind (first_step W) (\<lambda>first.
     rbind (case first of PStr n \<Rightarrow> config_for_step W n | _ \<Rightarrow> Inl ValueError) (\<lambda>step.
     rbind (py_get step ''nnodes'' (PInt 1)) (\<lambda>nodes_needed.
     rbind (completions_needed W) (\<lambda>need.
     rbind (py_sub need (PInt (int completions))) (\<lambda>jobs_needed.
     rbind (max_size W) (\<lambda>size.
     rbind (rbind (py_truediv size nodes_needed) math_floor) (\<lambda>nodes_allowed.
     rbind (py_min nodes_allowed jobs_needed) (\<lambda>jobs_allowed.
     rbind (py_sub jobs_allowed (PInt (int active_jobs))) (\<lambda>n0.
     rbind (py_max n0 (PInt 0)) (\<lambda>n1.
     rbind (py_min jobs_needed n1) (\<lambda>submit_n.
     rbind (py_le submit_n (PInt 0)) (\<lambda>nothing.
       if nothing then Inr 0
       else rbind (py_item step ''name'') (\<lambda>_. py_range submit_n)))))))))))))"

text \<open>\<open>self.prefix + str(number).zfill(9)\<close>.\<close>

definition make_id :: "pyval \<Rightarrow> nat \<Rightarrow> string res" where
  "make_id p number = (case p of PStr s \<Rightarrow> Inr (s @ zfill 9 (show_nat number)) | _ \<Rightarrow> Inl TypeError)"

fun generate_id :: "'w env \<Rightarrow> nat \<Rightarrow> ('w mgr, string) act" where
  "generate_id env 0 = throw (OtherError ''RecursionError'')"
| "generate_id env (Suc d) =
     bind (in_world (e_draw env)) (\<lambda>number.
     bind (reads (\<lambda>s. (make_id (id_prefix s) number, trackers s))) (\<lambda>(r, ts).
     bind (lift r) (\<lambda>jid.
       if dict_in (Some jid) ts then generate_id env d else ret jid)))"

definition start_sequence :: "'w env \<Rightarrow> ('w mgr, unit) act" where
  "start_sequence env =
     bind (generate_id env (e_depth env)) (\<lambda>jid.
     bind (new_machine env (Some jid)) (\<lambda>i.
     andthen (obj_change env i) (set_tracker (Some jid) i)))"

definition new_jobs :: "'w env \<Rightarrow> ('w mgr, unit) act" where
  "new_jobs env =
     bind (get_current_state env) (\<lambda>cs.
     bind (reads wfl) (\<lambda>W.
     bind (lift (plan_jobs W (card (completed_ids cs)) (card (active_ids cs)))) (\<lambda>n.
       for_each [0..<n] (\<lambda>_. start_sequence env))))"

section \<open>Outcomes of jobs\<close>

definition obj_get :: "nat \<Rightarrow> (machine \<Rightarrow> 'a) \<Rightarrow> ('w mgr, 'a) act" where
  "obj_get i f = reads (\<lambda>s. f (heap s ! i))"

definition succeed_job :: "'w env \<Rightarrow> wjob \<Rightarrow> nat \<Rightarrow> ('w mgr, unit) act" where
  "succeed_job env j i =
     andthen (add_timestamp env (job_label j @ ''_succeeded''))
    (andthen (obj_mark i (mark_succeeded None))
    (bind (obj_get i m_current) (\<lambda>cur.
       if job_succeeded j \<and> cur \<noteq> ''complete'' then obj_change env i else ret ())))"

definition drop_tracker :: "string option \<Rightarrow> ('w mgr, unit) act" where
  "drop_tracker k = modify (\<lambda>s. s\<lparr>trackers := dict_del k (trackers s)\<rparr>)"

definition fail_job :: "'w env \<Rightarrow> wjob \<Rightarrow> nat \<Rightarrow> ('w mgr, unit) act" where
  "fail_job env j i =
     andthen (add_timestamp env (job_label j @ ''_failed''))
    (andthen (obj_mark i (mark_failed None))
    (andthen (bind (reads wfl) (\<lambda>W. on_obj i (cleanup (e_ops env) W)))
    (bind (reads trackers) (\<lambda>ts.
       if dict_in (jobid j) ts then drop_tracker (jobid j) else ret ()))))"

section \<open>Metrics of jobs\<close>

definition load_custom_metrics :: "'w env \<Rightarrow> nat \<Rightarrow> ('w mgr, unit) act" where
  "load_custom_metrics env i =
     bind (on_obj i metrics) (\<lambda>ms.
       for_each ms (\<lambda>m.
         attempt (in_store (add_custom_metric (e_stats env) (cm_metrics m) (cm_job_name m) (Some (cm_step_name m))))
           (\<lambda>_. ret ())))"

definition update_metrics :: "'w env \<Rightarrow> wjob \<Rightarrow> nat \<Rightarrow> ('w mgr, unit) act" where
  "update_metrics env j i =
     andthen
       (if job_failed j then in_store (increment_counter (e_stats env) ''failure'' (step_name j) (PInt 1))
        else if job_succeeded j then in_store (increment_counter (e_stats env) ''success'' (step_name j) (PInt 1))
        else ret ())
    (andthen
       (case duration j of
          Some d \<Rightarrow> if is_completed j
            then in_store (add_model_entry (e_stats env) ''duration'' (PFloat d) (step_name j) None) else ret ()
        | None \<Rightarrow> ret ())
    (andthen
       (if is_completed j then bind (reads wfl) (\<lambda>W. on_obj i (post_completion (e_ops env) W j)) else ret ())
       (load_custom_metrics env i)))"

section \<open>Actions\<close>

text \<open>\<open>self.workflow.jobs[step]["config"]["nnodes"]\<close>, read and incremented.\<close>

definition step_nodes :: "workflow \<Rightarrow> string \<Rightarrow> pyval res" where
  "step_nodes W step =
     rbind (dict_at (jobs W) step) (\<lambda>job. rbind (py_item job ''config'') (\<lambda>c. py_item c ''nnodes''))"

definition set_step_nodes :: "string \<Rightarrow> pyval \<Rightarrow> workflow \<Rightarrow> workflow res" where
  "set_step_nodes step v W =
     rbind (dict_at (jobs W) step) (\<lambda>job.
     rbind (py_item job ''config'') (\<lambda>c.
     rbind (py_setitem c ''nnodes'' v) (\<lambda>c'.
     rbind (py_setitem job ''config'' c') (\<lambda>job'.
     Inr (W\<lparr>jobs := dict_set step job' (jobs W)\<rparr>)))))"

definition trigger_grow :: "rule \<Rightarrow> string \<Rightarrow> workflow \<Rightarrow> workflow res" where
  "trigger_grow r step W =
     rbind (step_nodes W step) (\<lambda>previous.
     rbind (action_max_size (r_action r)) (\<lambda>limit.
     rbind (py_add previous (PInt 1)) (\<lambda>next.
     rbind (py_le limit next) (\<lambda>full.
       if full then Inr W
       else set_step_nodes step next W))))"

definition trigger_shrink :: "rule \<Rightarrow> string \<Rightarrow> workflow \<Rightarrow> workflow res" where
  "trigger_shrink r step W =
     rbind (step_nodes W step) (\<lambda>previous.
     rbind (action_min_size (r_action r)) (\<lambda>size.
     rbind (py_le previous (py_or size (PInt 1))) (\<lambda>small.
       if small then Inr W
       else rbind (py_sub previous (PInt 1)) (\<lambda>next. set_step_nodes step next W))))"

definition change_workflow :: "(workflow \<Rightarrow> workflow res) \<Rightarrow> ('w mgr, unit) act" where
  "change_workflow f s = (case f (wfl s) of Inl e \<Rightarrow> (Inl e, s) | Inr W \<Rightarrow> (Inr (), s\<lparr>wfl := W\<rparr>))"

text \<open>The action has a minimum number of completions that is not reached.\<close>

definition too_early :: "'w env \<Rightarrow> action \<Rightarrow> ('w mgr, bool) act" where
  "too_early env a =
     bind (lift (action_min_completions a)) (\<lambda>m.
       if truthy m
       then bind (get_current_state env) (\<lambda>cs. lift (py_lt (PInt (int (card (completed_ids cs)))) m))
       else ret False)"

definition trigger_workflow_action :: "'w env \<Rightarrow> rule \<Rightarrow> string \<Rightarrow> nat \<Rightarrow> ('w mgr, unit) act" where
  "trigger_workflow_action env r step i =
     bind (too_early env (r_action r)) (\<lambda>early.
       if early then ret ()
       else bind (lift (action_name (r_action r))) (\<lambda>n.
         if py_eq n (PStr ''repeat'') then obj_mark i (mark_repeat step)
         else andthen (if py_eq n (PStr ''finish-workflow'') then complete_workflow env else ret ())
             (andthen (if py_eq n (PStr ''grow'') then change_workflow (trigger_grow r step) else ret ())
               (if py_eq n (PStr ''shrink'') then change_workflow (trigger_shrink r step) else ret ()))))"

section \<open>Rules\<close>

text \<open>
  Rules are objects of the workflow's lists and change when they are checked: a check works on
  the rule at a place of a metric's list.
\<close>

definition rule_at :: "string \<Rightarrow> nat \<Rightarrow> workflow \<Rightarrow> rule" where
  "rule_at metric k W = (the (dict_get (rules W) metric)) ! k"

definition put_rule :: "string \<Rightarrow> nat \<Rightarrow> rule \<Rightarrow> workflow \<Rightarrow> workflow" where
  "put_rule metric k r W =
     W\<lparr>rules := dict_set metric ((the (dict_get (rules W) metric))[k := r]) (rules W)\<rparr>"

definition on_rule :: "string \<Rightarrow> nat \<Rightarrow> (rule, 'a) act \<Rightarrow> ('w mgr, 'a) act" where
  "on_rule metric k a s = (case a (rule_at metric k (wfl s)) of
     (x, r) \<Rightarrow> (x, s\<lparr>wfl := put_rule metric k r (wfl s)\<rparr>))"

definition check_trigger ::
  "'w env \<Rightarrow> string list \<Rightarrow> string \<Rightarrow> nat \<Rightarrow> string \<Rightarrow> pyval \<Rightarrow> nat \<Rightarrow> ('w mgr, unit) act" where
  "check_trigger env names metric i step v k =
     bind (reads (\<lambda>s. rule_at metric k (wfl s))) (\<lambda>r.
     bind (lift (action_name (r_action r))) (\<lambda>n.
       if \<not> py_in n (map PStr names) then ret ()
       else bind (on_rule metric k (rule_should_trigger v)) (\<lambda>hit.
         if hit = Some True then trigger_workflow_action env r step i else ret ())))"

definition check_metric ::
  "'w env \<Rightarrow> string list \<Rightarrow> wjob \<Rightarrow> nat \<Rightarrow> string \<times> nat \<Rightarrow> ('w mgr, unit) act" where
  "check_metric env names j i mn =
     (case mn of (metric, n) \<Rightarrow>
       (case split_char (CHR ''.'') metric of
          [model_name, step, key] \<Rightarrow>
            if step_name j \<noteq> Some step then ret ()
            else bind (reads store) (\<lambda>ms.
              case dict_get ms model_name of
                None \<Rightarrow> ret ()
              | Some model \<Rightarrow> bind (lift (metric_value (e_stats env) model step key)) (\<lambda>v.
                  for_each [0..<n] (check_trigger env names metric i step v)))
        | _ \<Rightarrow> throw ValueError))"

text \<open>\<open>check_state_machine_metrics\<close> and \<open>check_workflow_metrics\<close> over \<open>iter_triggers\<close>.\<close>

definition check_rules :: "'w env \<Rightarrow> string list \<Rightarrow> wjob \<Rightarrow> nat \<Rightarrow> ('w mgr, unit) act" where
  "check_rules env names j i =
     bind (reads (\<lambda>s. map (\<lambda>(m, ts). (m, length ts)) (rules (wfl s)))) (\<lambda>ms.
       for_each ms (check_metric env names j i))"

definition check_state_machine_metrics :: "'w env \<Rightarrow> wjob \<Rightarrow> nat \<Rightarrow> ('w mgr, unit) act" where
  "check_state_machine_metrics env = check_rules env state_machine_actions"

definition check_workflow_metrics :: "'w env \<Rightarrow> wjob \<Rightarrow> nat \<Rightarrow> ('w mgr, unit) act" where
  "check_workflow_metrics env = check_rules env workflow_actions"

section \<open>Events\<close>

text \<open>One event of a tracked job that is not merely active; then any event; then the stream.\<close>

definition handle_finished :: "'w env \<Rightarrow> wjob \<Rightarrow> nat \<Rightarrow> ('w mgr, unit) act" where
  "handle_finished env j i =
     andthen (update_metrics env j i)
    (andthen (check_state_machine_metrics env j i)
    (bind (obj_get i is_repeating) (\<lambda>repeating.
     andthen
       (if job_failed j \<and> always_succeed j then succeed_job env j i
        else if job_succeeded j then succeed_job env j i
        else if job_failed j then fail_job env j i
        else ret ())
    (andthen (check_complete env)
    (andthen (check_workflow_metrics env j i)
       (if \<not> repeating then new_jobs env else ret ()))))))"

definition handle_event :: "'w env \<Rightarrow> wjob \<Rightarrow> ('w mgr, unit) act" where
  "handle_event env j =
     bind (reads trackers) (\<lambda>ts.
       if \<not> str_truthy (jobid j) \<or> \<not> str_truthy (step_name j) \<or> \<not> dict_in (jobid j) ts then ret ()
       else andthen (add_timestamp_first_seen env (job_label j))
         (if is_active j \<and> \<not> is_completed j then ret ()
          else handle_finished env j (the (dict_get ts (jobid j)))))"

definition watch :: "'w env \<Rightarrow> wjob list \<Rightarrow> ('w mgr, unit) act" where
  "watch env js = for_each js (handle_event env)"

text \<open>\<open>start\<close>; \<open>js\<close> are the events the stream delivers before it ends.\<close>

definition start :: "'w env \<Rightarrow> wjob list \<Rightarrow> ('w mgr, unit) act" where
  "start env js = timed env ''start''
     (andthen (add_timestamp env ''workflow_start'')
     (andthen (init_state env)
     (andthen (check_complete env)
     (andthen (new_jobs env)
     (andthen (in_world (e_start_watcher env))
       (watch env js))))))"

end
