(* ===== verification/Machine_Runs.thy ===== *)
theory Machine_Runs
  imports Machine_Lemmas "HOL-Library.Sublist"
begin

text \<open>
  Runs of one state machine. The calls the manager makes on a machine are the constructors of
  \<open>machine_call\<close>; \<open>machine_reach\<close> are the states any sequence of them leads to from a fresh
  instance, the marks for a restart and repeats of any step included. The file shows that creation
  and every call keep instances well formed, and that a sequence submits its steps at most once each
  and in order, and exactly once as long as the calls stay in place.
\<close>

section \<open>Every operation keeps an instance well formed\<close>

lemma machine_ok_set_flag [intro]: "machine_ok ns m \<Longrightarrow> machine_ok ns (set_flag a b m)"
  by (auto simp: machine_ok_def set_flag_def flags_declared_def)

lemma machine_ok_move [intro]:
  "machine_ok ns m \<Longrightarrow> n \<in> insert ''complete'' (set ns) \<Longrightarrow> machine_ok ns (m\<lparr>m_current := n\<rparr>)"
  by (auto simp: machine_ok_def)

lemma machine_ok_marks [intro]:
  assumes "machine_ok ns m"
  shows "machine_ok ns (mark_succeeded s m)" "machine_ok ns (mark_failed s m)"
    "machine_ok ns (mark_repeat n m)" "machine_ok ns (unmark_repeatable n m)"
  using assms
  by (auto simp: mark_succeeded_def mark_failed_def mark_repeat_def unmark_repeatable_def Let_def)

lemma machine_ok_mark_running [intro]: "machine_ok ns m \<Longrightarrow> machine_ok ns (mark_running L n m)"
proof -
  assume "machine_ok ns m"
  then have "machine_ok ns (mark_running_loop L n ss m)" for ss
    by (induction ss arbitrary: m) auto
  then show ?thesis by (simp add: mark_running_def)
qed

lemma dict_keys_map_values: "dict_keys (map (\<lambda>(n, _). (n, f n)) d) = dict_keys d"
  by (induction d) (auto simp: dict_keys_def)

lemma machine_ok_trackers:
  "machine_ok ns m \<Longrightarrow> (\<And>d. dict_keys d = ns \<Longrightarrow> dict_keys (f d) = ns) \<Longrightarrow>
   machine_ok ns (m\<lparr>m_trackers := map_option f (m_trackers m)\<rparr>)"
  by (auto simp: machine_ok_def)

lemma machine_ok_push [intro]: "machine_ok ns m \<Longrightarrow> machine_ok ns (push_metrics n ms m)"
  unfolding push_metrics_def
  by (erule machine_ok_trackers) (auto simp: dict_keys_set dict_in_def split: option.splits)

lemma metrics_keeps: "keeps (ok_world ns) metrics"
  by (rule keepsI) (auto simp: metrics_def ok_world_def machine_ok_def dict_keys_map_values
      split: option.splits)

lemma on_world_keeps [act_inv]: "keeps (ok_world ns) (on_world a)"
  by (rule keepsI) (auto simp: on_world_def ok_world_def split: prod.splits)

lemma post_completion_keeps: "keeps (ok_world ns) (post_completion ops wfl j)"
proof (rule keepsI)
  fix s :: "machine \<times> 'a"
  assume "ok_world ns s"
  then show "ok_world ns (snd (post_completion ops wfl j s))"
    by (cases s) (auto simp: post_completion_def attempt_def bind_def machine_get_def py_eval
        ok_world_def split: prod.splits sum.splits)
qed

lemma cleanup_keeps: "keeps (ok_world ns) (cleanup ops wfl)"
  unfolding cleanup_def machine_get_def
  by (intro act_inv) (auto intro!: act_inv split: option.split)

lemma entered_keeps:
  "machine_ok ns m \<Longrightarrow> n \<in> insert ''complete'' (set ns) \<Longrightarrow>
   machine_ok ns (fst (snd (entered ops wfl n (m, w))))"
  by (auto simp: entered_def Let_def split: prod.splits sum.splits)

lemma change_keeps:
  assumes "transition_choice (lib_pick L)" and "good_steps ns"
  shows "keeps (ok_world ns) (change L ops wfl)"
proof (rule keepsI)
  fix s :: "machine \<times> 'a"
  assume ok: "ok_world ns s"
  obtain m w where s: "s = (m, w)" by (cases s)
  have m: "machine_ok ns m" using ok s by (simp add: ok_world_def)
  have hd: "hd ns \<in> set ns" using assms(2) by (auto simp: good_steps_def)
  show "ok_world ns (snd (change L ops wfl s))"
  proof (cases "m_current m \<in> set ns")
    case True
    then show ?thesis
      using m hd next_in_range [OF True]
      by (simp add: s change_ok [OF assms m] ok_world_def entered_keeps)
  next
    case False
    then have "m_current m = ''start'' \<or> m_current m = ''complete''"
      using m by (auto simp: machine_ok_def)
    then show ?thesis
      using m hd by (auto simp: s change_ok [OF assms m] ok_world_def entered_keeps)
  qed
qed

section \<open>Calls and runs\<close>

datatype machine_call =
    CallSucceeded
  | CallFailed
  | CallRepeat string
  | CallRunning "string option"
  | CallChange
  | CallPostCompletion wjob
  | CallMetrics
  | CallCleanup

fun run_call :: "sm_lib \<Rightarrow> 'w tracker_ops \<Rightarrow> workflow \<Rightarrow> machine_call \<Rightarrow> machine \<times> 'w \<Rightarrow> machine \<times> 'w" where
  "run_call L ops wfl CallSucceeded s = snd (on_machine (mark_succeeded None) s)"
| "run_call L ops wfl CallFailed s = snd (on_machine (mark_failed None) s)"
| "run_call L ops wfl (CallRepeat n) s = snd (on_machine (mark_repeat n) s)"
| "run_call L ops wfl (CallRunning n) s = snd (on_machine (mark_running L n) s)"
| "run_call L ops wfl CallChange s = snd (change L ops wfl s)"
| "run_call L ops wfl (CallPostCompletion j) s = snd (post_completion ops wfl j s)"
| "run_call L ops wfl CallMetrics s = snd (metrics s)"
| "run_call L ops wfl CallCleanup s = snd (cleanup ops wfl s)"

text \<open>Every call the manager makes on a state machine keeps it well formed, including the calls
  that end in an exception: its current state stays \<open>start\<close>, \<open>complete\<close> or a step, the flags
  its guards read stay defined, and it keeps one tracker per step.\<close>

theorem run_call_keeps_ok:
  assumes "transition_choice (lib_pick L)" and "good_steps ns" and "machine_ok ns (fst s)"
  shows "machine_ok ns (fst (run_call L ops wfl c s))"
proof -
  have ok: "ok_world ns s" using assms(3) by (simp add: ok_world_def)
  have k: "keeps (ok_world ns) m \<Longrightarrow> machine_ok ns (fst (snd (m s)))" for m :: "('a, 'b) mact"
    using keepsD [of "ok_world ns" m s] ok by (cases "m s") (auto simp: ok_world_def)
  obtain m w where s: "s = (m, w)" by (cases s)
  show ?thesis
    using assms(3) k [OF change_keeps [OF assms(1,2)]] k [OF post_completion_keeps]
      k [OF metrics_keeps] k [OF cleanup_keeps]
    by (cases c) (auto simp: s on_machine_def py_eval)
qed

text \<open>The steps a machine has entered, in the order of the sequence.\<close>

definition visited :: "string list \<Rightarrow> string \<Rightarrow> string list" where
  "visited ns cur =
     (if cur = ''start'' then [] else if cur = ''complete'' then ns
      else takeWhile (\<lambda>n. n \<noteq> cur) ns @ [cur])"

text \<open>
  A call that stays in place leaves the steps ahead alone: the marks of a restart do not, and a mark for
  repeat only if the step has been entered.
\<close>

fun in_place :: "string list \<Rightarrow> string \<Rightarrow> machine_call \<Rightarrow> bool" where
  "in_place ns cur (CallRunning n) = False"
| "in_place ns cur (CallRepeat n) = (n \<in> set (visited ns cur))"
| "in_place ns cur _ = True"

text \<open>The states any sequence of calls leads to; the flag tells whether all of them stayed in place.\<close>

inductive machine_reach ::
  "sm_lib \<Rightarrow> 'w tracker_ops \<Rightarrow> workflow \<Rightarrow> string list \<Rightarrow> machine \<times> 'w \<Rightarrow> bool \<Rightarrow> machine \<times> 'w \<Rightarrow> bool"
  for L ops wfl ns s0 where
  reach_start: "machine_reach L ops wfl ns s0 True s0"
| reach_call: "machine_reach L ops wfl ns s0 b s \<Longrightarrow>
     machine_reach L ops wfl ns s0 (b \<and> in_place ns (m_current (fst s)) c) (run_call L ops wfl c s)"

inductive_cases machine_reach_cases: "machine_reach L ops wfl ns s0 b t"

lemma visited_next:
  assumes "distinct ns" and "s \<in> set ns" and "''start'' \<notin> set ns" and "''complete'' \<notin> set ns"
  shows "visited ns (next_in ns s) =
    visited ns s @ (if next_in ns s = ''complete'' then [] else [next_in ns s])"
proof -
  have *: "distinct ks \<Longrightarrow> s \<in> set ks \<Longrightarrow> ''complete'' \<notin> set ks \<Longrightarrow>
    (if next_in ks s = ''complete'' then ks else takeWhile (\<lambda>n. n \<noteq> next_in ks s) ks) =
    takeWhile (\<lambda>n. n \<noteq> s) ks @ [s]" for ks
  proof (induction ks)
    case Nil
    then show ?case by simp
  next
    case (Cons k ks)
    show ?case
    proof (cases "k = s")
      case True
      with Cons.prems show ?thesis by (cases ks) auto
    next
      case False
      with Cons.prems have s: "s \<in> set ks" by simp
      have "next_in ks s \<in> insert ''complete'' (set ks)" using s by (rule next_in_range)
      then have "k \<noteq> next_in ks s" using Cons.prems by auto
      with False s Cons show ?thesis by (simp split: if_splits)
    qed
  qed
  have s: "s \<noteq> ''start''" "s \<noteq> ''complete''" using assms by auto
  have n: "next_in ns s \<noteq> ''start''" using next_in_range [OF assms(2)] assms(3) by auto
  show ?thesis
    using * [OF assms(1,2,4)] s n by (auto simp: visited_def split: if_splits)
qed

lemma next_in_new:
  assumes "distinct ns" and "s \<in> set ns" and "''complete'' \<notin> set ns" and "''start'' \<notin> set ns"
    and "next_in ns s \<noteq> ''complete''"
  shows "next_in ns s \<notin> set (visited ns s)"
proof -
  have "next_in ns s \<in> set ns" using next_in_range [OF assms(2)] assms(5) by auto
  have "distinct (visited ns (next_in ns s))"
    using \<open>next_in ns s \<in> set ns\<close> assms(1)
    by (auto simp: visited_def distinct_takeWhile dest: set_takeWhileD)
  then show ?thesis using visited_next [OF assms(1,2,4,3)] assms(5) by simp
qed

text \<open>The invariant of a recorded run whose calls stay in place.\<close>

definition in_order :: "string list \<Rightarrow> string option \<Rightarrow> machine \<times> submission_call list \<Rightarrow> bool" where
  "in_order ns jid s = (case s of (m, h) \<Rightarrow>
     machine_ok ns m \<and> m_jobid m = jid \<and>
     (\<forall>n \<in> set ns - set (visited ns (m_current m)).
        \<not> flag m (success_flag n) \<and> \<not> flag m (failure_flag n) \<and> \<not> flag m (repeat_flag n)) \<and>
     map sc_step (filter (\<lambda>c. \<not> sc_repeat c) h) = visited ns (m_current m) \<and>
     (\<forall>c \<in> set h. sc_jobid c = jid \<and> sc_step c \<in> set (visited ns (m_current m))))"

lemma in_order_flag_change:
  assumes "in_order ns jid (m, h)" and "machine_ok ns m'" and "m_current m' = m_current m"
    and "m_jobid m' = m_jobid m"
    and "\<And>n. n \<in> set ns - set (visited ns (m_current m)) \<Longrightarrow>
      flag m' (success_flag n) = flag m (success_flag n) \<and>
      flag m' (failure_flag n) = flag m (failure_flag n) \<and>
      flag m' (repeat_flag n) = flag m (repeat_flag n)"
  shows "in_order ns jid (m', h)"
  using assms unfolding in_order_def by simp

lemma current_visited:
  "machine_ok ns m \<Longrightarrow> m_current m \<in> set ns \<Longrightarrow> good_steps ns \<Longrightarrow>
   m_current m \<in> set (visited ns (m_current m))"
  by (auto simp: visited_def good_steps_def)

lemma flag_set_flag: "flag (set_flag a b m) a' = (if a' = a then b else flag m a')"
  by (simp add: flag_def set_flag_def)

lemma set_flag_simps [simp]:
  "m_current (set_flag a b m) = m_current m" "m_jobid (set_flag a b m) = m_jobid m"
  by (simp_all add: set_flag_def)

text \<open>Setting a flag of a visited step, or of no step at all.\<close>

lemma in_order_set_flag:
  assumes "in_order ns jid (m, h)"
    and "\<And>k. k \<in> set ns - set (visited ns (m_current m)) \<Longrightarrow>
      a \<noteq> success_flag k \<and> a \<noteq> failure_flag k \<and> a \<noteq> repeat_flag k"
  shows "in_order ns jid (set_flag a b m, h)"
proof (rule in_order_flag_change [OF assms(1)])
  show "machine_ok ns (set_flag a b m)" using assms(1) by (auto simp: in_order_def)
qed (use assms(2) in \<open>auto simp: flag_set_flag\<close>)

lemma unvisited_not_current:
  assumes "in_order ns jid (m, h)" and "good_steps ns" and "k \<in> set ns - set (visited ns (m_current m))"
  shows "k \<noteq> m_current m"
  using assms current_visited by (auto simp: in_order_def)

lemma in_order_trackers:
  "in_order ns jid (m, h) \<Longrightarrow> machine_ok ns (m\<lparr>m_trackers := t\<rparr>) \<Longrightarrow>
   in_order ns jid (m\<lparr>m_trackers := t\<rparr>, h)"
  by (erule in_order_flag_change) (simp_all add: flag_def)

text \<open>Entering a visited step again records at most a repeated submission.\<close>

lemma in_order_repeat:
  assumes inv: "in_order ns jid (m, h)" and good: "good_steps ns" and n: "n = m_current m" "n \<in> set ns"
    and rep: "flag m (repeat_flag n)"
  shows "in_order ns jid (snd (entered (recording_ops ans lst logs) wfl n (m, h)))"
proof -
  have v: "n \<in> set (visited ns (m_current m))"
    using inv n good current_visited by (auto simp: in_order_def)
  define c where "c = \<lparr>sc_step = n, sc_jobid = m_jobid m, sc_repeat = True\<rparr>"
  have same: "m\<lparr>m_current := n\<rparr> = m" using n(1) by simp
  have hc: "in_order ns jid (m, h @ [c])"
    using inv v by (auto simp: in_order_def c_def)
  have un: "in_order ns jid (unmark_repeatable n m, h @ [c])"
    unfolding unmark_repeatable_def using v
    by (intro in_order_set_flag [OF hc]) auto
  show ?thesis
    using rep inv hc un
    by (auto simp: entered_def recording_ops_def Let_def same c_def [symmetric] split: sum.splits)
qed

text \<open>Entering the next step records its one fresh submission.\<close>

lemma in_order_next:
  assumes inv: "in_order ns jid (m, h)" and good: "good_steps ns"
    and vis: "visited ns n = visited ns (m_current m) @ (if n = ''complete'' then [] else [n])"
    and new: "n \<noteq> ''complete'' \<Longrightarrow> n \<in> set ns \<and> n \<notin> set (visited ns (m_current m))"
  shows "in_order ns jid (snd (entered (recording_ops ans lst logs) wfl n (m, h)))"
proof -
  have ok: "machine_ok ns (m\<lparr>m_current := n\<rparr>)"
    using inv new by (auto simp: in_order_def)
  have fl: "flag (m\<lparr>m_current := n\<rparr>) = flag m" by (rule ext) (simp add: flag_def)
  show ?thesis
  proof (cases "n = ''complete''")
    case True
    have "in_order ns jid (m\<lparr>m_current := n\<rparr>, h)"
      using inv vis ok fl True by (auto simp: in_order_def)
    with True show ?thesis by (simp add: entered_def Let_def)
  next
    case False
    define c where "c = \<lparr>sc_step = n, sc_jobid = m_jobid m, sc_repeat = False\<rparr>"
    have off: "\<not> flag m (success_flag n)" "\<not> flag m (failure_flag n)" "\<not> flag m (repeat_flag n)"
      using inv new [OF False] by (auto simp: in_order_def)
    have "in_order ns jid (m\<lparr>m_current := n\<rparr>, h @ [c])"
      using inv vis ok fl False by (auto simp: in_order_def c_def)
    with False off show ?thesis
      by (auto simp: entered_def recording_ops_def Let_def c_def [symmetric] split: sum.splits)
  qed
qed

text \<open>Every change either raises and leaves everything, or repeats the current step, or enters the next one.\<close>

lemma change_passes:
  assumes "transition_choice (lib_pick L)" and good: "good_steps ns" and ok: "machine_ok ns m"
  obtains (refused) "change L ops wfl (m, w) = (Inl TransitionNotAllowed, (m, w))"
    | (again) "change L ops wfl (m, w) = entered ops wfl (m_current m) (m, w)" "m_current m \<in> set ns"
        "flag m (repeat_flag (m_current m))"
    | (forward) n where "change L ops wfl (m, w) = entered ops wfl n (m, w)"
        "visited ns n = visited ns (m_current m) @ (if n = ''complete'' then [] else [n])"
        "n \<noteq> ''complete'' \<Longrightarrow> n \<in> set ns \<and> n \<notin> set (visited ns (m_current m))"
proof -
  have g: "distinct ns" "''start'' \<notin> set ns" "''complete'' \<notin> set ns" "ns \<noteq> []"
    using good by (auto simp: good_steps_def)
  note ch = change_ok [OF assms(1) good ok, of ops wfl w]
  consider "m_current m = ''start''" | "m_current m = ''complete''" | "m_current m \<in> set ns"
    using ok by (auto simp: machine_ok_def)
  then show ?thesis
  proof cases
    case 1
    obtain k ks where ns: "ns = k # ks" using g(4) by (cases ns) auto
    have k: "k \<noteq> ''start''" "k \<noteq> ''complete''" using g ns by auto
    show ?thesis by (rule forward [of k]) (use 1 k ns ch in \<open>simp_all add: visited_def\<close>)
  next
    case 2
    then show ?thesis using ch by (intro refused) simp
  next
    case 3
    then have cs: "m_current m \<noteq> ''start''" "m_current m \<noteq> ''complete''" using g by auto
    show ?thesis
    proof (cases "flag m (repeat_flag (m_current m))")
      case True
      then show ?thesis using cs ch 3 by (intro again) simp_all
    next
      case False
      show ?thesis
      proof (cases "flag m (success_flag (m_current m))")
        case True
        show ?thesis
          by (rule forward [of "next_in ns (m_current m)"])
            (use True False cs ch visited_next [OF g(1) 3 g(2) g(3)] next_in_range [OF 3]
              next_in_new [OF g(1) 3 g(3) g(2)] in auto)
      qed (use False cs ch in \<open>intro refused, simp\<close>)
    qed
  qed
qed

lemma in_order_change:
  assumes "transition_choice (lib_pick L)" and good: "good_steps ns" and inv: "in_order ns jid (m, h)"
  shows "in_order ns jid (snd (change L (recording_ops ans lst logs) wfl (m, h)))"
proof -
  have "machine_ok ns m" using inv by (simp add: in_order_def)
  from change_passes [OF assms(1) good this, where ops = "recording_ops ans lst logs" and wfl = wfl and w = h] show ?thesis
    by cases (use inv in_order_repeat [OF inv good refl] in_order_next [OF inv good] in auto)
qed

lemma in_order_call:
  assumes "transition_choice (lib_pick L)" and good: "good_steps ns" and inv: "in_order ns jid s"
    and allowed: "in_place ns (m_current (fst s)) c"
  shows "in_order ns jid (run_call L (recording_ops ans lst logs) wfl c s)"
proof -
  obtain m h where s: "s = (m, h)" by (cases s)
  have inv': "in_order ns jid (m, h)" using inv s by simp
  have ok: "machine_ok ns m" using inv' by (simp add: in_order_def)
  have cur: "m_current m \<in> set ns \<Longrightarrow> m_current m \<in> set (visited ns (m_current m))"
    using current_visited [OF ok _ good] .
  show ?thesis
  proof (cases c)
    case CallSucceeded
    show ?thesis
      using cur inv'
      by (auto simp: CallSucceeded s on_machine_def py_eval mark_succeeded_def or_current_def Let_def
          intro!: in_order_set_flag)
  next
    case CallFailed
    show ?thesis
      using cur inv'
      by (auto simp: CallFailed s on_machine_def py_eval mark_failed_def or_current_def
          intro!: in_order_set_flag)
  next
    case (CallRepeat n)
    then show ?thesis
      using allowed inv'
      by (auto simp: s on_machine_def py_eval mark_repeat_def intro!: in_order_set_flag)
  next
    case (CallRunning n)
    then show ?thesis using allowed by simp
  next
    case CallChange
    then show ?thesis using in_order_change [OF assms(1) good inv'] by (simp add: s)
  next
    case (CallPostCompletion j)
    have "in_order ns jid (push_metrics k ms m, h)" for k ms
      unfolding push_metrics_def
      by (rule in_order_trackers [OF inv']) (use machine_ok_push [OF ok] in \<open>simp add: push_metrics_def\<close>)
    with CallPostCompletion inv' show ?thesis
      by (auto simp: s post_completion_def attempt_def bind_def machine_get_def py_eval
          recording_ops_def split: prod.splits sum.splits)
  next
    case CallMetrics
    have ok': "machine_ok ns (m\<lparr>m_trackers := map_option (map (\<lambda>(n, _). (n, []))) (m_trackers m)\<rparr>)"
      by (rule machine_ok_trackers [OF ok]) (simp add: dict_keys_map_values)
    with CallMetrics inv' ok show ?thesis
      by (auto simp: s metrics_def machine_ok_def intro!: in_order_trackers split: option.splits)
  next
    case CallCleanup
    have "snd (for_each ks (\<lambda>n. attempt (on_world (op_cleanup (recording_ops ans lst logs) wfl n i))
        (\<lambda>_. ret ())) (m, h)) = (m, h)" for ks i
      by (induction ks) (simp_all add: attempt_def on_world_def recording_ops_def py_eval)
    with CallCleanup inv' show ?thesis
      by (auto simp: s cleanup_def bind_def machine_get_def py_eval split: option.splits)
  qed
qed

text \<open>The invariant of any recorded run.\<close>

definition ordered :: "string list \<Rightarrow> string option \<Rightarrow> machine \<times> submission_call list \<Rightarrow> bool" where
  "ordered ns jid s = (case s of (m, h) \<Rightarrow>
     machine_ok ns m \<and> m_jobid m = jid \<and>
     subseq (map sc_step (filter (\<lambda>c. \<not> sc_repeat c) h)) (visited ns (m_current m)) \<and>
     (\<forall>c \<in> set h. sc_jobid c = jid \<and> sc_step c \<in> set (visited ns (m_current m))))"

lemma ordered_same:
  "ordered ns jid (m, h) \<Longrightarrow> machine_ok ns m' \<Longrightarrow> m_current m' = m_current m \<Longrightarrow> m_jobid m' = m_jobid m \<Longrightarrow>
   ordered ns jid (m', h)"
  by (simp add: ordered_def)

lemma unmark_repeatable_simps [simp]:
  "m_current (unmark_repeatable n m) = m_current m" "m_jobid (unmark_repeatable n m) = m_jobid m"
  by (simp_all add: unmark_repeatable_def)

lemma ordered_again:
  assumes inv: "ordered ns jid (m, h)" and good: "good_steps ns" and n: "m_current m \<in> set ns"
    and rep: "flag m (repeat_flag (m_current m))"
  shows "ordered ns jid (snd (entered (recording_ops ans lst logs) wfl (m_current m) (m, h)))"
proof -
  have ok: "machine_ok ns m" "machine_ok ns (unmark_repeatable (m_current m) m)"
    using inv by (auto simp: ordered_def)
  have "m_current m \<in> set (visited ns (m_current m))" by (rule current_visited [OF ok(1) n good])
  then show ?thesis
    using inv rep ok
    by (auto simp: entered_def recording_ops_def Let_def ordered_def split: sum.splits)
qed

lemma ordered_forward:
  assumes inv: "ordered ns jid (m, h)"
    and vis: "visited ns n = visited ns (m_current m) @ (if n = ''complete'' then [] else [n])"
    and new: "n \<noteq> ''complete'' \<Longrightarrow> n \<in> set ns \<and> n \<notin> set (visited ns (m_current m))"
  shows "ordered ns jid (snd (entered (recording_ops ans lst logs) wfl n (m, h)))"
proof -
  have ok: "machine_ok ns (m\<lparr>m_current := n\<rparr>)"
    using inv new by (auto simp: ordered_def)
  then have ok': "machine_ok ns (unmark_repeatable n (m\<lparr>m_current := n\<rparr>))" by auto
  show ?thesis
    using inv vis ok ok'
    by (auto simp: entered_def recording_ops_def Let_def ordered_def subseq_rev_drop_many list_emb_append_mono split: sum.splits if_splits)
qed

lemma mark_simps [simp]:
  "m_current (mark_succeeded s m) = m_current m" "m_jobid (mark_succeeded s m) = m_jobid m"
  "m_trackers (mark_succeeded s m) = m_trackers m" "m_states (mark_succeeded s m) = m_states m"
  "m_trans (mark_succeeded s m) = m_trans m"
  "m_current (mark_failed s m) = m_current m" "m_jobid (mark_failed s m) = m_jobid m"
  "m_current (mark_repeat n m) = m_current m" "m_jobid (mark_repeat n m) = m_jobid m"
  "m_current (push_metrics n ms m) = m_current m" "m_jobid (push_metrics n ms m) = m_jobid m"
  by (simp_all add: mark_succeeded_def mark_failed_def mark_repeat_def push_metrics_def Let_def set_flag_def)

lemma mark_running_loop_simps [simp]:
  "m_current (mark_running_loop L n ss m) = m_current m"
  "m_jobid (mark_running_loop L n ss m) = m_jobid m"
  "m_trackers (mark_running_loop L n ss m) = m_trackers m"
  by (induction ss arbitrary: m) simp_all

lemma ordered_call:
  assumes "transition_choice (lib_pick L)" and good: "good_steps ns" and inv: "ordered ns jid (m, h)"
  shows "ordered ns jid (run_call L (recording_ops ans lst logs) wfl c (m, h))"
proof -
  have ok: "machine_ok ns m" using inv by (simp add: ordered_def)
  note ok' = run_call_keeps_ok [OF assms(1) good, of "(m, h)", unfolded fst_conv, OF ok, where wfl = wfl]
  show ?thesis
  proof (cases c)
    case CallChange
    from change_passes [OF assms(1) good ok, where ops = "recording_ops ans lst logs" and wfl = wfl and w = h] show ?thesis
      by cases (use CallChange inv ordered_again [OF inv good] ordered_forward [OF inv] in auto)
  next
    case CallCleanup
    have "snd (for_each ks (\<lambda>n. attempt (on_world (op_cleanup (recording_ops ans lst logs) wfl n i))
        (\<lambda>_. ret ())) (m, h)) = (m, h)" for ks i
      by (induction ks) (simp_all add: attempt_def on_world_def recording_ops_def py_eval)
    with CallCleanup inv show ?thesis
      by (auto simp: cleanup_def bind_def machine_get_def py_eval split: option.splits)
  next
    case (CallPostCompletion j)
    with inv ok' [of "recording_ops ans lst logs" c] show ?thesis
      by (auto simp: post_completion_def attempt_def bind_def machine_get_def py_eval
          recording_ops_def intro: ordered_same split: prod.splits sum.splits)
  next
    case CallMetrics
    with inv ok' [of "recording_ops ans lst logs" c] show ?thesis
      by (auto simp: metrics_def intro: ordered_same split: option.splits)
  qed (use inv ok' [of "recording_ops ans lst logs" c] in
      \<open>auto simp: on_machine_def py_eval mark_running_def intro!: ordered_same [OF inv]\<close>)
qed

text \<open>C6. Over any sequence of calls on a job sequence, the marks of a restart and repeats of any step
  included, with the scheduler answering the submissions in any way: every submission carries the
  sequence's job identifier and is for a step the sequence has entered, and the submissions that
  are not repeats are for steps entered, at most one for each, in the order of the workflow. As
  long as no marks of a restart are made and only steps already entered are marked for repeat,
  they are exactly the steps entered: none is skipped.\<close>

theorem submissions_in_order:
  assumes "transition_choice (lib_pick L)" and "good_steps ns"
    and "machine_reach L (recording_ops ans lst logs) wfl ns (m0, []) plain (m, h)"
    and "machine_ok ns m0" and "m_current m0 = ''start''" and "all_false (m_attrs m0)"
  shows "subseq (map sc_step (filter (\<lambda>c. \<not> sc_repeat c) h)) (visited ns (m_current m)) \<and>
    distinct (visited ns (m_current m)) \<and>
    (\<forall>c \<in> set h. sc_jobid c = m_jobid m0 \<and> sc_step c \<in> set (visited ns (m_current m))) \<and>
    (plain \<longrightarrow> map sc_step (filter (\<lambda>c. \<not> sc_repeat c) h) = visited ns (m_current m))"
proof -
  have base: "in_order ns (m_jobid m0) (m0, [])" "ordered ns (m_jobid m0) (m0, [])"
    using assms(4-6) by (auto simp: in_order_def ordered_def visited_def flag_def all_false_def) (metis rangeI)+
  have "machine_reach L (recording_ops ans lst logs) wfl ns (m0, []) b s \<Longrightarrow>
      ordered ns (m_jobid m0) s \<and> (b \<longrightarrow> in_order ns (m_jobid m0) s)" for b s
  proof (induction rule: machine_reach.induct)
    case reach_start
    show ?case using base by simp
  next
    case (reach_call b s c)
    then show ?case
      using in_order_call [OF assms(1,2)] ordered_call [OF assms(1,2)] by (cases s) auto
  qed
  from this [OF assms(3)] assms(2) show ?thesis
    by (auto simp: in_order_def ordered_def visited_def good_steps_def distinct_takeWhile dest: set_takeWhileD)
qed

section \<open>Creating a machine\<close>

lemma new_tracker_step:
  "andthen (on_world (op_new ops wfl n)) (on_machine (add_tracker n)) (m, w) =
    (case op_new ops wfl n w of (Inl e, w') \<Rightarrow> (Inl e, (m, w')) | (Inr _, w') \<Rightarrow> (Inr (), (add_tracker n m, w')))"
  by (simp add: andthen_def bind_def on_world_def on_machine_def py_eval split: prod.splits sum.splits)

lemma add_tracker_loop:
  assumes "for_each ks (\<lambda>n. andthen (on_world (op_new ops wfl n)) (on_machine (add_tracker n))) (m, w)
    = (Inr (), (m', w'))"
  shows "m' = m\<lparr>m_trackers := map_option (fold (\<lambda>n. dict_set n []) ks) (m_trackers m)\<rparr>"
  using assms
proof (induction ks arbitrary: m w)
  case Nil
  then show ?case by (cases "m_trackers m") simp_all
next
  case (Cons k ks)
  then obtain w1 where "for_each ks (\<lambda>n. andthen (on_world (op_new ops wfl n)) (on_machine (add_tracker n)))
      (add_tracker k m, w1) = (Inr (), (m', w'))"
    by (auto simp: new_tracker_step split: prod.splits sum.splits)
  from Cons.IH [OF this] show ?case
    by (cases "m_trackers m") (simp_all add: add_tracker_def)
qed

text \<open>Apart from the machine, creation makes one tracker for each step.\<close>

lemma new_trackers_world:
  assumes "for_each ks (\<lambda>n. andthen (on_world (op_new ops wfl n)) (on_machine (add_tracker n))) (m, w)
    = (Inr (), (m', w'))"
  shows "for_each ks (op_new ops wfl) w = (Inr (), w')"
  using assms
proof (induction ks arbitrary: m w)
  case (Cons k ks)
  then show ?case by (auto simp: new_tracker_step split: prod.splits sum.splits)
qed simp

lemma created_world:
  assumes "good_steps (dict_keys (jobs wfl))"
    and "new_state_machine wfl jid = Inr c"
    and "create_state_machine_job ops wfl c w = (Inr m, w')"
  shows "for_each (dict_keys (jobs wfl)) (op_new ops wfl) w = (Inr (), w')"
proof -
  let ?ns = "dict_keys (jobs wfl)"
  have c: "c_states c = ''start'' # ''complete'' # ?ns"
    using new_state_machine_class [OF assms(1), of jid] assms(2) by auto
  have "for_each ?ns (\<lambda>n. andthen (on_world (op_new ops wfl n)) (on_machine (add_tracker n)))
      ((fresh_machine c)\<lparr>m_trackers := Some []\<rparr>, w) = (Inr (), (m, w'))"
    using assms(3) step_states_ok [OF assms(1)] c
    by (auto simp: create_state_machine_job_def on_enter_start_def init_trackers_def bind_def
        andthen_def machine_get_def on_machine_def py_eval fresh_machine_def split: prod.splits sum.splits)
  then show ?thesis by (rule new_trackers_world)
qed

lemma fold_trackers:
  "distinct ks \<Longrightarrow> set ks \<inter> set (dict_keys d) = {} \<Longrightarrow>
   dict_keys (fold (\<lambda>n. dict_set n []) ks d) = dict_keys d @ ks"
  by (induction ks arbitrary: d) (auto simp: dict_keys_set dict_in_keys)

lemma fold_trackers_empty:
  "(\<And>k l. dict_get d k = Some l \<Longrightarrow> l = []) \<Longrightarrow>
   dict_get (fold (\<lambda>n. dict_set n []) ks d) k = Some l \<Longrightarrow> l = []"
proof (induction ks arbitrary: d)
  case Nil
  then show ?case by simp
next
  case (Cons a ks)
  from Cons.prems(2) have "dict_get (fold (\<lambda>n. dict_set n []) ks (dict_set a [] d)) k = Some l"
    by simp
  then show ?case
    by (rule Cons.IH [rotated]) (use Cons.prems(1) in \<open>auto split: if_splits\<close>)
qed

lemma created_machine:
  assumes "good_steps (dict_keys (jobs wfl))"
    and "new_state_machine wfl jid = Inr c"
    and "create_state_machine_job ops wfl c w = (Inr m, w')"
  shows "machine_ok (dict_keys (jobs wfl)) m \<and> m_current m = ''start'' \<and> m_jobid m = jid \<and>
    all_false (m_attrs m) \<and> m_attrs m ''is_complete'' = Some False \<and>
    (\<exists>d. m_trackers m = Some d \<and> dict_keys d = dict_keys (jobs wfl) \<and> (\<forall>n l. dict_get d n = Some l \<longrightarrow> l = []))"
proof -
  let ?ns = "dict_keys (jobs wfl)"
  have c: "c_jobid c = jid" "c_states c = ''start'' # ''complete'' # ?ns"
    "c_trans c = class_trans ?ns" "all_false (c_attrs c)" "flags_declared ?ns (c_attrs c)"
    "c_attrs c ''is_complete'' = Some False"
    using new_state_machine_class [OF assms(1), of jid] assms(2) by auto
  define m0 where "m0 = (fresh_machine c)\<lparr>m_trackers := Some []\<rparr>"
  have "for_each ?ns (\<lambda>n. andthen (on_world (op_new ops wfl n)) (on_machine (add_tracker n))) (m0, w)
      = (Inr (), (m, w'))"
    using assms(3) step_states_ok [OF assms(1)] c(2)
    by (auto simp: create_state_machine_job_def on_enter_start_def init_trackers_def bind_def
        andthen_def machine_get_def on_machine_def py_eval fresh_machine_def m0_def
        split: prod.splits sum.splits)
  from add_tracker_loop [OF this] have m: "m = m0\<lparr>m_trackers := Some (fold (\<lambda>n. dict_set n []) ?ns [])\<rparr>"
    by (simp add: m0_def)
  have "dict_keys (fold (\<lambda>n. dict_set n []) ?ns []) = ?ns"
    using fold_trackers [of ?ns "[]"] assms(1) by (simp add: good_steps_def dict_keys_def)
  moreover have "\<forall>n l. dict_get (fold (\<lambda>n. dict_set n []) ?ns []) n = Some l \<longrightarrow> l = []"
    using fold_trackers_empty [of "[]"] by auto
  ultimately show ?thesis
    using c by (simp add: m m0_def fresh_machine_def machine_ok_def)
qed

text \<open>Creating the state machine of a job sequence over good steps gives a well-formed instance
  in \<open>start\<close>, under the identifier asked for, with no flag set, not complete, and with one
  tracker per step in the order of the workflow, none of which holds a metric.\<close>

theorem created_machine_ok:
  assumes "good_steps (dict_keys (jobs wfl))"
    and "new_state_machine wfl jid = Inr c"
    and "create_state_machine_job ops wfl c w = (Inr m, w')"
  shows "machine_ok (dict_keys (jobs wfl)) m \<and> m_current m = ''start'' \<and> m_jobid m = jid \<and>
    all_false (m_attrs m) \<and> m_attrs m ''is_complete'' = Some False \<and>
    (\<exists>d. m_trackers m = Some d \<and> dict_keys d = dict_keys (jobs wfl) \<and> (\<forall>n l. dict_get d n = Some l \<longrightarrow> l = []))"
  by (rule created_machine [OF assms])

end
