(* ===== verification/Machine_Restart.thy ===== *)
theory Machine_Restart
  imports Machine_Runs
begin

text \<open>
  Rebuilding a state machine for a job found in the cluster (\<open>mark_running\<close>), and what
  happens when the events of that job arrive afterwards. The element of \<open>machine.states\<close> the
  loop compares with the step name belongs to the state machine package: what the loop marks is stated
  for whatever comparison and printing a package has, what follows from it for the documented ones.
\<close>

section \<open>What \<open>mark_running\<close> marks\<close>

lemma mark_succeeded_flags:
  assumes "n \<noteq> []"
  shows "flag (mark_succeeded (Some n) m) a \<longleftrightarrow>
    flag m a \<or> (a = success_flag n \<and> \<not> flag m (repeat_flag n))"
  using assms by (auto simp: mark_succeeded_def or_current_def flag_set_flag)

lemma mark_running_loop_flags:
  assumes "\<forall>s \<in> set ss. lib_text L s \<noteq> []"
  shows "flag (mark_running_loop L n ss m) a \<longleftrightarrow> flag m a \<or>
    (\<exists>s \<in> set (takeWhile (\<lambda>s. \<not> lib_same L s n) ss).
       a = success_flag (lib_text L s) \<and> \<not> flag m (repeat_flag (lib_text L s)))"
  using assms
proof (induction ss arbitrary: m)
  case Nil
  then show ?case by simp
next
  case (Cons s ss)
  then show ?case by (auto simp: mark_succeeded_flags)
qed

lemma mark_running_flags:
  assumes "\<forall>s \<in> set (m_states m). lib_text L s \<noteq> []"
  shows "flag (mark_running L n m) a \<longleftrightarrow> flag m a \<or>
      (\<exists>s \<in> set (takeWhile (\<lambda>s. \<not> lib_same L s n) (m_states m)).
         a = success_flag (lib_text L s) \<and> \<not> flag m (repeat_flag (lib_text L s)))"
    and "m_current (mark_running L n m) = m_current m"
    and "m_jobid (mark_running L n m) = m_jobid m"
  using mark_running_loop_flags [OF assms] by (simp_all add: mark_running_def)

text \<open>\<open>mark_running\<close> marks successful exactly the names the states print before the first
  state that compares equal to the given step, except steps marked for repeat; it changes
  no other flag, and not the current state.\<close>

theorem mark_running_marks_earlier_steps:
  assumes "\<forall>s \<in> set (m_states m). lib_text L s \<noteq> []"
  shows "(flag (mark_running L n m) a \<longleftrightarrow> flag m a \<or>
      (\<exists>s \<in> set (takeWhile (\<lambda>s. \<not> lib_same L s n) (m_states m)).
         a = success_flag (lib_text L s) \<and> \<not> flag m (repeat_flag (lib_text L s)))) \<and>
    m_current (mark_running L n m) = m_current m"
  by (simp add: mark_running_flags [OF assms])

section \<open>Events after a restart\<close>

text \<open>
  A successful job's event marks the current state of its machine and fires \<open>change\<close>
  (\<open>succeed_job\<close> of the manager); \<open>catch_up j\<close> is the state after \<open>j\<close> such events, whether or not
  their submissions raised.
\<close>

definition success_event :: "sm_lib \<Rightarrow> 'w tracker_ops \<Rightarrow> workflow \<Rightarrow> ('w, unit) mact" where
  "success_event L ops wfl = andthen (on_machine (mark_succeeded None)) (change L ops wfl)"

fun catch_up :: "sm_lib \<Rightarrow> 'w tracker_ops \<Rightarrow> workflow \<Rightarrow> nat \<Rightarrow> machine \<times> 'w \<Rightarrow> machine \<times> 'w" where
  "catch_up L ops wfl 0 s = s"
| "catch_up L ops wfl (Suc j) s = snd (success_event L ops wfl (catch_up L ops wfl j s))"

text \<open>
  The states of the package, as it documents them: a state is an object that equals no string, and it
  prints as its name, which is the identifier with blanks for underscores and only the first letter
  in upper case, because the code gives the states no names.
\<close>

definition upper_char :: "char \<Rightarrow> char" where
  "upper_char c = (let n = of_char c :: nat in if 97 \<le> n \<and> n \<le> 122 then char_of (n - 32) else c)"

fun capitalize :: "string \<Rightarrow> string" where
  "capitalize [] = []"
| "capitalize (c # cs) = upper_char c # lower cs"

definition state_name :: "string \<Rightarrow> string" where
  "state_name i = capitalize (replace_char (CHR ''_'') (CHR '' '') i)"

definition package_states :: "sm_lib \<Rightarrow> bool" where
  "package_states L \<longleftrightarrow> lib_same L = (\<lambda>i n. False) \<and> lib_text L = state_name"

text \<open>No step is called like the printed name of a state, as \<open>Start\<close> would be.\<close>

definition unlike_names :: "string list \<Rightarrow> bool" where
  "unlike_names ns \<longleftrightarrow> set ns \<inter> state_name ` set (''start'' # ''complete'' # ns) = {}"

lemma state_name_nonempty: "state_name i = [] \<longleftrightarrow> i = []"
  by (cases i) (simp_all add: state_name_def replace_char_def)

text \<open>The machine after \<open>j\<close> successes: it stands in the \<open>j\<close>-th step, and the steps before have their marks.\<close>

definition reached :: "string list \<Rightarrow> nat \<Rightarrow> machine \<Rightarrow> bool" where
  "reached ns j m \<longleftrightarrow> machine_ok ns m \<and> m_current m = (if j = 0 then ''start'' else ns ! (j - 1)) \<and>
     (\<forall>a. \<not> flag m (failure_flag a) \<and> \<not> flag m (repeat_flag a)) \<and>
     (\<forall>k \<in> set ns. flag m (success_flag k) \<longleftrightarrow> k \<in> set (take (j - 1) ns))"

lemma reached_mark_running:
  assumes "package_states L" and "good_steps ns" and "unlike_names ns" and "machine_ok ns m"
    and "m_current m = ''start''" and "all_false (m_attrs m)"
  shows "reached ns 0 (mark_running L n m)"
proof -
  have f: "\<not> flag m a" for a
    using assms(6) by (auto simp: flag_def all_false_def) (metis rangeI)
  have st: "m_states m = ''start'' # ''complete'' # ns" using assms(4) by (simp add: machine_ok_def)
  have ne: "\<forall>s \<in> set (m_states m). lib_text L s \<noteq> []"
    using assms(1,2) by (auto simp: st package_states_def state_name_nonempty good_steps_def)
  have all: "takeWhile (\<lambda>s. \<not> lib_same L s n) (m_states m) = m_states m"
    using assms(1) by (simp add: package_states_def)
  have fl: "flag (mark_running L n m) a \<longleftrightarrow> (\<exists>s \<in> set (m_states m). a = success_flag (state_name s))" for a
    using mark_running_flags(1) [OF ne, of n a, unfolded all] assms(1) f by (simp add: package_states_def)
  have "\<not> flag (mark_running L n m) (success_flag k)" if "k \<in> set ns" for k
    using assms(3) that by (auto simp: fl st unlike_names_def)
  then show ?thesis
    using assms(4,5) mark_running_flags(2) [OF ne, of n] by (auto simp: reached_def fl)
qed

lemma next_in_nth: "distinct ns \<Longrightarrow> Suc i < length ns \<Longrightarrow> next_in ns (ns ! i) = ns ! Suc i"
proof (induction ns arbitrary: i)
  case (Cons n ns)
  show ?case
  proof (cases i)
    case 0
    with Cons.prems show ?thesis by (cases ns) auto
  next
    case (Suc k)
    with Cons.prems have "ns ! k \<in> set ns" "n \<notin> set ns" by auto
    then have "n \<noteq> ns ! k" by metis
    with Cons Suc show ?thesis by simp
  qed
qed simp

text \<open>The next success enters the next step and submits it.\<close>

lemma reached_success:
  assumes "transition_choice (lib_pick L)" and good: "good_steps ns" and r: "reached ns j m" and j: "j < length ns"
  shows "\<exists>m'. success_event L (recording_ops ans lst logs) wfl (m, h) =
      (case ans h \<lparr>sc_step = ns ! j, sc_jobid = m_jobid m, sc_repeat = False\<rparr> of
          Inl e \<Rightarrow> Inl e | Inr _ \<Rightarrow> Inr (),
       (m', h @ [\<lparr>sc_step = ns ! j, sc_jobid = m_jobid m, sc_repeat = False\<rparr>])) \<and>
    reached ns (Suc j) m' \<and> m_jobid m' = m_jobid m"
proof -
  have g: "distinct ns" "''start'' \<notin> set ns" "''complete'' \<notin> set ns" "ns \<noteq> []"
    using good by (auto simp: good_steps_def)
  define m1 where "m1 = mark_succeeded None m"
  have fl: "flag m1 a \<longleftrightarrow> flag m a \<or> a = success_flag (m_current m)" for a
    using r by (auto simp: m1_def mark_succeeded_def or_current_def Let_def flag_set_flag reached_def)
  have ok: "machine_ok ns m1" using r by (auto simp: m1_def reached_def)
  have m1: "m_current m1 = m_current m" "m_jobid m1 = m_jobid m" by (simp_all add: m1_def)
  have suc: "flag m1 (success_flag k) \<longleftrightarrow> k \<in> set (take j ns)" if "k \<in> set ns" for k
  proof (cases j)
    case 0
    then show ?thesis using r that g by (auto simp: fl reached_def)
  next
    case (Suc i)
    then have "take j ns = take i ns @ [m_current m]"
      using r j by (simp add: reached_def take_Suc_conv_app_nth)
    then show ?thesis using r that Suc by (auto simp: fl reached_def)
  qed
  have no: "\<not> flag m1 (failure_flag a)" "\<not> flag m1 (repeat_flag a)" for a
    using r by (auto simp: fl reached_def)
  have new: "ns ! j \<in> set ns" "ns ! j \<notin> set (take j ns)" "ns ! j \<noteq> ''complete''"
    using j g by (auto simp: in_set_conv_nth nth_eq_iff_index_eq)
  have go: "change L (recording_ops ans lst logs) wfl (m1, h) = entered (recording_ops ans lst logs) wfl (ns ! j) (m1, h)"
  proof (cases j)
    case 0
    then show ?thesis using change_ok [OF assms(1) good ok] r g by (simp add: m1 reached_def hd_conv_nth)
  next
    case (Suc i)
    have c: "m_current m1 = ns ! i" "ns ! i \<in> set ns" using r Suc j by (simp_all add: m1 reached_def)
    have s: "flag m1 (success_flag (ns ! i))"
      using suc [OF c(2)] Suc j by (auto simp: in_set_conv_nth)
    have "next_in ns (ns ! i) = ns ! j" using next_in_nth [OF g(1)] Suc j by simp
    moreover have "ns ! i \<noteq> ''start''" "ns ! i \<noteq> ''complete''" using c(2) g by auto
    ultimately show ?thesis using change_ok [OF assms(1) good ok] c s no by simp
  qed
  have after: "reached ns (Suc j) (m1\<lparr>m_current := ns ! j\<rparr>)"
    using ok new suc no by (auto simp: reached_def flag_def)
  have "\<not> flag m1 (success_flag (ns ! j))" using suc new by simp
  then have "entered (recording_ops ans lst logs) wfl (ns ! j) (m1, h) =
      (case ans h \<lparr>sc_step = ns ! j, sc_jobid = m_jobid m, sc_repeat = False\<rparr> of
          Inl e \<Rightarrow> Inl e | Inr _ \<Rightarrow> Inr (),
       (m1\<lparr>m_current := ns ! j\<rparr>, h @ [\<lparr>sc_step = ns ! j, sc_jobid = m_jobid m, sc_repeat = False\<rparr>]))"
    using new no m1 by (simp add: entered_def recording_ops_def Let_def split: sum.splits)
  moreover have "success_event L (recording_ops ans lst logs) wfl (m, h) = change L (recording_ops ans lst logs) wfl (m1, h)"
    by (simp add: success_event_def andthen_def bind_def on_machine_def py_eval m1_def)
  ultimately show ?thesis using go after m1(2) by (intro exI [of _ "m1\<lparr>m_current := ns ! j\<rparr>"]) simp
qed

text \<open>C26. A machine rebuilt for a job found in the cluster starts over, whatever step the job runs. No state
  object equals the name of a step and none prints as one, so the marks that are made belong to no
  step: the first event that reports a success enters the first step of the sequence and submits
  it again, each further event the next step, so after \<open>j\<close> of them the first \<open>j\<close> steps have
  been submitted once more, in order and as fresh submissions, whatever had been finished before.\<close>

theorem restart_resubmits_sequence:
  assumes "transition_choice (lib_pick L)" and "package_states L"
    and "good_steps ns" and "unlike_names ns" and "machine_ok ns m"
    and "m_current m = ''start''" and "all_false (m_attrs m)" and "j \<le> length ns"
  shows "m_current (fst (catch_up L (recording_ops ans lst logs) wfl j (mark_running L n m, h))) =
      (if j = 0 then ''start'' else ns ! (j - 1)) \<and>
    snd (catch_up L (recording_ops ans lst logs) wfl j (mark_running L n m, h)) =
      h @ map (\<lambda>k. \<lparr>sc_step = k, sc_jobid = m_jobid m, sc_repeat = False\<rparr>) (take j ns)"
proof -
  have "\<exists>mj. catch_up L (recording_ops ans lst logs) wfl j (mark_running L n m, h) =
      (mj, h @ map (\<lambda>k. \<lparr>sc_step = k, sc_jobid = m_jobid m, sc_repeat = False\<rparr>) (take j ns)) \<and>
      reached ns j mj \<and> m_jobid mj = m_jobid m"
    using assms(8)
  proof (induction j)
    case 0
    then show ?case using reached_mark_running [OF assms(2-7)] by (simp add: mark_running_def)
  next
    case (Suc j)
    then obtain mj where mj: "catch_up L (recording_ops ans lst logs) wfl j (mark_running L n m, h) =
        (mj, h @ map (\<lambda>k. \<lparr>sc_step = k, sc_jobid = m_jobid m, sc_repeat = False\<rparr>) (take j ns))"
      "reached ns j mj" "m_jobid mj = m_jobid m" by auto
    have j: "j < length ns" using Suc.prems by simp
    let ?h = "h @ map (\<lambda>k. \<lparr>sc_step = k, sc_jobid = m_jobid m, sc_repeat = False\<rparr>) (take j ns)"
    obtain x m' where "success_event L (recording_ops ans lst logs) wfl (mj, ?h) =
        (x, m', ?h @ [\<lparr>sc_step = ns ! j, sc_jobid = m_jobid m, sc_repeat = False\<rparr>])"
      "reached ns (Suc j) m'" "m_jobid m' = m_jobid m"
      using reached_success [OF assms(1,3) mj(2) j, of ans lst logs wfl ?h] mj(3) by metis
    with mj(1) show ?case by (simp add: take_Suc_conv_app_nth [OF j])
  qed
  then show ?thesis by (auto simp: reached_def)
qed

end
