(* ===== verification/Machine_Examples.thy ===== *)
theory Machine_Examples
  imports Machine_Restart
begin

text \<open>
  Concrete state machines: a package that takes the first enabled transition and whose states
  compare and print as documented, a workflow of two steps, and one run of it. The
  theorems about machines are applied to them.
\<close>

section \<open>The example machine\<close>

definition example_lib :: sm_lib where
  "example_lib = \<lparr>lib_pick = first_enabled, lib_same = (\<lambda>i n. False), lib_text = state_name\<rparr>"

definition example_ops :: "submission_call list tracker_ops" where
  "example_ops = recording_ops
     (\<lambda>h c. Inr \<lparr>status = SubmitOK, return_code = 0\<rparr>) (\<lambda>h. Inr no_jobs) (\<lambda>h n. [])"

definition example_wfl :: workflow where
  "example_wfl = example_loaded []"

definition example_steps :: "string list" where
  "example_steps = [''job_a'', ''job_b'']"

definition example_class :: machine_class where
  "example_class = (case new_state_machine example_wfl (Some ''job_7'') of Inr c \<Rightarrow> c | Inl _ \<Rightarrow> empty_class (Some ''job_7''))"

definition example_machine :: machine where
  "example_machine = (fresh_machine example_class)\<lparr>m_trackers := Some [(''job_a'', []), (''job_b'', [])]\<rparr>"

lemma example_pick: "transition_choice (lib_pick example_lib)"
  by (simp add: example_lib_def choice.transition_choice_axioms)

lemma example_states: "package_states example_lib"
  by (simp add: package_states_def example_lib_def)

lemma example_good: "good_steps example_steps"
  by (simp add: good_steps_def example_steps_def)

lemma example_keys: "dict_keys (jobs example_wfl) = example_steps"
  by (simp add: example_wfl_def example_loaded_def example_steps_def dict_keys_def)

lemma example_new: "new_state_machine example_wfl (Some ''job_7'') = Inr example_class"
proof -
  have "good_steps (dict_keys (jobs example_wfl))" by (simp add: example_keys example_good)
  from new_state_machine_class [OF this, of "Some ''job_7''"] obtain c where
    "new_state_machine example_wfl (Some ''job_7'') = Inr c" by auto
  then show ?thesis by (simp add: example_class_def)
qed

lemma example_create: "create_state_machine_job example_ops example_wfl example_class [] = (Inr example_machine, [])"
proof -
  have "good_steps (dict_keys (jobs example_wfl))" by (simp add: example_keys example_good)
  from new_state_machine_class [OF this, of "Some ''job_7''"] have
    st: "c_states example_class = ''start'' # ''complete'' # example_steps"
    by (auto simp: example_new example_keys)
  have "step_states (''start'' # ''complete'' # example_steps) = example_steps"
    by (rule step_states_ok [OF example_good])
  with st show ?thesis
    by (simp add: create_state_machine_job_def on_enter_start_def init_trackers_def machine_get_def
        fresh_machine_def bind_def andthen_def on_machine_def on_world_def py_eval add_tracker_def
        example_ops_def recording_ops_def example_machine_def)
      (simp add: example_steps_def bind_def on_world_def py_eval)
qed

theorem created_machine_ok_witness:
  "machine_ok example_steps example_machine \<and> m_current example_machine = ''start'' \<and>
   m_jobid example_machine = Some ''job_7'' \<and> all_false (m_attrs example_machine)"
  using created_machine_ok [OF _ example_new example_create] example_keys example_good by simp

lemma example_machine_ok:
  "machine_ok example_steps example_machine" "m_current example_machine = ''start''"
  "m_jobid example_machine = Some ''job_7''" "all_false (m_attrs example_machine)"
proof -
  have "good_steps (dict_keys (jobs example_wfl))" by (simp add: example_keys example_good)
  from new_state_machine_class [OF this, of "Some ''job_7''"] have
    c: "c_states example_class = ''start'' # ''complete'' # example_steps"
    "c_trans example_class = class_trans example_steps" "c_jobid example_class = Some ''job_7''"
    "all_false (c_attrs example_class)" "flags_declared example_steps (c_attrs example_class)"
    by (auto simp: example_new example_keys)
  then show "machine_ok example_steps example_machine" "m_current example_machine = ''start''"
    "m_jobid example_machine = Some ''job_7''" "all_false (m_attrs example_machine)"
    by (auto simp: machine_ok_def example_machine_def fresh_machine_def dict_keys_def example_steps_def)
qed

section \<open>One run of it\<close>

definition example_run :: "machine \<times> submission_call list" where
  "example_run =
     run_call example_lib example_ops example_wfl CallChange
       (run_call example_lib example_ops example_wfl CallSucceeded
         (run_call example_lib example_ops example_wfl CallChange (example_machine, [])))"

lemma example_reach:
  "machine_reach example_lib example_ops example_wfl example_steps (example_machine, []) True example_run"
  using reach_call [OF reach_call [OF reach_call [OF reach_start]], of example_lib example_ops example_wfl example_steps
      "(example_machine, [])" CallChange CallSucceeded CallChange]
  by (simp add: example_run_def)

lemma example_run_current: "m_current (fst example_run) = ''job_b''"
  by code_simp

theorem submissions_in_order_witness:
  "map sc_step (filter (\<lambda>c. \<not> sc_repeat c) (snd example_run)) = [''job_a'', ''job_b''] \<and>
   sc_jobid ` set (snd example_run) \<subseteq> {Some ''job_7''}"
proof -
  have "machine_reach example_lib (recording_ops (\<lambda>h c. Inr \<lparr>status = SubmitOK, return_code = 0\<rparr>)
      (\<lambda>h. Inr no_jobs) (\<lambda>h n. [])) example_wfl example_steps (example_machine, []) True
      (fst example_run, snd example_run)"
    using example_reach by (simp add: example_ops_def)
  from submissions_in_order [OF example_pick example_good this example_machine_ok(1,2,4)]
  show ?thesis
    by (auto simp: example_run_current visited_def example_steps_def example_machine_ok)
qed

theorem run_call_keeps_ok_witness:
  "machine_ok example_steps (fst (run_call example_lib example_ops example_wfl CallChange (example_machine, [])))"
  by (rule run_call_keeps_ok [OF example_pick example_good]) (simp add: example_machine_ok)

theorem change_follows_sequence_witness:
  "change example_lib example_ops example_wfl (example_machine, []) =
   entered example_ops example_wfl ''job_a'' (example_machine, [])"
  using change_follows_sequence [OF example_pick example_good example_machine_ok(1)]
  by (simp add: example_machine_ok) (simp add: example_steps_def)

section \<open>One restart\<close>

text \<open>What \<open>mark_running\<close> marks in the example are flags of no step: \<open>Job a_success\<close> and the like.\<close>

theorem mark_running_marks_earlier_steps_witness:
  "flag (mark_running example_lib (Some ''job_b'') example_machine) (success_flag ''Job a'') \<and>
   m_current (mark_running example_lib (Some ''job_b'') example_machine) = ''start''"
proof -
  have st: "m_states example_machine = [''start'', ''complete'', ''job_a'', ''job_b'']"
    using example_machine_ok(1) by (simp add: machine_ok_def example_steps_def)
  have n: "state_name ''job_a'' = ''Job a''" by code_simp
  have ne: "\<forall>s \<in> set (m_states example_machine). lib_text example_lib s \<noteq> []"
    by (simp add: st example_lib_def state_name_nonempty)
  have "\<not> flag example_machine (repeat_flag ''Job a'')"
    using example_machine_ok(4) by (auto simp: flag_def all_false_def) (metis rangeI)
  with mark_running_marks_earlier_steps [OF ne, of "Some ''job_b''" "success_flag ''Job a''"]
  show ?thesis
    by (simp add: st example_lib_def example_machine_ok n)
qed

lemma example_unlike: "unlike_names example_steps"
  by code_simp

theorem restart_resubmits_sequence_witness:
  "snd (catch_up example_lib example_ops example_wfl 2 (mark_running example_lib (Some ''job_b'') example_machine, [])) =
     [\<lparr>sc_step = ''job_a'', sc_jobid = Some ''job_7'', sc_repeat = False\<rparr>,
      \<lparr>sc_step = ''job_b'', sc_jobid = Some ''job_7'', sc_repeat = False\<rparr>]"
  using restart_resubmits_sequence [OF example_pick example_states example_good example_unlike example_machine_ok(1,2,4), of 2]
  by (simp add: example_ops_def example_machine_ok(3)) (simp add: example_steps_def)

end
