(* ===== verification/Kube_Jobs.thy ===== *)
theory Kube_Jobs
  imports Tracker_Interface
begin

text \<open>
  Jobs in Kubernetes: \<open>tracker/kubernetes/job.py\<close>, \<open>tracker/kubernetes/state.py\<close> and the
  event stream of \<open>tracker/kubernetes/event.py\<close>. A job object of the client library is the
  record \<open>kube_job\<close>: its name and labels, and the counts and times of its status; the list
  and the stream of job objects come from the cluster and are arguments. The file shows how
  the listing classifies jobs, that the status methods satisfy the contract of a job, and
  where the two readings of the same job disagree.
\<close>

section \<open>Job objects\<close>

text \<open>
  Counts are \<open>None\<close> when the server omits them. Times are microseconds since the epoch,
  the resolution of the date type of the Python library. The server fills the labels of a job
  from its template, so the label dictionary exists.
\<close>

record kube_job =
  kj_name :: string
  kj_namespace :: string
  kj_labels :: "(string, string) dict"
  kj_active :: "int option"
  kj_succeeded :: "int option"
  kj_failed :: "int option"
  kj_start :: "int option"
  kj_completion :: "int option"

definition label_of :: "kube_job \<Rightarrow> string \<Rightarrow> string option" where
  "label_of j k = dict_get (kj_labels j) k"

definition kube_jobid :: "kube_job \<Rightarrow> string option" where
  "kube_jobid j = label_of j operator_label"

definition kube_step_name :: "kube_job \<Rightarrow> string option" where
  "kube_step_name j = label_of j ''app''"

definition kube_label :: "kube_job \<Rightarrow> string" where
  "kube_label j = fmt (kube_jobid j) @ ''_'' @ fmt (kube_step_name j)"

definition kube_always_succeed :: "kube_job \<Rightarrow> bool" where
  "kube_always_succeed j =
     py_in (case label_of j ''always-succeed'' of None \<Rightarrow> PNone | Some s \<Rightarrow> PStr s) true_values"

definition kube_is_active :: "kube_job \<Rightarrow> bool" where
  "kube_is_active j = (case kj_active j of None \<Rightarrow> False | Some n \<Rightarrow> 0 < n)"

definition kube_is_completed :: "kube_job \<Rightarrow> bool" where
  "kube_is_completed j \<longleftrightarrow> kj_completion j \<noteq> None"

definition kube_is_failed :: "kube_job \<Rightarrow> bool" where
  "kube_is_failed j \<longleftrightarrow> kube_is_completed j \<and> kj_failed j \<noteq> None"

definition kube_is_succeeded :: "kube_job \<Rightarrow> bool" where
  "kube_is_succeeded j \<longleftrightarrow> kube_is_completed j \<and> kj_failed j = None"

text \<open>\<open>(completion - start).total_seconds()\<close>: microseconds divided by a million, as a float.\<close>

definition kube_duration :: "kube_job \<Rightarrow> rat option" where
  "kube_duration j =
     (case (kj_completion j, kj_start j) of
        (Some c, Some s) \<Rightarrow> Some (to_double (of_int (c - s) / 1000000))
      | _ \<Rightarrow> None)"

text \<open>
  \<open>update_status\<close> keeps the old object when reading the new one raises.
\<close>

definition update_status :: "('w, kube_job) act \<Rightarrow> kube_job \<Rightarrow> 'w \<Rightarrow> kube_job res \<times> 'w" where
  "update_status read_status j = attempt read_status (\<lambda>_. ret j)"

text \<open>The object as the manager reads it.\<close>

definition kube_view :: "kube_job \<Rightarrow> wjob" where
  "kube_view j = \<lparr>jobid = kube_jobid j, step_name = kube_step_name j,
     always_succeed = kube_always_succeed j, is_active = kube_is_active j,
     is_completed = kube_is_completed j, job_failed = kube_is_failed j,
     job_succeeded = kube_is_succeeded j, duration = kube_duration j\<rparr>"

interpretation kube: final_job_status kube_is_completed kube_is_failed kube_is_succeeded
  by unfold_locales (auto simp: kube_is_failed_def kube_is_succeeded_def)

section \<open>Listing jobs\<close>

text \<open>The body of the loop of \<open>list_jobs_by_status\<close>: the first test that holds decides.\<close>

definition not_active :: "kube_job \<Rightarrow> bool" where
  "not_active j \<longleftrightarrow> kj_active j = Some 0 \<or> kj_active j = None"

definition positive :: "int option \<Rightarrow> bool" where
  "positive c = (case c of None \<Rightarrow> False | Some n \<Rightarrow> 0 < n)"

definition kube_class :: "kube_job \<Rightarrow> job_class" where
  "kube_class j =
     (if positive (kj_succeeded j) \<and> kj_completion j \<noteq> None then Success
      else if positive (kj_failed j) then Failed
      else if not_active j \<and> kj_completion j = None then Queued
      else if \<not> not_active j \<and> kj_completion j = None then Running
      else Unknown)"

definition with_label :: "string option \<Rightarrow> string option \<Rightarrow> kube_job list \<Rightarrow> kube_job list" where
  "with_label name val js =
     (case (name, val) of (Some n, Some v) \<Rightarrow> filter (\<lambda>j. label_of j n = Some v) js | _ \<Rightarrow> js)"

definition kube_list_by_status :: "string option \<Rightarrow> string option \<Rightarrow> kube_job list \<Rightarrow> wjob by_status" where
  "kube_list_by_status name val js = sort_jobs kube_class kube_view (with_label name val js)"

definition queued_jobs :: "kube_job list \<Rightarrow> string list" where
  "queued_jobs js = map kj_name (filter (\<lambda>j. kj_completion j = None \<and> kj_active j = Some 0) js)"

definition running_jobs :: "kube_job list \<Rightarrow> string list" where
  "running_jobs js = map kj_name (filter (\<lambda>j. kj_completion j = None \<and> kj_active j = Some 1) js)"

section \<open>Streaming events\<close>

definition stream_events :: "(string \<times> kube_job) list \<Rightarrow> wjob list" where
  "stream_events evs = map (\<lambda>(_, j). kube_view j) (filter (\<lambda>(t, _). t \<notin> {''DELETED''}) evs)"

section \<open>What the listing promises\<close>

lemma kube_class_iff:
  "kube_class j = Success \<longleftrightarrow> kj_completion j \<noteq> None \<and> positive (kj_succeeded j)"
  "kube_class j = Failed \<longleftrightarrow> positive (kj_failed j) \<and> (kj_completion j = None \<or> \<not> positive (kj_succeeded j))"
  "kube_class j = Queued \<longleftrightarrow> not_active j \<and> kj_completion j = None \<and> \<not> positive (kj_failed j)"
  "kube_class j = Running \<longleftrightarrow> \<not> not_active j \<and> kj_completion j = None \<and> \<not> positive (kj_failed j)"
  "kube_class j = Unknown \<longleftrightarrow> kj_completion j \<noteq> None \<and> \<not> positive (kj_succeeded j) \<and> \<not> positive (kj_failed j)"
  by (auto simp: kube_class_def)

text \<open>A job as the server reports it: counts that are present are not negative.\<close>

definition counts_ok :: "kube_job \<Rightarrow> bool" where
  "counts_ok j \<longleftrightarrow> (\<forall>n. kj_active j = Some n \<longrightarrow> 0 \<le> n) \<and> (\<forall>n. kj_succeeded j = Some n \<longrightarrow> 0 \<le> n)
     \<and> (\<forall>n. kj_failed j = Some n \<longrightarrow> 0 \<le> n)"

text \<open>C23. The queued and running lists of a listing hold exactly the jobs that have not finished and
  whose pods have not failed, split by whether a pod is active, and none of them counts as
  failed or succeeded when its event is handled; every listed job is in one of the five lists.\<close>

theorem listing_open_jobs:
  assumes "\<forall>j \<in> set js. counts_ok j"
  shows "running (kube_list_by_status None None js) =
      map kube_view (filter (\<lambda>j. \<not> kube_is_completed j \<and> \<not> positive (kj_failed j) \<and> kube_is_active j) js) \<and>
    queued (kube_list_by_status None None js) =
      map kube_view (filter (\<lambda>j. \<not> kube_is_completed j \<and> \<not> positive (kj_failed j) \<and> \<not> kube_is_active j) js) \<and>
    (\<forall>v \<in> set (running (kube_list_by_status None None js) @ queued (kube_list_by_status None None js)).
       \<not> is_completed v \<and> \<not> job_failed v \<and> \<not> job_succeeded v) \<and>
    (let l = kube_list_by_status None None js in
       length (success l) + length (failed l) + length (running l) + length (queued l) + length (unknown l)
         = length js)"
proof -
  have act: "not_active j \<longleftrightarrow> \<not> kube_is_active j" if "j \<in> set js" for j
    using assms that by (auto simp: not_active_def kube_is_active_def counts_ok_def split: option.splits)
  have cong: "(\<And>j. j \<in> set js \<Longrightarrow> P j \<longleftrightarrow> Q j) \<Longrightarrow>
      map kube_view (filter P js) = map kube_view (filter Q js)" for P Q
    by (rule arg_cong [where f = "map kube_view"]) (rule filter_cong [OF refl])
  have r: "running (kube_list_by_status None None js) =
      map kube_view (filter (\<lambda>j. \<not> kube_is_completed j \<and> \<not> positive (kj_failed j) \<and> kube_is_active j) js)"
    unfolding kube_list_by_status_def with_label_def prod.case option.case sort_jobs_fields
    by (rule cong) (auto simp: kube_class_iff act kube_is_completed_def)
  have q: "queued (kube_list_by_status None None js) =
      map kube_view (filter (\<lambda>j. \<not> kube_is_completed j \<and> \<not> positive (kj_failed j) \<and> \<not> kube_is_active j) js)"
    unfolding kube_list_by_status_def with_label_def prod.case option.case sort_jobs_fields
    by (rule cong) (auto simp: kube_class_iff act kube_is_completed_def)
  have n: "\<not> is_completed v \<and> \<not> job_failed v \<and> \<not> job_succeeded v"
    if "v \<in> set (running (kube_list_by_status None None js) @ queued (kube_list_by_status None None js))" for v
    using that kube.not_completed_neither by (auto simp: r q kube_view_def)
  have "let l = kube_list_by_status None None js in
      length (success l) + length (failed l) + length (running l) + length (queued l) + length (unknown l)
        = length js"
    using sort_jobs_length [of kube_class kube_view js]
    by (simp add: kube_list_by_status_def with_label_def)
  with r q n show ?thesis by blast
qed

definition example_kube_job :: "string \<Rightarrow> int option \<Rightarrow> int option \<Rightarrow> int option \<Rightarrow> int option \<Rightarrow> kube_job" where
  "example_kube_job step act succ fl done = \<lparr>kj_name = step @ ''-job-000000007'', kj_namespace = ''default'',
     kj_labels = [(''app'', step), (''jobid'', ''job_000000007'')], kj_active = act, kj_succeeded = succ,
     kj_failed = fl, kj_start = Some 1000000, kj_completion = done\<rparr>"

theorem listing_open_jobs_witness:
  "running (kube_list_by_status None None [example_kube_job ''job_a'' (Some 1) None None None,
       example_kube_job ''job_b'' None None None None]) =
     [kube_view (example_kube_job ''job_a'' (Some 1) None None None)]"
  using listing_open_jobs [of "[example_kube_job ''job_a'' (Some 1) None None None,
       example_kube_job ''job_b'' None None None None]"]
  by (simp add: counts_ok_def kube_is_completed_def positive_def kube_is_active_def)
    (simp add: example_kube_job_def)

text \<open>
  The listing and the status methods judge a finished job by different fields: one that has failed pods beside
  a successful one, which is what a retried step leaves, is listed as a success while its event
  counts as a failure.
\<close>

definition retried :: "kube_job \<Rightarrow> bool" where
  "retried j \<longleftrightarrow> kj_completion j \<noteq> None \<and> positive (kj_succeeded j) \<and> positive (kj_failed j)"

lemma retried_judged:
  assumes "retried j"
  shows "kube_class j = Success" "job_failed (kube_view j)" "\<not> job_succeeded (kube_view j)"
  using assms
  by (auto simp: retried_def kube_class_iff kube_view_def kube_is_failed_def kube_is_succeeded_def kube_is_completed_def
      positive_def split: option.splits)

text \<open>A job with failed pods and no completion time, which the server sets for successful jobs
  only, is listed as failed, but its event counts as neither failed nor succeeded nor active.\<close>

theorem failed_without_completion:
  assumes "kj_completion j = None" and "positive (kj_failed j)"
  shows "kube_class j = Failed \<and> \<not> is_completed (kube_view j) \<and> \<not> job_failed (kube_view j) \<and>
    \<not> job_succeeded (kube_view j)"
proof -
  have c: "\<not> kube_is_completed j" using assms(1) by (simp add: kube_is_completed_def)
  then show ?thesis
    using assms kube.not_completed_neither [OF c] by (simp add: kube_class_iff kube_view_def)
qed

theorem failed_without_completion_witness:
  "kube_class (example_kube_job ''job_a'' None None (Some 1) None) = Failed \<and>
   \<not> job_failed (kube_view (example_kube_job ''job_a'' None None (Some 1) None))"
  using failed_without_completion [of "example_kube_job ''job_a'' None None (Some 1) None"]
  by (simp add: example_kube_job_def positive_def)

end
