(* ===== verification/Manager_Decisions.thy ===== *)
theory Manager_Decisions
  imports Manager Machine_Examples Kube_Jobs
begin

text \<open>
  What the manager decides from what it reads: which sequences count as completed, active or
  failed, how many new sequences fit, when the workflow is finished, which identifier a new
  sequence gets, and how a step grows and shrinks.
\<close>

section \<open>The state of the sequences\<close>

lemma str_truthy_opt: "str_truthy (Some n) \<longleftrightarrow> n \<noteq> []" "\<not> str_truthy None"
  by (simp_all add: str_truthy_def)

lemma ids_where_iff: "k \<in> ids_where P js \<longleftrightarrow> (\<exists>j \<in> set js. P j \<and> jobid j = k)"
  by (auto simp: ids_where_def)

lemma sort_state_mem:
  "k \<in> failed_ids (sort_state l js) \<longleftrightarrow> (\<exists>j \<in> set (failed js). str_truthy (jobid j) \<and> jobid j = k)"
  "k \<in> completed_ids (sort_state l js) \<longleftrightarrow> k \<notin> failed_ids (sort_state l js) \<and>
     (\<exists>j \<in> set (success js). str_truthy (jobid j) \<and> str_truthy (step_name j) \<and> in_step j l \<and> jobid j = k)"
  "k \<in> active_ids (sort_state l js) \<longleftrightarrow>
     k \<notin> failed_ids (sort_state l js) \<and> k \<notin> completed_ids (sort_state l js) \<and>
     ((\<exists>j \<in> set (queued js @ running js). str_truthy (jobid j) \<and> jobid j = k) \<or>
      (\<exists>j \<in> set (success js). \<not> in_step j l \<and> jobid j = k))"
  "state_jobs (sort_state l js) = js"
proof -
  define bad where "bad = ids_where (\<lambda>j. str_truthy (jobid j)) (failed js)"
  define fin where "fin = ids_where
    (\<lambda>j. str_truthy (jobid j) \<and> str_truthy (step_name j) \<and> jobid j \<notin> bad \<and> in_step j l) (success js)"
  have e: "failed_ids (sort_state l js) = bad" "completed_ids (sort_state l js) = fin"
    "active_ids (sort_state l js) =
      ids_where (\<lambda>j. str_truthy (jobid j) \<and> jobid j \<notin> fin \<and> jobid j \<notin> bad) (queued js @ running js) \<union>
      ids_where (\<lambda>j. \<not> in_step j l \<and> jobid j \<notin> fin \<and> jobid j \<notin> bad) (success js)"
    by (simp_all only: sort_state_def Let_def bad_def fin_def current_state.simps)
  show "k \<in> failed_ids (sort_state l js) \<longleftrightarrow> (\<exists>j \<in> set (failed js). str_truthy (jobid j) \<and> jobid j = k)"
    unfolding e(1) bad_def ids_where_iff ..
  show "k \<in> completed_ids (sort_state l js) \<longleftrightarrow> k \<notin> failed_ids (sort_state l js) \<and>
     (\<exists>j \<in> set (success js). str_truthy (jobid j) \<and> str_truthy (step_name j) \<and> in_step j l \<and> jobid j = k)"
    unfolding e(1,2) fin_def ids_where_iff by blast
  show "k \<in> active_ids (sort_state l js) \<longleftrightarrow>
     k \<notin> failed_ids (sort_state l js) \<and> k \<notin> completed_ids (sort_state l js) \<and>
     ((\<exists>j \<in> set (queued js @ running js). str_truthy (jobid j) \<and> jobid j = k) \<or>
      (\<exists>j \<in> set (success js). \<not> in_step j l \<and> jobid j = k))"
    unfolding e Un_iff ids_where_iff by blast
  show "state_jobs (sort_state l js) = js" by (simp add: sort_state_def Let_def)
qed

lemma sort_state_disjoint:
  "completed_ids (sort_state l js) \<inter> active_ids (sort_state l js) = {}"
  "completed_ids (sort_state l js) \<inter> failed_ids (sort_state l js) = {}"
  "active_ids (sort_state l js) \<inter> failed_ids (sort_state l js) = {}"
  using sort_state_mem(2,3) [of _ l js] by blast+

lemma in_step_named: "in_step j (PStr n) \<longleftrightarrow> step_name j = Some n"
  by (cases "step_name j") (simp_all add: in_step_def opt_val_def)

text \<open>The jobs of a listing whose state the manager understands.\<close>

definition known_jobs :: "wjob by_status \<Rightarrow> wjob list" where
  "known_jobs js = failed js @ success js @ queued js @ running js"

lemma sort_state_covers:
  assumes "j \<in> set (known_jobs js)" and "str_truthy (jobid j)" and "n \<noteq> []"
  shows "jobid j \<in> completed_ids (sort_state (PStr n) js) \<union> active_ids (sort_state (PStr n) js) \<union>
    failed_ids (sort_state (PStr n) js)"
proof -
  have t: "in_step j (PStr n) \<Longrightarrow> str_truthy (step_name j)"
    using assms(3) by (simp add: in_step_named str_truthy_opt)
  show ?thesis
    unfolding Un_iff sort_state_mem(3) sort_state_mem(2) sort_state_mem(1)
    using assms(1,2) t unfolding known_jobs_def set_append by blast
qed

lemma list_jobs_frame:
  assumes "list_jobs_by_status env s = (r, s')"
  shows "wfl s' = wfl s \<and> trackers s' = trackers s \<and> heap s' = heap s \<and> store s' = store s \<and>
    id_prefix s' = id_prefix s \<and> stamps s' = stamps s"
  using assms
  by (auto simp: list_jobs_by_status_def timed_def bind_def in_world_def modify_def ret_def
      split: prod.splits sum.splits)

lemma get_current_state_sorts:
  assumes "get_current_state env s = (Inr cs, s')"
  shows "\<exists>l js. last_step (wfl s) = Inr l \<and> cs = sort_state l js \<and> wfl s' = wfl s"
  using assms list_jobs_frame
  by (fastforce simp: get_current_state_def bind_def reads_def lift_def ret_def
      split: prod.splits sum.splits)

text \<open>Reading the state records the time it took and asks the cluster; nothing else changes.\<close>

lemma current_state_reads_only:
  assumes "get_current_state env s = (Inr cs, s')"
  shows "s' = s\<lparr>timings := timings s', world := world s'\<rparr>"
  using assms
  by (auto simp: get_current_state_def list_jobs_by_status_def timed_def in_world_def bind_def reads_def lift_def ret_def
      modify_def split: prod.splits sum.splits)

text \<open>C15. The manager's reading of the cluster puts every sequence that has a job in a known state
  into exactly one of the three sets: completed, active and failed are disjoint and together
  hold every identifier of the listing.\<close>

theorem sequences_partitioned:
  assumes "get_current_state env s = (Inr cs, s')" and "last_step (wfl s) = Inr (PStr n)" and "n \<noteq> []"
  shows "completed_ids cs \<inter> active_ids cs = {} \<and> completed_ids cs \<inter> failed_ids cs = {} \<and>
    active_ids cs \<inter> failed_ids cs = {} \<and>
    (\<forall>j \<in> set (known_jobs (state_jobs cs)). str_truthy (jobid j) \<longrightarrow>
       jobid j \<in> completed_ids cs \<union> active_ids cs \<union> failed_ids cs)"
proof -
  obtain js where cs: "cs = sort_state (PStr n) js"
    using get_current_state_sorts [OF assms(1)] assms(2) by auto
  have "\<forall>j \<in> set (known_jobs js). str_truthy (jobid j) \<longrightarrow>
      jobid j \<in> completed_ids cs \<union> active_ids cs \<union> failed_ids cs"
    using sort_state_covers [OF _ _ assms(3)] unfolding cs by blast
  then show ?thesis
    using sort_state_disjoint unfolding cs sort_state_mem(4) by blast
qed

section \<open>A manager for the examples\<close>

definition example_env :: "(submission_call list \<Rightarrow> wjob by_status res) \<Rightarrow> submission_call list env" where
  "example_env listing =
     \<lparr>e_lib = example_lib,
      e_ops = recording_ops (\<lambda>h c. Inr \<lparr>status = SubmitOK, return_code = 0\<rparr>) listing (\<lambda>h n. []),
      e_stats = example_stats, e_clock = (\<lambda>h. (Inr 0, h)), e_draw = (\<lambda>h. (Inr (length h), h)), e_depth = 3,
      e_start_watcher = ret (), e_stop_watcher = ret (), e_save_watcher = (\<lambda>d. ret ()),
      e_write_times = (\<lambda>d ss ts. ret ()), e_cwd = ret ''/'', e_mkdtemp = ret ''/tmp/x''\<rparr>"

definition example_mgr :: "submission_call list mgr" where
  "example_mgr = \<lparr>wfl = example_loaded [(''completed'', PInt 3)], id_prefix = PStr ''job_'',
     trackers = [(Some ''job_7'', 0)], heap = [example_machine], store = new_metrics, stamps = [],
     timings = [], world = []\<rparr>"

definition example_wjob :: "string \<Rightarrow> string \<Rightarrow> bool \<Rightarrow> bool \<Rightarrow> bool \<Rightarrow> wjob" where
  "example_wjob jid step done bad always = \<lparr>jobid = Some jid, step_name = Some step,
     always_succeed = always, is_active = \<not> done, is_completed = done, job_failed = done \<and> bad,
     job_succeeded = done \<and> \<not> bad, duration = None\<rparr>"

definition example_listing :: "wjob by_status" where
  "example_listing = \<lparr>success = [example_wjob ''job_1'' ''job_b'' True False False,
       example_wjob ''job_2'' ''job_a'' True False False],
     failed = [example_wjob ''job_3'' ''job_a'' True True False],
     running = [example_wjob ''job_7'' ''job_a'' False False False], queued = [], unknown = []\<rparr>"

lemma example_last: "last_step (wfl example_mgr) = Inr (PStr ''job_b'')"
  by (simp add: example_mgr_def example_loaded_def last_step_def job_entries_def dict_at_def)

lemma example_current_state:
  "\<exists>s'. get_current_state (example_env (\<lambda>h. Inr example_listing)) example_mgr =
     (Inr (sort_state (PStr ''job_b'') example_listing), s')"
  using example_last
  by (simp add: get_current_state_def list_jobs_by_status_def timed_def bind_def in_world_def py_eval
      example_env_def recording_ops_def example_mgr_def)

theorem sequences_partitioned_witness:
  "let cs = sort_state (PStr ''job_b'') example_listing in
     completed_ids cs \<inter> active_ids cs = {} \<and> active_ids cs \<inter> failed_ids cs = {} \<and>
     Some ''job_2'' \<in> completed_ids cs \<union> active_ids cs \<union> failed_ids cs"
proof -
  obtain s' where cs: "get_current_state (example_env (\<lambda>h. Inr example_listing)) example_mgr =
     (Inr (sort_state (PStr ''job_b'') example_listing), s')"
    using example_current_state by blast
  show ?thesis
    using sequences_partitioned [OF cs example_last]
    by (simp add: Let_def)
      (simp add: sort_state_def Let_def known_jobs_def example_listing_def example_wjob_def str_truthy_opt)
qed

text \<open>A successful job without an identifier, which any other program in the namespace can leave
  behind, counts as an active sequence for as long as it is listed, unless its step name is the
  last step: the set of active sequences then has the member \<open>None\<close>.\<close>

theorem foreign_success_counts_active:
  assumes "get_current_state env s = (Inr cs, s')" and "last_step (wfl s) = Inr (PStr n)"
    and "j \<in> set (success (state_jobs cs))" and "jobid j = None" and "step_name j \<noteq> Some n"
  shows "None \<in> active_ids cs"
proof -
  obtain js where cs: "cs = sort_state (PStr n) js"
    using get_current_state_sorts [OF assms(1)] assms(2) by auto
  have j: "j \<in> set (success js)" using assms(3) by (simp add: cs sort_state_mem)
  have "\<not> in_step j (PStr n)" using assms(5) by (simp add: in_step_named)
  moreover have "None \<notin> failed_ids cs" "None \<notin> completed_ids cs"
    by (auto simp: cs sort_state_mem str_truthy_def)
  ultimately show ?thesis
    using j assms(4) unfolding cs sort_state_mem(3) by blast
qed

definition foreign_job :: wjob where
  "foreign_job = kube_view \<lparr>kj_name = ''backup'', kj_namespace = ''default'', kj_labels = [],
     kj_active = None, kj_succeeded = Some 1, kj_failed = None, kj_start = Some 0, kj_completion = Some 5\<rparr>"

theorem foreign_success_counts_active_witness:
  "None \<in> active_ids (sort_state (PStr ''job_b'') (no_jobs\<lparr>success := [foreign_job]\<rparr>))"
proof -
  let ?env = "example_env (\<lambda>h. Inr (no_jobs\<lparr>success := [foreign_job]\<rparr>))"
  obtain s' where cs: "get_current_state ?env example_mgr =
     (Inr (sort_state (PStr ''job_b'') (no_jobs\<lparr>success := [foreign_job]\<rparr>)), s')"
    using example_last
    by (simp add: get_current_state_def list_jobs_by_status_def timed_def bind_def in_world_def py_eval
      example_env_def recording_ops_def example_mgr_def)
  show ?thesis
    by (rule foreign_success_counts_active [OF cs example_last, of foreign_job])
      (simp_all add: sort_state_def Let_def foreign_job_def kube_view_def kube_jobid_def label_of_def
        kube_step_name_def)
qed

section \<open>How many sequences are started\<close>

text \<open>The workflow's numbers, all of them integers.\<close>

definition sized :: "workflow \<Rightarrow> int \<Rightarrow> int \<Rightarrow> int \<Rightarrow> bool" where
  "sized W nodes need cap \<longleftrightarrow>
     (\<exists>n step. first_step W = Inr (PStr n) \<and> config_for_step W n = Inr step \<and>
        py_get step ''nnodes'' (PInt 1) = Inr (PInt nodes) \<and> (\<exists>v. py_item step ''name'' = Inr v)) \<and>
     completions_needed W = Inr (PInt need) \<and> max_size W = Inr (PInt cap)"

lemma floor_truediv:
  assumes "0 \<le> a" "a < 2 ^ 53" "0 < b" "b < 2 ^ 53"
  shows "rbind (py_truediv (PInt a) (PInt b)) math_floor = Inr (PInt (a div b))"
proof -
  define q where "q = to_double (of_int a / of_int b)"
  have f: "\<lfloor>q\<rfloor> = a div b" using floor_div_double [OF assms] by (simp add: q_def)
  have "0 \<le> a div b" "a div b < 2 ^ 53"
    using assms zdiv_mono2 [of a 1 b] by (simp_all add: pos_imp_zdiv_nonneg_iff)
  then have "0 \<le> q" "q < of_int (2 ^ 53)" unfolding f [symmetric] by (simp_all add: floor_less_iff)
  then have "q = 0 \<or> ilog2 \<bar>q\<bar> < 1024" using ilog2_upper [of q 53] pow2_nat [of 53] by fastforce
  then show ?thesis
    using f assms(3) by (simp add: py_truediv_def math_floor_def in_float_range_def q_def [symmetric])
qed

lemma plan_jobs_sized:
  assumes "sized W nodes need cap" and "0 \<le> cap" "cap < 2 ^ 53" "0 < nodes" "nodes < 2 ^ 53"
  shows "plan_jobs W c a =
    Inr (nat (min (need - int c) (max (min (cap div nodes) (need - int c) - int a) 0)))"
proof -
  obtain n step v where st: "first_step W = Inr (PStr n)" "config_for_step W n = Inr step"
    "py_item step ''name'' = Inr v" "py_get step ''nnodes'' (PInt 1) = Inr (PInt nodes)"
    and "completions_needed W = Inr (PInt need)" "max_size W = Inr (PInt cap)"
    using assms(1) by (auto simp: sized_def)
  then show ?thesis
    using floor_truediv [OF assms(2-5)]
    by (simp add: plan_jobs_def)
qed

lemma plan_fits:
  assumes "sized W nodes need cap" and "0 \<le> cap" "cap < 2 ^ 53" "0 < nodes" "nodes < 2 ^ 53"
  shows "\<exists>n. plan_jobs W c a = Inr n \<and>
    (0 < n \<longrightarrow> (int a + int n) * nodes \<le> cap \<and> int c + int a + int n \<le> need \<and>
       (int a + int n = cap div nodes \<or> int c + int a + int n = need)) \<and>
    (n = 0 \<longleftrightarrow> cap div nodes \<le> int a \<or> need \<le> int c + int a)"
proof -
  define q where "q = cap div nodes"
  define n where "n = nat (min (need - int c) (max (min q (need - int c) - int a) 0))"
  have "q * nodes + cap mod nodes = cap" by (simp add: q_def)
  then have q: "q * nodes \<le> cap" using pos_mod_sign [OF assms(4), of cap] by linarith
  have "(int a + int n) * nodes \<le> cap" if "0 < n"
  proof -
    have "int a + int n \<le> q" using that by (simp add: n_def) linarith
    then have "(int a + int n) * nodes \<le> q * nodes" using assms(4) by (intro mult_right_mono) auto
    with q show ?thesis by linarith
  qed
  moreover have "int c + int a + int n \<le> need \<and> (int a + int n = q \<or> int c + int a + int n = need)" if "0 < n"
    using that by (simp add: n_def) linarith
  moreover have "n = 0 \<longleftrightarrow> q \<le> int a \<or> need \<le> int c + int a" by (simp add: n_def) linarith
  ultimately show ?thesis
    using plan_jobs_sized [OF assms, of c a] by (auto simp: n_def q_def)
qed

text \<open>C8. The number of sequences \<open>new_jobs\<close> starts, in exact integers although the code divides
  floats: as many as the cluster size and the missing completions leave room for. When it starts
  any, the active sequences and the new ones together fit in the cluster at the size of the first
  step, and with the completed ones they do not exceed the completions needed; it starts none
  when the cluster is full or nothing is missing.\<close>

theorem new_jobs_fit:
  assumes "sized W nodes need cap" and "0 \<le> cap" "cap < 2 ^ 53" "0 < nodes" "nodes < 2 ^ 53"
  shows "\<exists>n. plan_jobs W c a = Inr n \<and>
    (0 < n \<longrightarrow> (int a + int n) * nodes \<le> cap \<and> int c + int a + int n \<le> need \<and>
       (int a + int n = cap div nodes \<or> int c + int a + int n = need)) \<and>
    (n = 0 \<longleftrightarrow> cap div nodes \<le> int a \<or> need \<le> int c + int a)"
  by (rule plan_fits [OF assms])

lemma example_sized: "sized (wfl example_mgr) 1 3 4"
  by (simp add: sized_def example_mgr_def example_loaded_def first_step_def job_entries_def dict_at_def
      config_for_step_def completions_needed_def cfg_entry_def max_size_def)

theorem new_jobs_fit_witness:
  "\<exists>n. plan_jobs (wfl example_mgr) 1 1 = Inr n \<and> n \<noteq> 0 \<and> 1 + 1 + int n \<le> 3"
  using new_jobs_fit [OF example_sized, of 1 1] by auto

section \<open>When the workflow is finished\<close>

lemma complete_workflow_stops: "fst (complete_workflow env s) \<noteq> Inr ()"
  by (auto simp: complete_workflow_def andthen_def bind_def throw_def lift_def reads_def
      split: prod.splits sum.splits)

text \<open>C17. Checking for completion never returns normally when enough sequences have completed: it
  exits, unless writing the results raises. Otherwise it returns with the reading of the cluster as its
  only effect: the time it took is recorded and the outside may have moved, while the workflow, the
  machines, the trackers, the metrics, the time stamps and the identifier prefix are as before.\<close>

theorem completion_ends_workflow:
  assumes "get_current_state env s = (Inr cs, s1)" and "completions_needed (wfl s) = Inr (PInt need)"
  shows "if need \<le> int (card (completed_ids cs)) then fst (check_complete env s) \<noteq> Inr ()
    else check_complete env s = (Inr (), s\<lparr>timings := timings s1, world := world s1\<rparr>)"
proof -
  have W: "wfl s1 = wfl s" using get_current_state_sorts [OF assms(1)] by blast
  have "check_complete env s = (if need \<le> int (card (completed_ids cs)) then complete_workflow env s1 else (Inr (), s1))"
    using assms W by (simp add: check_complete_def bind_def reads_def lift_def enough_def ret_def)
  then show ?thesis using complete_workflow_stops [of env s1] current_state_reads_only [OF assms(1)] by simp
qed

theorem completion_ends_workflow_witness:
  "\<exists>s'. check_complete (example_env (\<lambda>h. Inr example_listing)) example_mgr = (Inr (), s')"
proof -
  obtain s' where cs: "get_current_state (example_env (\<lambda>h. Inr example_listing)) example_mgr =
     (Inr (sort_state (PStr ''job_b'') example_listing), s')"
    using example_current_state by blast
  have n: "completions_needed (wfl example_mgr) = Inr (PInt 3)"
    using example_sized by (simp add: sized_def)
  have "completed_ids (sort_state (PStr ''job_b'') example_listing) \<subseteq> {Some ''job_1''}"
  proof
    fix k
    assume "k \<in> completed_ids (sort_state (PStr ''job_b'') example_listing)"
    then show "k \<in> {Some ''job_1''}"
      unfolding sort_state_mem(2) by (auto simp: example_listing_def example_wjob_def in_step_named)
  qed
  from card_mono [OF _ this]
  have "card (completed_ids (sort_state (PStr ''job_b'') example_listing)) \<le> 1" by simp
  with completion_ends_workflow [OF cs n] show ?thesis by auto
qed

section \<open>Identifiers\<close>

lemma generate_id_result:
  assumes "generate_id env d s = (Inr jid, s')"
  shows "\<not> dict_in (Some jid) (trackers s) \<and> s' = s\<lparr>world := world s'\<rparr> \<and>
    (\<exists>p number w w'. id_prefix s = PStr p \<and> e_draw env w = (Inr number, w') \<and>
       jid = p @ zfill 9 (show_nat number))"
  using assms
proof (induction d arbitrary: s)
  case 0
  then show ?case by (simp add: throw_def)
next
  case (Suc d)
  obtain x w where draw: "e_draw env (world s) = (x, w)" by (cases "e_draw env (world s)")
  obtain number where x: "x = Inr number"
    using Suc.prems draw by (cases x) (auto simp: bind_def in_world_def)
  obtain p where p: "id_prefix s = PStr p"
    using Suc.prems draw x
    by (cases "id_prefix s") (auto simp: bind_def in_world_def reads_def lift_def make_id_def)
  define t where "t = s\<lparr>world := w\<rparr>"
  define k where "k = p @ zfill 9 (show_nat number)"
  have step: "generate_id env (Suc d) s = (if dict_in (Some k) (trackers s) then generate_id env d t else (Inr k, t))"
    using draw x p by (simp add: bind_def in_world_def reads_def lift_def make_id_def ret_def t_def k_def)
  show ?case
  proof (cases "dict_in (Some k) (trackers s)")
    case True
    then have r: "generate_id env d t = (Inr jid, s')" using Suc.prems step by simp
    have "s' = t\<lparr>world := world s'\<rparr>" using Suc.IH [OF r] by blast
    then have "s' = s\<lparr>world := world s'\<rparr>" by (simp add: t_def)
    then show ?thesis using Suc.IH [OF r] by (simp add: t_def)
  next
    case False
    then have "jid = k" "s' = t" using Suc.prems step by auto
    then show ?thesis using False p draw x by (auto simp: t_def k_def)
  qed
qed

lemma show_nat_length: "n < 10 ^ k \<Longrightarrow> 0 < k \<Longrightarrow> length (show_nat n) \<le> k"
proof (induction n arbitrary: k rule: show_nat.induct)
  case (1 n)
  show ?case
  proof (cases "n < 10")
    case True
    then show ?thesis using 1 by (simp add: show_nat.simps [of n])
  next
    case False
    then obtain j where k: "k = Suc j" "0 < j"
      using 1(2,3) by (cases k; cases "k - 1") auto
    have "n div 10 < 10 ^ j" using 1(2) k by (simp add: less_mult_imp_div_less mult.commute)
    then have "length (show_nat (n div 10)) \<le> j" using 1(1) [OF False] k(2) by blast
    then show ?thesis using False k by (simp add: show_nat.simps [of n])
  qed
qed

text \<open>A generated identifier is not the identifier of a tracked sequence, generating it changes
  nothing but the source of randomness, and for a drawn number below \<open>99999999\<close> it is the prefix
  followed by exactly nine characters.\<close>

theorem generated_id_fresh:
  assumes "generate_id env d s = (Inr jid, s')"
    and "\<And>w n w'. e_draw env w = (Inr n, w') \<Longrightarrow> n < 99999999"
  shows "\<not> dict_in (Some jid) (trackers s) \<and> s' = s\<lparr>world := world s'\<rparr> \<and>
    (\<exists>p digits. id_prefix s = PStr p \<and> jid = p @ digits \<and> length digits = 9)"
proof -
  obtain p number w w' where p: "id_prefix s = PStr p" "e_draw env w = (Inr number, w')"
      "jid = p @ zfill 9 (show_nat number)" and fresh: "\<not> dict_in (Some jid) (trackers s)"
      and frame: "s' = s\<lparr>world := world s'\<rparr>"
    using generate_id_result [OF assms(1)] by blast
  have "number < 99999999" using assms(2) p(2) .
  then have "number < 10 ^ 9" by simp
  from show_nat_length [OF this] have "length (show_nat number) \<le> 9" by simp
  then have "length (zfill 9 (show_nat number)) = 9" by (simp add: length_zfill)
  with p fresh frame show ?thesis by blast
qed

definition example_draw :: "submission_call list env" where
  "example_draw = (example_env (\<lambda>h. Inr no_jobs))\<lparr>e_draw := \<lambda>h. (Inr 5, h)\<rparr>"

theorem generated_id_fresh_witness:
  "\<exists>jid s'. generate_id example_draw 3 example_mgr = (Inr jid, s') \<and>
     \<not> dict_in (Some jid) (trackers example_mgr) \<and> length jid = 13"
proof -
  have d: "n < 99999999" if "e_draw example_draw w = (Inr n, w')" for w n w'
    using that by (simp add: example_draw_def)
  have "fst (generate_id example_draw 3 example_mgr) = Inr ''job_000000005''"
    by code_simp
  then obtain s' where g: "generate_id example_draw 3 example_mgr = (Inr ''job_000000005'', s')"
    by (metis prod.collapse)
  show ?thesis using generated_id_fresh [OF g d] g by auto
qed

section \<open>Growing and shrinking\<close>

lemma set_step_nodes_reads:
  assumes "set_step_nodes step v W = Inr W'"
  shows "step_nodes W' step = Inr v \<and> (\<forall>k. k \<noteq> step \<longrightarrow> dict_get (jobs W') k = dict_get (jobs W) k) \<and>
    dict_keys (jobs W') = dict_keys (jobs W) \<and> cfg W' = cfg W \<and> rules W' = rules W"
proof -
  obtain job c c' job' where st: "dict_at (jobs W) step = Inr job" "py_item job ''config'' = Inr c"
    "py_setitem c ''nnodes'' v = Inr c'" "py_setitem job ''config'' c' = Inr job'"
    and W': "W' = W\<lparr>jobs := dict_set step job' (jobs W)\<rparr>"
    using assms by (auto simp: set_step_nodes_def rbind_Inr_iff)
  have "dict_in step (jobs W)" using st(1) by (auto simp: dict_at_def dict_in_def split: option.splits)
  then show ?thesis
    using py_setitem_get [OF st(3)] py_setitem_get [OF st(4)]
    by (simp add: W' step_nodes_def dict_at_def dict_keys_set)
qed

lemma set_step_nodes_defined:
  assumes "step_nodes W step = Inr v"
  shows "\<exists>W'. set_step_nodes step v' W = Inr W'"
proof -
  obtain job c where job: "dict_at (jobs W) step = Inr job" and c: "py_item job ''config'' = Inr c"
    "py_item c ''nnodes'' = Inr v"
    using assms by (auto simp: step_nodes_def rbind_Inr_iff)
  obtain d where d: "job = PDict d" using c(1) by (cases job) auto
  obtain e where e: "c = PDict e" using c(2) by (cases c) auto
  show ?thesis using job c by (simp add: set_step_nodes_def d e)
qed

text \<open>One grow or shrink with integer settings. A grow adds a node unless that would reach the
  maximum size, so a step that is below the maximum never reaches it; a shrink removes one unless
  the step is at its minimum, which is 1 when none is given. Neither changes another step, the
  order of the steps, or the rest of the workflow.\<close>

theorem grow_shrink_bounds:
  assumes "step_nodes W step = Inr (PInt n)"
    and "action_max_size (r_action r) = Inr (PInt hi)"
    and "action_min_size (r_action r) = Inr lo" and "py_or lo (PInt 1) = PInt lo'"
  shows "\<exists>Wg Ws. trigger_grow r step W = Inr Wg \<and> trigger_shrink r step W = Inr Ws \<and>
    step_nodes Wg step = Inr (PInt (if n + 1 < hi then n + 1 else n)) \<and>
    step_nodes Ws step = Inr (PInt (if lo' < n then n - 1 else n)) \<and>
    (\<forall>W' \<in> {Wg, Ws}. dict_keys (jobs W') = dict_keys (jobs W) \<and> cfg W' = cfg W \<and> rules W' = rules W \<and>
       (\<forall>k. k \<noteq> step \<longrightarrow> dict_get (jobs W') k = dict_get (jobs W) k))"
proof -
  obtain Wg where g: "set_step_nodes step (PInt (n + 1)) W = Inr Wg"
    using set_step_nodes_defined [OF assms(1)] by blast
  obtain Ws where s: "set_step_nodes step (PInt (n - 1)) W = Inr Ws"
    using set_step_nodes_defined [OF assms(1)] by blast
  have tg: "trigger_grow r step W = Inr (if n + 1 < hi then Wg else W)"
    using assms(1,2) g by (simp add: trigger_grow_def)
  have ts: "trigger_shrink r step W = Inr (if lo' < n then Ws else W)"
    using assms(1,3,4) s by (simp add: trigger_shrink_def)
  show ?thesis
    using tg ts set_step_nodes_reads [OF g] set_step_nodes_reads [OF s] assms(1)
    by (intro exI [of _ "if n + 1 < hi then Wg else W"] exI [of _ "if lo' < n then Ws else W"]) auto
qed

definition example_grow :: rule where
  "example_grow = \<lparr>r_spec = PNone, disabled = False, r_action =
     \<lparr>a_spec = PDict [(''action'', PStr ''grow''), (''maxSize'', PInt 4)], repetitions = PNone,
      backoff = PNone, backoff_counter = PInt 0\<rparr>\<rparr>"

theorem grow_shrink_bounds_witness:
  "\<exists>Wg. trigger_grow example_grow ''job_b'' (wfl example_mgr) = Inr Wg \<and>
     step_nodes Wg ''job_b'' = Inr (PInt 3)"
proof -
  have n: "step_nodes (wfl example_mgr) ''job_b'' = Inr (PInt 2)"
    by (simp add: step_nodes_def example_mgr_def example_loaded_def dict_at_def)
  show ?thesis
    using grow_shrink_bounds [OF n, of example_grow 4 PNone 1]
    by (auto simp: example_grow_def action_max_size_def action_min_size_def py_or_def)
qed

end
