(* ===== verification/Manager_Invariant.thy ===== *)
theory Manager_Invariant
  imports Manager_Decisions
begin

text \<open>
  What the operations of the manager have in common: most of them read its state, change the
  world, the clock's records, the metrics store or the rules, or run a method of one machine
  that leaves its current state alone. \<open>manager_steady\<close> and the stronger \<open>manager_invariant\<close> are the
  contracts of a property of the manager's state that such operations cannot break; under the
  second every operation, up to the handling of an event, keeps it as soon as sending \<open>change\<close>,
  starting a sequence and dropping one do.
\<close>

section \<open>Predicates of one machine\<close>

text \<open>
  A predicate that does not look at the metrics of the trackers, one that no method except \<open>change\<close>
  can break, and one that \<open>change\<close> cannot break either.
\<close>

definition blind :: "(machine \<Rightarrow> bool) \<Rightarrow> bool" where
  "blind Q \<longleftrightarrow> (\<forall>m t. Q m \<longrightarrow> Q (m\<lparr>m_trackers := t\<rparr>))"

definition closed :: "(machine \<Rightarrow> bool) \<Rightarrow> bool" where
  "closed Q \<longleftrightarrow> (\<forall>m a b. Q m \<longrightarrow> Q (set_flag a b m)) \<and> (\<forall>m t. Q m \<longrightarrow> Q (m\<lparr>m_trackers := t\<rparr>))"

definition movable :: "(machine \<Rightarrow> bool) \<Rightarrow> bool" where
  "movable Q \<longleftrightarrow> (\<forall>m c. Q m \<longrightarrow> Q (m\<lparr>m_current := c\<rparr>))"

definition on_fst :: "(machine \<Rightarrow> bool) \<Rightarrow> machine \<times> 'w \<Rightarrow> bool" where
  "on_fst Q s \<longleftrightarrow> Q (fst s)"

lemma closed_blind: "closed Q \<Longrightarrow> blind Q"
  by (simp add: closed_def blind_def)

lemma closed_conj: "closed P \<Longrightarrow> closed Q \<Longrightarrow> closed (\<lambda>m. P m \<and> Q m)"
  by (auto simp: closed_def)

lemma movable_conj: "movable P \<Longrightarrow> movable Q \<Longrightarrow> movable (\<lambda>m. P m \<and> Q m)"
  by (auto simp: movable_def)

lemma jobid_closed: "closed (\<lambda>m. m_jobid m = jid)" "movable (\<lambda>m. m_jobid m = jid)"
  by (auto simp: closed_def movable_def)

lemma closed_marks:
  assumes "closed Q" and "Q m"
  shows "Q (mark_succeeded s m)" "Q (mark_failed s m)" "Q (mark_repeat n m)" "Q (unmark_repeatable n m)"
  using assms by (auto simp: closed_def mark_succeeded_def mark_failed_def mark_repeat_def
      unmark_repeatable_def Let_def)

lemma closed_mark_running: "closed Q \<Longrightarrow> Q m \<Longrightarrow> Q (mark_running L n m)"
proof -
  assume c: "closed Q" and "Q m"
  then have "Q (mark_running_loop L n ss m)" for ss
    by (induction ss arbitrary: m) (auto simp: closed_marks)
  then show ?thesis by (simp add: mark_running_def)
qed

lemma on_machine_fst [act_inv]: "(\<And>m. Q m \<Longrightarrow> Q (f m)) \<Longrightarrow> keeps (on_fst Q) (on_machine f)"
  by (rule keepsI) (auto simp: on_machine_def modify_def on_fst_def)

lemma on_world_fst [act_inv]: "keeps (on_fst Q) (on_world a)"
  by (rule keepsI) (auto simp: on_world_def on_fst_def split: prod.splits)

lemma machine_get_fst [act_inv]: "keeps (on_fst Q) (machine_get f)"
  unfolding machine_get_def by (rule act_inv)

lemma metrics_fst: "blind Q \<Longrightarrow> keeps (on_fst Q) metrics"
  by (rule keepsI) (auto simp: metrics_def on_fst_def blind_def split: option.splits)

lemma post_completion_fst: "blind Q \<Longrightarrow> keeps (on_fst Q) (post_completion ops W j)"
proof (rule keepsI)
  fix s :: "machine \<times> 'a"
  assume "blind Q" and "on_fst Q s"
  then have "Q (push_metrics n ms (fst s))" for n ms
    by (simp add: blind_def push_metrics_def on_fst_def)
  with \<open>on_fst Q s\<close> show "on_fst Q (snd (post_completion ops W j s))"
    by (cases s) (auto simp: post_completion_def attempt_def bind_def machine_get_def py_eval
        on_fst_def split: prod.splits sum.splits)
qed

lemma cleanup_fst: "keeps (on_fst Q) (cleanup ops W)"
  unfolding cleanup_def by (intro act_inv) (auto intro!: act_inv split: option.split)

lemma change_fst:
  assumes "closed Q" and "movable Q"
  shows "keeps (on_fst Q) (change L ops W)"
proof -
  have f: "Q m \<Longrightarrow> Q (set_flag a b m)" for m a b using assms(1) by (simp add: closed_def)
  have c: "Q m \<Longrightarrow> Q (m\<lparr>m_current := t\<rparr>)" for m t using assms(2) by (simp add: movable_def)
  have "keeps (on_fst Q) (submit_current ops W)"
    unfolding submit_current_def
    by (auto intro!: act_inv closed_marks [OF assms(1)] split: prod.split option.split bool.split)
  then have "keeps (on_fst Q) (on_change ops W)"
    unfolding on_change_def by (auto intro!: act_inv f)
  then show ?thesis
    unfolding change_def by (auto intro!: act_inv c split: prod.split option.split)
qed

lemma trigger_grow_keys: "trigger_grow r step W = Inr W' \<Longrightarrow> dict_keys (jobs W') = dict_keys (jobs W)"
  using set_step_nodes_reads by (fastforce simp: trigger_grow_def rbind_Inr_iff split: if_splits)

lemma trigger_shrink_keys: "trigger_shrink r step W = Inr W' \<Longrightarrow> dict_keys (jobs W') = dict_keys (jobs W)"
  using set_step_nodes_reads by (fastforce simp: trigger_shrink_def rbind_Inr_iff split: if_splits)

lemma handle_event_tracked:
  "dict_get (trackers s) (jobid j) = Some i \<Longrightarrow> handle_event env j s =
    (if str_truthy (jobid j) \<and> str_truthy (step_name j)
     then andthen (add_timestamp_first_seen env (job_label j))
         (if is_active j \<and> \<not> is_completed j then ret () else handle_finished env j i) s
     else (Inr (), s))"
  by (auto simp: handle_event_def bind_def reads_def dict_in_def ret_def)

section \<open>Invariants of a workflow that stays as it is\<close>

text \<open>
  The first contract is about the operations that leave the workflow alone and do not mark
  machines: they may change the world, the times, the timings and the models of the store, and
  the metrics that the trackers of a machine have collected. \<open>own i\<close> says that methods of machine
  \<open>i\<close> may be called.
\<close>

locale manager_steady =
  fixes env :: "'w env" and I :: "'w mgr \<Rightarrow> bool" and own :: "nat \<Rightarrow> bool"
  assumes still: "I s \<Longrightarrow> wfl s' = wfl s \<Longrightarrow> heap s' = heap s \<Longrightarrow>
      trackers s' = trackers s \<Longrightarrow> (store_ok (store s) \<Longrightarrow> store_ok (store s')) \<Longrightarrow> I s'"
    and pushes: "own i \<Longrightarrow> (\<And>ns. keeps (ok_world ns) a) \<Longrightarrow> (\<And>Q. blind Q \<Longrightarrow> keeps (on_fst Q) a) \<Longrightarrow>
      keeps I (on_obj i (a :: ('w, unit) mact))"
    and pops: "own i \<Longrightarrow> keeps I (on_obj i metrics)"
begin

lemma modify_frame:
  assumes "\<And>s. wfl (f s) = wfl s \<and> heap (f s) = heap s \<and>
     trackers (f s) = trackers s \<and> (store_ok (store s) \<longrightarrow> store_ok (store (f s)))"
  shows "keeps I (modify f)"
  by (rule keeps_modify, rule still, assumption) (use assms in auto)

lemma in_world_frame [act_inv]: "keeps I (in_world a)"
  by (rule keepsI, rule still, assumption) (auto simp: in_world_def split: prod.splits)

lemma in_store_frame: "keeps store_ok a \<Longrightarrow> keeps I (in_store a)"
  by (rule keepsI, rule still, assumption)
    (auto simp: in_store_def keeps_def split: prod.splits dest: spec [of _ "store _"])

lemma add_timestamp_frame_inv [act_inv]: "keeps I (add_timestamp env name)"
  unfolding add_timestamp_def by (intro act_inv modify_frame) simp

lemma first_seen_frame [act_inv]: "keeps I (add_timestamp_first_seen env label)"
  unfolding add_timestamp_first_seen_def by (rule act_inv)

lemma timed_frame: "keeps I m \<Longrightarrow> keeps I (timed env name m)"
  unfolding timed_def by (intro act_inv modify_frame) simp_all

lemma get_current_state_frame [act_inv]: "keeps I (get_current_state env)"
  unfolding get_current_state_def list_jobs_by_status_def by (intro act_inv timed_frame)

lemma save_dir_frame [act_inv]: "keeps I (save_dir env)"
  unfolding save_dir_def by (intro act_inv)

lemma save_times_frame [act_inv]: "keeps I (save_times env)"
  unfolding save_times_def by (auto intro!: act_inv split: prod.split)

lemma complete_workflow_frame [act_inv]: "keeps I (complete_workflow env)"
  unfolding complete_workflow_def by (intro act_inv)

lemma check_complete_frame [act_inv]: "keeps I (check_complete env)"
  unfolding check_complete_def by (intro act_inv)

lemma generate_id_frame [act_inv]: "keeps I (generate_id env d)"
  by (induction d) (auto intro!: act_inv split: prod.split)

lemma new_jobs_frame: "keeps I (start_sequence env) \<Longrightarrow> keeps I (new_jobs env)"
  unfolding new_jobs_def by (intro act_inv)

lemma obj_get_frame [act_inv]: "keeps I (obj_get i f)"
  unfolding obj_get_def by (rule act_inv)

lemma load_custom_metrics_frame: "own i \<Longrightarrow> keeps I (load_custom_metrics env i)"
  unfolding load_custom_metrics_def by (intro act_inv pops in_store_frame)

lemma update_metrics_frame: "own i \<Longrightarrow> keeps I (update_metrics env j i)"
  unfolding update_metrics_def
  by (intro act_inv pushes post_completion_keeps post_completion_fst load_custom_metrics_frame in_store_frame)

end

section \<open>Invariants of the manager\<close>

text \<open>
  The second contract is about every operation: the rules and the configurations of the steps may
  change, and machines may be marked. The methods of the code keep machines well formed and keep
  every closed predicate. Such an invariant is in particular one of the first kind.
\<close>

locale manager_invariant =
  fixes env :: "'w env" and I :: "'w mgr \<Rightarrow> bool" and own :: "nat \<Rightarrow> bool"
  assumes frame: "I s \<Longrightarrow> dict_keys (jobs (wfl s')) = dict_keys (jobs (wfl s)) \<Longrightarrow> heap s' = heap s \<Longrightarrow>
      trackers s' = trackers s \<Longrightarrow> (store_ok (store s) \<Longrightarrow> store_ok (store s')) \<Longrightarrow> I s'"
    and methods: "own i \<Longrightarrow> (\<And>ns. keeps (ok_world ns) a) \<Longrightarrow> (\<And>Q. closed Q \<Longrightarrow> keeps (on_fst Q) a) \<Longrightarrow>
      keeps I (on_obj i (a :: ('w, unit) mact))"
    and collects: "own i \<Longrightarrow> keeps I (on_obj i metrics)"

sublocale manager_invariant \<subseteq> manager_steady
proof
  fix i and a :: "('w, unit) mact"
  assume "own i" and "\<And>ns. keeps (ok_world ns) a" and "\<And>Q. blind Q \<Longrightarrow> keeps (on_fst Q) a"
  then show "keeps I (on_obj i a)" by (intro methods) (auto dest: closed_blind)
qed (auto intro: frame collects)

context manager_invariant
begin

lemma mark_frame:
  assumes "own i" and "\<And>m ns. machine_ok ns m \<Longrightarrow> machine_ok ns (f m)" and "\<And>Q m. closed Q \<Longrightarrow> Q m \<Longrightarrow> Q (f m)"
  shows "keeps I (obj_mark i f)"
  unfolding obj_mark_def
proof (rule methods [OF assms(1)])
  fix ns
  show "keeps (ok_world ns) (on_machine f)"
    by (rule keepsI) (auto simp: on_machine_def modify_def ok_world_def assms(2))
qed (auto intro!: act_inv assms(3))

lemma marks_frame [act_inv]:
  assumes "own i"
  shows "keeps I (obj_mark i (mark_succeeded x))" "keeps I (obj_mark i (mark_failed x))"
    "keeps I (obj_mark i (mark_repeat n))" "keeps I (obj_mark i (mark_running L x))"
  by (rule mark_frame [OF assms]; auto simp: closed_marks closed_mark_running)+

lemma change_workflow_frame:
  assumes "\<And>W W'. f W = Inr W' \<Longrightarrow> dict_keys (jobs W') = dict_keys (jobs W)"
  shows "keeps I (change_workflow f)"
  by (rule keepsI, rule frame, assumption) (auto simp: change_workflow_def assms split: sum.splits)

lemma on_rule_frame [act_inv]: "keeps I (on_rule metric k a)"
  by (rule keepsI, rule frame, assumption) (auto simp: on_rule_def put_rule_def split: prod.splits)

lemma trigger_workflow_action_frame: "own i \<Longrightarrow> keeps I (trigger_workflow_action env r step i)"
  unfolding trigger_workflow_action_def too_early_def
  by (intro act_inv change_workflow_frame trigger_grow_keys trigger_shrink_keys)

lemma check_rules_frame: "own i \<Longrightarrow> keeps I (check_rules env names j i)"
  unfolding check_rules_def check_metric_def check_trigger_def
  by (auto intro!: act_inv trigger_workflow_action_frame split: prod.split list.split)

lemma succeed_job_frame:
  assumes "own i" and "job_succeeded j \<Longrightarrow> keeps I (obj_change env i)"
  shows "keeps I (succeed_job env j i)"
  unfolding succeed_job_def by (intro act_inv assms) (use assms(2) in auto)

lemma fail_job_frame: "own i \<Longrightarrow> keeps I (drop_tracker (jobid j)) \<Longrightarrow> keeps I (fail_job env j i)"
  unfolding fail_job_def by (intro act_inv methods cleanup_keeps cleanup_fst)

lemma handle_finished_frame:
  assumes "own i" and "job_succeeded j \<Longrightarrow> keeps I (obj_change env i)"
    and "job_failed j \<Longrightarrow> keeps I (drop_tracker (jobid j))" and "keeps I (start_sequence env)"
  shows "keeps I (handle_finished env j i)"
  unfolding handle_finished_def check_state_machine_metrics_def check_workflow_metrics_def
  by (intro act_inv update_metrics_frame check_rules_frame succeed_job_frame fail_job_frame new_jobs_frame
      assms(1,2,4)) (use assms(3) in auto)

lemma handle_event_frame:
  assumes "I s" and "\<And>i. dict_get (trackers s) (jobid j) = Some i \<Longrightarrow> own i"
    and "\<And>i. dict_get (trackers s) (jobid j) = Some i \<Longrightarrow> job_succeeded j \<Longrightarrow> keeps I (obj_change env i)"
    and "job_failed j \<Longrightarrow> keeps I (drop_tracker (jobid j))" and "keeps I (start_sequence env)"
  shows "I (snd (handle_event env j s))"
proof (cases "dict_get (trackers s) (jobid j)")
  case None
  then show ?thesis
    using assms(1) by (simp add: handle_event_def bind_def reads_def dict_in_def ret_def)
next
  case (Some i)
  have "keeps I (andthen (add_timestamp_first_seen env (job_label j))
         (if is_active j \<and> \<not> is_completed j then ret () else handle_finished env j i))"
    by (intro act_inv handle_finished_frame assms(4,5)) (use assms(2,3) Some in auto)
  from this [unfolded keeps_def, rule_format, OF assms(1)] assms(1) show ?thesis
    unfolding handle_event_tracked [OF Some] by (simp del: Let_def split: if_split)
qed

end

end
