(* ===== verification/Manager_Runs.thy ===== *)
theory Manager_Runs
  imports Manager_Invariant
begin

text \<open>
  Runs of the manager. \<open>mgr_inv\<close> is the invariant of its state: the steps of the workflow do not
  change, every machine is well formed and tracked under its own identifier, and for chosen
  machines a chosen predicate holds. Every operation keeps it, also when it raises; choosing the
  predicate gives that an event leaves the machines of other sequences alone and that a sequence
  without successful events does not move.
\<close>

section \<open>The invariant\<close>

definition mgr_inv ::
  "string list \<Rightarrow> nat \<Rightarrow> (nat \<Rightarrow> machine \<Rightarrow> bool) \<Rightarrow> (string option \<rightharpoonup> nat) \<Rightarrow> 'w mgr \<Rightarrow> bool" where
  "mgr_inv ns n0 R K s \<longleftrightarrow>
     dict_keys (jobs (wfl s)) = ns \<and> (\<forall>m \<in> set (heap s). machine_ok ns m) \<and>
     (\<forall>k i. dict_get (trackers s) k = Some i \<longrightarrow> i < length (heap s) \<and> m_jobid (heap s ! i) = k) \<and>
     store_ok (store s) \<and> n0 \<le> length (heap s) \<and> (\<forall>i < n0. R i (heap s ! i)) \<and>
     (\<forall>k i. K k = Some i \<longrightarrow> dict_get (trackers s) k = Some i)"

lemma mgr_inv_frame:
  "mgr_inv ns n0 R K s \<Longrightarrow> dict_keys (jobs (wfl s')) = dict_keys (jobs (wfl s)) \<Longrightarrow>
   heap s' = heap s \<Longrightarrow> trackers s' = trackers s \<Longrightarrow> store s' = store s \<Longrightarrow> mgr_inv ns n0 R K s'"
  by (simp add: mgr_inv_def)

text \<open>A method of machine \<open>i\<close>: it has to keep machines well formed, their identifier, and \<open>R i\<close>.\<close>

lemma on_obj_inv:
  assumes "keeps (ok_world ns) a" and "\<And>Q. closed Q \<Longrightarrow> movable Q \<Longrightarrow> keeps (on_fst Q) a"
    and "i < n0 \<Longrightarrow> keeps (on_fst (R i)) a"
  shows "keeps (mgr_inv ns n0 R K) (on_obj i a)"
proof (rule keepsI)
  fix s :: "'a mgr"
  assume s: "mgr_inv ns n0 R K s"
  obtain r m w where a: "a (heap s ! i, world s) = (r, (m, w))" by (metis prod.collapse)
  show "mgr_inv ns n0 R K (snd (on_obj i a s))"
  proof (cases "i < length (heap s)")
    case True
    then have "machine_ok ns (heap s ! i)" using s by (simp add: mgr_inv_def)
    then have ok: "machine_ok ns m" using keepsD [OF assms(1) _ a] by (simp add: ok_world_def)
    have id: "m_jobid m = m_jobid (heap s ! i)"
      using keepsD [OF assms(2) [OF jobid_closed] _ a, of "m_jobid (heap s ! i)"] by (simp add: on_fst_def)
    have R: "R i m" if "i < n0"
      using keepsD [OF assms(3) [OF that] _ a] s that by (simp add: on_fst_def mgr_inv_def)
    show ?thesis
      using s ok id R True a
      by (auto simp: on_obj_def mgr_inv_def nth_list_update dest: set_update_subset_insert [THEN subsetD])
  next
    case False
    then have "(heap s)[i := m] = heap s" by (simp add: list_update_beyond)
    then show ?thesis using s a by (simp add: on_obj_def mgr_inv_def)
  qed
qed

interpretation inv: manager_invariant env "mgr_inv ns n0 R K" "\<lambda>i. i < n0 \<longrightarrow> closed (R i)"
  for env ns n0 R K
proof
  fix i and a :: "('a, unit) mact"
  assume "i < n0 \<longrightarrow> closed (R i)" and "\<And>ns. keeps (ok_world ns) a" and "\<And>Q. closed Q \<Longrightarrow> keeps (on_fst Q) a"
  then show "keeps (mgr_inv ns n0 R K) (on_obj i a)" by (intro on_obj_inv) auto
next
  fix i
  assume "i < n0 \<longrightarrow> closed (R i)"
  then show "keeps (mgr_inv ns n0 R K) (on_obj i metrics)"
    by (intro on_obj_inv metrics_keeps metrics_fst) (auto dest: closed_blind)
qed (simp add: mgr_inv_def)

lemma obj_change_inv:
  assumes "transition_choice (lib_pick (e_lib env))" and "good_steps ns"
    and "i < n0 \<Longrightarrow> closed (R i) \<and> movable (R i)"
  shows "keeps (mgr_inv ns n0 R K) (obj_change env i)"
  unfolding obj_change_def
  by (intro act_inv on_obj_inv change_keeps change_fst) (use assms in auto)

section \<open>New machines\<close>

definition made :: "nat \<Rightarrow> string option \<Rightarrow> (nat \<Rightarrow> machine \<Rightarrow> bool) \<Rightarrow> nat \<Rightarrow> nat \<Rightarrow> machine \<Rightarrow> bool" where
  "made n0 jid R i k m \<longleftrightarrow> (k < n0 \<longrightarrow> R k m) \<and> (k = i \<longrightarrow> m_jobid m = jid)"

lemma made_inv:
  assumes "mgr_inv ns (Suc i) (made n0 jid R i) K s" and "n0 \<le> Suc i"
  shows "mgr_inv ns n0 R K s" "i < length (heap s)" "m_jobid (heap s ! i) = jid"
  using assms by (auto simp: mgr_inv_def made_def)

lemma made_intro:
  "mgr_inv ns 0 R K s \<Longrightarrow> i < length (heap s) \<Longrightarrow> m_jobid (heap s ! i) = jid \<Longrightarrow>
   mgr_inv ns (Suc i) (made 0 jid R i) K s"
  by (auto simp: mgr_inv_def made_def)

lemma new_machine_inv:
  assumes "good_steps ns"
  shows "hoare (mgr_inv ns n0 R K) (new_machine env jid)
    (\<lambda>i s. mgr_inv ns (Suc i) (made n0 jid R i) K s \<and> n0 \<le> i) (mgr_inv ns n0 R K)"
proof (rule hoareI)
  fix s i t
  assume s: "mgr_inv ns n0 R K s" and r: "new_machine env jid s = (Inr i, t)"
  then obtain c m w where c: "new_state_machine (wfl s) jid = Inr c"
    "create_state_machine_job (e_ops env) (wfl s) c (world s) = (Inr m, w)"
    and i: "i = length (heap s)" and t: "t = s\<lparr>world := w, heap := heap s @ [m]\<rparr>"
    by (auto simp: new_machine_def bind_def reads_def lift_def in_world_def modify_def ret_def
        split: prod.splits sum.splits)
  have ns: "dict_keys (jobs (wfl s)) = ns" using s by (simp add: mgr_inv_def)
  have m: "machine_ok ns m" "m_jobid m = jid"
    using created_machine [OF _ c] assms by (auto simp: ns)
  show "mgr_inv ns (Suc i) (made n0 jid R i) K t \<and> n0 \<le> i"
    using s m by (auto simp: mgr_inv_def t i made_def nth_append less_Suc_eq)
next
  fix s e t
  assume s: "mgr_inv ns n0 R K s" and r: "new_machine env jid s = (Inl e, t)"
  then have "\<exists>w. t = s\<lparr>world := w\<rparr> \<or> t = s"
    by (auto simp: new_machine_def bind_def reads_def lift_def in_world_def modify_def ret_def
        split: prod.splits sum.splits)
  with s show "mgr_inv ns n0 R K t" by (auto simp: mgr_inv_def)
qed

lemma obj_change_made:
  assumes "transition_choice (lib_pick (e_lib env))" and "good_steps ns" and "n0 \<le> i"
  shows "keeps (mgr_inv ns (Suc i) (made n0 jid R i) K) (obj_change env i)"
proof (rule obj_change_inv [OF assms(1,2)])
  have "made n0 jid R i i = (\<lambda>m. m_jobid m = jid)" using assms(3) by (simp add: made_def fun_eq_iff)
  then show "closed (made n0 jid R i i) \<and> movable (made n0 jid R i i)" by (simp add: jobid_closed)
qed

lemma set_tracker_made:
  assumes "n0 \<le> i" and "K jid = None"
  shows "hoare (mgr_inv ns (Suc i) (made n0 jid R i) K) (set_tracker jid i) (\<lambda>_. mgr_inv ns n0 R K) E"
proof -
  have "mgr_inv ns n0 R K (s\<lparr>trackers := dict_set jid i (trackers s)\<rparr>)"
    if s: "mgr_inv ns (Suc i) (made n0 jid R i) K s" for s :: "'a mgr"
    using made_inv [OF s] assms by (auto simp: mgr_inv_def)
  then show ?thesis unfolding set_tracker_def by (rule hoare_modify)
qed

lemma generate_id_inv:
  "hoare (mgr_inv ns n0 R K) (generate_id env d) (\<lambda>jid s. mgr_inv ns n0 R K s \<and> K (Some jid) = None)
     (mgr_inv ns n0 R K)"
proof (rule hoareI)
  fix s jid t
  assume s: "mgr_inv ns n0 R K s" and g: "generate_id env d s = (Inr jid, t)"
  have "K (Some jid) = None"
    using generate_id_result [OF g] s by (cases "K (Some jid)") (auto simp: mgr_inv_def dict_in_def)
  then show "mgr_inv ns n0 R K t \<and> K (Some jid) = None"
    using keepsD [OF inv.generate_id_frame s g] by simp
qed (rule keepsD [OF inv.generate_id_frame])

lemma start_sequence_inv:
  assumes "transition_choice (lib_pick (e_lib env))" and "good_steps ns"
  shows "keeps (mgr_inv ns n0 R K) (start_sequence env)"
proof (rule keeps_of_hoare, unfold start_sequence_def, rule hoare_bind [OF generate_id_inv], rule hoare_static)
  fix jid
  assume fresh: "K (Some jid) = None"
  show "hoare (mgr_inv ns n0 R K)
      (bind (new_machine env (Some jid)) (\<lambda>i. andthen (obj_change env i) (set_tracker (Some jid) i)))
      (\<lambda>_. mgr_inv ns n0 R K) (mgr_inv ns n0 R K)"
  proof (rule hoare_bind [OF new_machine_inv [OF assms(2)]], rule hoare_static, rule hoare_andthen)
    fix i
    assume i: "n0 \<le> i"
    show "hoare (mgr_inv ns (Suc i) (made n0 (Some jid) R i) K) (obj_change env i)
        (\<lambda>_. mgr_inv ns (Suc i) (made n0 (Some jid) R i) K) (mgr_inv ns n0 R K)"
      by (rule hoare_conseq [OF hoare_of_keeps [OF obj_change_made [OF assms i]]];
          (assumption | erule made_inv(1) [OF _ le_SucI [OF i]]))
    show "hoare (mgr_inv ns (Suc i) (made n0 (Some jid) R i) K) (set_tracker (Some jid) i)
        (\<lambda>_. mgr_inv ns n0 R K) (mgr_inv ns n0 R K)"
      by (rule set_tracker_made; rule i fresh)
  qed
qed

section \<open>Events\<close>

lemma drop_tracker_inv: "K k = None \<Longrightarrow> keeps (mgr_inv ns n0 R K) (drop_tracker k)"
  by (rule keepsI) (auto simp: drop_tracker_def modify_def mgr_inv_def split: if_splits)

lemma handle_event_inv:
  assumes "transition_choice (lib_pick (e_lib env))" and "good_steps ns"
    and "\<And>i. dict_get (trackers s) (jobid j) = Some i \<Longrightarrow> i < n0 \<Longrightarrow>
      closed (R i) \<and> (movable (R i) \<or> \<not> job_succeeded j)"
    and "job_failed j \<Longrightarrow> K (jobid j) = None" and "mgr_inv ns n0 R K s"
  shows "mgr_inv ns n0 R K (snd (handle_event env j s))"
proof (rule inv.handle_event_frame [OF assms(5)])
  fix i
  assume "dict_get (trackers s) (jobid j) = Some i"
  with assms(3) show "i < n0 \<longrightarrow> closed (R i)" and "job_succeeded j \<Longrightarrow> keeps (mgr_inv ns n0 R K) (obj_change env i)"
    by (auto intro!: obj_change_inv [OF assms(1,2)])
qed (auto intro: drop_tracker_inv start_sequence_inv assms)

section \<open>Restoring\<close>

lemma get_state_machine_inv:
  assumes "good_steps ns"
  shows "hoare (mgr_inv ns 0 R K) (get_state_machine env j)
    (\<lambda>i. mgr_inv ns (Suc i) (made 0 (jobid j) R i) K) (mgr_inv ns 0 R K)"
proof (rule hoareI)
  fix s i t
  assume s: "mgr_inv ns 0 R K s" and g: "get_state_machine env j s = (Inr i, t)"
  show "mgr_inv ns (Suc i) (made 0 (jobid j) R i) K t"
  proof (cases "dict_get (trackers s) (jobid j)")
    case None
    then have "new_machine env (jobid j) s = (Inr i, t)"
      using g by (simp add: get_state_machine_def bind_def reads_def)
    then show ?thesis using hoare_Inr [OF new_machine_inv [OF assms] s] by blast
  next
    case (Some k)
    then have "i = k" "t = s" using g by (simp_all add: get_state_machine_def bind_def reads_def ret_def)
    moreover have "k < length (heap s)" "m_jobid (heap s ! k) = jobid j"
      using s Some by (simp_all add: mgr_inv_def)
    ultimately show ?thesis using made_intro [OF s] by simp
  qed
next
  fix s e t
  assume s: "mgr_inv ns 0 R K s" and g: "get_state_machine env j s = (Inl e, t)"
  then have "new_machine env (jobid j) s = (Inl e, t)"
    by (simp add: get_state_machine_def bind_def reads_def ret_def split: option.splits)
  then show "mgr_inv ns 0 R K t" by (rule hoare_Inl [OF new_machine_inv [OF assms] s])
qed

lemma made_zero: "mgr_inv ns (Suc i) (made 0 jid R i) K s \<Longrightarrow> mgr_inv ns 0 R K s"
  using made_inv(1) by blast

lemma made_keeps:
  assumes "keeps (mgr_inv ns (Suc i) (made 0 jid R i) K) m"
  shows "hoare (mgr_inv ns (Suc i) (made 0 jid R i) K) m
    (\<lambda>_. mgr_inv ns (Suc i) (made 0 jid R i) K) (mgr_inv ns 0 R K)"
  by (rule hoare_conseq [OF hoare_of_keeps [OF assms]]; (assumption | erule made_zero))

lemma made_mark_running:
  "keeps (mgr_inv ns (Suc i) (made 0 jid R i) K) (obj_mark i (mark_running L x))"
proof (rule inv.marks_frame(4))
  have "made 0 jid R i i = (\<lambda>m. m_jobid m = jid)" by (simp add: made_def fun_eq_iff)
  then show "i < Suc i \<longrightarrow> closed (made 0 jid R i i)" by (simp add: jobid_closed)
qed

lemma restore_active_inv:
  assumes "good_steps ns"
  shows "keeps (mgr_inv ns 0 R Map.empty) (restore_active env j)"
  unfolding restore_active_def
  by (rule keeps_of_hoare, rule hoare_bind [OF get_state_machine_inv [OF assms]],
      rule hoare_andthen [OF made_keeps [OF made_mark_running]], rule set_tracker_made) simp_all

lemma restore_succeeded_inv:
  assumes "transition_choice (lib_pick (e_lib env))" and "good_steps ns"
  shows "keeps (mgr_inv ns 0 R Map.empty) (restore_succeeded env l j)"
proof -
  have "hoare (mgr_inv ns (Suc i) (made 0 (jobid j) R i) Map.empty)
      (attempt (andthen (obj_change env i) (set_tracker (jobid j) i)) (\<lambda>_. ret ()))
      (\<lambda>_. mgr_inv ns 0 R Map.empty) (mgr_inv ns 0 R Map.empty)" for i
  proof (rule hoare_attempt)
    show "hoare (mgr_inv ns (Suc i) (made 0 (jobid j) R i) Map.empty)
        (andthen (obj_change env i) (set_tracker (jobid j) i))
        (\<lambda>_. mgr_inv ns 0 R Map.empty) (mgr_inv ns 0 R Map.empty)"
      by (rule hoare_andthen [OF made_keeps [OF obj_change_made [OF assms le0]]], rule set_tracker_made) simp_all
    show "hoare (mgr_inv ns 0 R Map.empty) (ret ()) (\<lambda>_. mgr_inv ns 0 R Map.empty) (mgr_inv ns 0 R Map.empty)"
      by (rule hoare_ret)
  qed
  then have k: "keeps (mgr_inv ns 0 R Map.empty)
      (bind (get_state_machine env j) (\<lambda>i. andthen (obj_mark i (mark_running (e_lib env) (step_name j)))
           (attempt (andthen (obj_change env i) (set_tracker (jobid j) i)) (\<lambda>_. ret ()))))"
    by (intro keeps_of_hoare hoare_bind [OF get_state_machine_inv [OF assms(2)]]
        hoare_andthen [OF made_keeps [OF made_mark_running]])
  show ?thesis
    unfolding restore_succeeded_def by (rule keeps_bind [OF keeps_reads], rule keeps_if [OF keeps_ret k])
qed

lemma init_state_inv:
  assumes "transition_choice (lib_pick (e_lib env))" and "good_steps ns"
  shows "keeps (mgr_inv ns 0 R Map.empty) (init_state env)"
proof -
  have "keeps (mgr_inv ns 0 R Map.empty) (modify (\<lambda>s. s\<lparr>trackers := []\<rparr>))"
    by (rule keeps_modify) (simp add: mgr_inv_def)
  then show ?thesis
    unfolding init_state_def
    by (intro act_inv restore_active_inv [OF assms(2)] restore_succeeded_inv [OF assms])
qed

section \<open>What every run keeps\<close>

definition mgr_ok :: "string list \<Rightarrow> 'w mgr \<Rightarrow> bool" where
  "mgr_ok ns s \<longleftrightarrow>
     dict_keys (jobs (wfl s)) = ns \<and> (\<forall>m \<in> set (heap s). machine_ok ns m) \<and>
     (\<forall>k i. dict_get (trackers s) k = Some i \<longrightarrow> i < length (heap s) \<and> m_jobid (heap s ! i) = k) \<and>
     store_ok (store s)"

lemma mgr_ok_inv: "mgr_ok ns = mgr_inv ns 0 R Map.empty"
  by (rule ext) (simp add: mgr_ok_def mgr_inv_def)

lemma handle_event_ok:
  assumes "transition_choice (lib_pick (e_lib env))" and "good_steps ns"
  shows "keeps (mgr_ok ns) (handle_event env j)"
proof (rule keepsI)
  fix s :: "'a mgr"
  assume "mgr_ok ns s"
  then show "mgr_ok ns (snd (handle_event env j s))"
    unfolding mgr_ok_inv [of _ "\<lambda>_ _. True"] by (rule handle_event_inv [OF assms, rotated 2]) simp_all
qed

lemma start_sequence_ok:
  assumes "transition_choice (lib_pick (e_lib env))" and "good_steps ns"
  shows "keeps (mgr_ok ns) (start_sequence env)"
  unfolding mgr_ok_inv [of ns "\<lambda>_ _. True"] by (rule start_sequence_inv [OF assms])

lemma watch_ok:
  assumes "transition_choice (lib_pick (e_lib env))" and "good_steps ns"
  shows "keeps (mgr_ok ns) (watch env js)"
  unfolding watch_def by (rule keeps_for_each, rule handle_event_ok [OF assms])

lemma start_ok:
  assumes "transition_choice (lib_pick (e_lib env))" and "good_steps ns" and "mgr_ok ns s"
  shows "mgr_ok ns (snd (start env js s))"
proof -
  have w: "keeps (mgr_inv ns 0 (\<lambda>_ _. True) Map.empty) (watch env js)"
    using watch_ok [OF assms(1,2)] unfolding mgr_ok_inv [of _ "\<lambda>_ _. True"] .
  have "keeps (mgr_inv ns 0 (\<lambda>_ _. True) Map.empty) (start env js)"
    unfolding start_def by (intro act_inv inv.timed_frame init_state_inv inv.new_jobs_frame start_sequence_inv w assms)
  then show ?thesis using assms(3) unfolding mgr_ok_inv [of _ "\<lambda>_ _. True"] by (simp add: keeps_def)
qed

text \<open>C1. Running the manager on any sequence of events, with the cluster, the clock and the tracker
  behaving in any way and exceptions included, keeps its state consistent: the workflow keeps its
  steps, every state machine stays well formed, every tracked sequence has a machine of its own
  that carries the identifier it is tracked under, and the metrics store keeps its models.\<close>

theorem manager_run_consistent:
  assumes "transition_choice (lib_pick (e_lib env))" and "good_steps ns" and "mgr_ok ns s"
  shows "mgr_ok ns (snd (start env js s))"
  using assms by (rule start_ok)

section \<open>Sequences act independently\<close>

lemma handle_event_others:
  assumes "transition_choice (lib_pick (e_lib env))" and "good_steps ns" and "mgr_ok ns s"
    and "k < length (heap s)" and "dict_get (trackers s) (jobid j) \<noteq> Some k"
  shows "heap (snd (handle_event env j s)) ! k = heap s ! k \<and>
    (\<forall>jid i. jid \<noteq> jobid j \<and> dict_get (trackers s) jid = Some i \<longrightarrow>
       dict_get (trackers (snd (handle_event env j s))) jid = Some i)"
proof -
  define R where "R i m \<longleftrightarrow> (dict_get (trackers s) (jobid j) \<noteq> Some i \<longrightarrow> m = heap s ! i)" for i and m :: machine
  define K where "K = (dict_get (trackers s))(jobid j := None)"
  have inv: "mgr_inv ns (length (heap s)) R K s"
    using assms(3) by (auto simp: mgr_ok_def mgr_inv_def R_def K_def split: if_splits)
  have "mgr_inv ns (length (heap s)) R K (snd (handle_event env j s))"
    by (rule handle_event_inv [OF assms(1,2) _ _ inv]) (auto simp: K_def R_def closed_def movable_def)
  then show ?thesis
    using assms(4,5) by (auto simp: mgr_inv_def R_def K_def split: if_splits)
qed

text \<open>C5. The event of a job touches no sequence but its own: every machine except the one tracked for
  that job is exactly as before, every other tracked sequence keeps its machine, and new
  sequences get machines of their own.\<close>

theorem sequences_independent:
  assumes "transition_choice (lib_pick (e_lib env))" and "good_steps ns" and "mgr_ok ns s"
    and "k < length (heap s)" and "dict_get (trackers s) (jobid j) \<noteq> Some k"
  shows "heap (snd (handle_event env j s)) ! k = heap s ! k \<and>
    (\<forall>jid i. jid \<noteq> jobid j \<and> dict_get (trackers s) jid = Some i \<longrightarrow>
       dict_get (trackers (snd (handle_event env j s))) jid = Some i)"
  by (rule handle_event_others [OF assms])

section \<open>Sequences that do not advance\<close>

lemma watch_unsuccessful:
  assumes "transition_choice (lib_pick (e_lib env))" and "good_steps ns" and "mgr_ok ns s"
    and "dict_get (trackers s) k = Some i"
    and "\<forall>j \<in> set js. jobid j = k \<longrightarrow> \<not> job_succeeded j"
  shows "m_current (heap (snd (watch env js s)) ! i) = m_current (heap s ! i)"
proof -
  define R where "R x m \<longleftrightarrow> (x = i \<longrightarrow> m_current m = m_current (heap s ! i) \<and> m_jobid m = k)" for x and m :: machine
  have i: "i < length (heap s)" "m_jobid (heap s ! i) = k" using assms(3,4) by (auto simp: mgr_ok_def)
  have inv: "mgr_inv ns (Suc i) R Map.empty s"
    using assms(3) i by (auto simp: mgr_ok_def mgr_inv_def R_def)
  have "mgr_inv ns (Suc i) R Map.empty (snd (for_each js (handle_event env) s))"
    using inv assms(5)
  proof (induction js arbitrary: s)
    case Nil
    then show ?case by simp
  next
    case (Cons j js)
    have "mgr_inv ns (Suc i) R Map.empty (snd (handle_event env j s))"
    proof (rule handle_event_inv [OF assms(1,2) _ _ Cons.prems(1)])
      fix x
      assume x: "dict_get (trackers s) (jobid j) = Some x" "x < Suc i"
      have "x = i \<Longrightarrow> jobid j = k"
        using Cons.prems(1) x by (auto simp: mgr_inv_def R_def)
      moreover have "x \<noteq> i \<Longrightarrow> movable (R x)" by (auto simp: movable_def R_def)
      moreover have "closed (R x)" by (auto simp: closed_def R_def)
      ultimately show "closed (R x) \<and> (movable (R x) \<or> \<not> job_succeeded j)"
        using Cons.prems(2) by auto
    qed simp
    then show ?case
      using Cons.IH Cons.prems(2) by (auto split: prod.splits sum.splits)
  qed
  then show ?thesis by (auto simp: watch_def mgr_inv_def R_def)
qed

text \<open>C14. A sequence whose job events do not report success never leaves its current step, whatever
  else happens in the workflow. In particular a failed job that is marked \<open>always-succeed\<close> does
  not move its sequence: its event is not a success, so the event \<open>change\<close> is not sent.\<close>

theorem unsuccessful_events_never_advance:
  assumes "transition_choice (lib_pick (e_lib env))" and "good_steps ns" and "mgr_ok ns s"
    and "dict_get (trackers s) k = Some i"
    and "\<forall>j \<in> set js. jobid j = k \<longrightarrow> \<not> job_succeeded j"
  shows "m_current (heap (snd (watch env js s)) ! i) = m_current (heap s ! i)"
  by (rule watch_unsuccessful [OF assms])

section \<open>Events without effect\<close>

text \<open>An event of a job without identifier or step name, or of a sequence that is not tracked,
  changes nothing. An event of a tracked job that is active and not finished records at most the
  time the job was first seen.\<close>

theorem uninteresting_events_ignored:
  assumes "\<not> str_truthy (jobid j) \<or> \<not> str_truthy (step_name j) \<or> \<not> dict_in (jobid j) (trackers s) \<or>
    (is_active j \<and> \<not> is_completed j)"
  shows "(\<not> dict_in (jobid j) (trackers s) \<longrightarrow> handle_event env j s = (Inr (), s)) \<and>
    (\<exists>ts w. snd (handle_event env j s) = s\<lparr>stamps := ts, world := w\<rparr> \<and>
      (\<forall>name t. dict_get (stamps s) name = Some t \<longrightarrow> dict_get ts name = Some t))"
proof (cases "str_truthy (jobid j) \<and> str_truthy (step_name j) \<and> dict_in (jobid j) (trackers s)")
  case True
  have "handle_event env j s = andthen (add_timestamp_first_seen env (job_label j)) (ret ()) s"
    using True assms by (simp add: handle_event_def bind_def reads_def)
  also have "\<exists>ts w. snd \<dots> = s\<lparr>stamps := ts, world := w\<rparr> \<and>
      (\<forall>name t. dict_get (stamps s) name = Some t \<longrightarrow> dict_get ts name = Some t)"
  proof (cases "dict_in (job_label j @ ''_start'') (stamps s)")
    case True
    then show ?thesis
      by (intro exI [of _ "stamps s"] exI [of _ "world s"])
        (simp add: add_timestamp_first_seen_def add_timestamp_def andthen_def bind_def reads_def ret_def)
  next
    case False
    obtain r w where r: "e_clock env (world s) = (r, w)" by (cases "e_clock env (world s)")
    show ?thesis
    proof (cases r)
      case (Inl e)
      with False r show ?thesis
        by (intro exI [of _ "stamps s"] exI [of _ w])
          (simp add: add_timestamp_first_seen_def add_timestamp_def andthen_def bind_def reads_def in_world_def)
    next
      case (Inr t)
      with False r show ?thesis
        by (intro exI [of _ "dict_set (job_label j @ ''_start'') t (stamps s)"] exI [of _ w])
          (simp add: add_timestamp_first_seen_def add_timestamp_def andthen_def bind_def reads_def
            in_world_def modify_def ret_def dict_in_def)
    qed
  qed
  finally show ?thesis using True by simp
next
  case False
  then have "handle_event env j s = (Inr (), s)"
    by (auto simp: handle_event_def bind_def reads_def ret_def)
  then show ?thesis by (intro conjI impI exI [of _ "stamps s"] exI [of _ "world s"]) simp_all
qed

section \<open>Failed jobs\<close>

lemma add_timestamp_frame:
  assumes "add_timestamp env name s = (r, s')"
  shows "heap s' = heap s \<and> trackers s' = trackers s \<and> wfl s' = wfl s \<and> store s' = store s"
  using assms
  by (auto simp: add_timestamp_def bind_def reads_def ret_def in_world_def modify_def
      split: prod.splits sum.splits if_splits)

lemma obj_cleanup_frame:
  assumes "bind (reads wfl) (\<lambda>W. on_obj i (cleanup (e_ops env) W)) s = (r, s')"
  shows "heap s' = heap s \<and> trackers s' = trackers s"
proof -
  obtain r0 m w where c: "cleanup (e_ops env) (wfl s) (heap s ! i, world s) = (r0, (m, w))"
    by (metis prod.collapse)
  have "on_fst (\<lambda>x. x = heap s ! i) (m, w)"
    by (rule keepsD [OF cleanup_fst _ c]) (simp add: on_fst_def)
  with c assms show ?thesis
    by (auto simp: bind_def reads_def on_obj_def on_fst_def)
qed

text \<open>C13. Failing a tracked job ends its sequence: when the failure is handled without an exception,
  its machine has the failure mark of the step it was in and stays in that step, the sequence is
  not tracked any more, and every other sequence still is; so later events of it are ignored.\<close>

theorem fail_job_ends_sequence:
  assumes "mgr_ok ns s" and "dict_get (trackers s) (jobid j) = Some i"
    and "fail_job env j i s = (Inr (), s')"
  shows "\<not> dict_in (jobid j) (trackers s') \<and>
    flag (heap s' ! i) (failure_flag (m_current (heap s ! i))) \<and>
    m_current (heap s' ! i) = m_current (heap s ! i) \<and>
    (\<forall>k. k \<noteq> jobid j \<longrightarrow> dict_get (trackers s') k = dict_get (trackers s) k)"
proof -
  obtain s1 s2 s3 where
    s1: "add_timestamp env (job_label j @ ''_failed'') s = (Inr (), s1)"
    and s2: "obj_mark i (mark_failed None) s1 = (Inr (), s2)"
    and s3: "bind (reads wfl) (\<lambda>W. on_obj i (cleanup (e_ops env) W)) s2 = (Inr (), s3)"
    and s': "bind (reads trackers) (\<lambda>ts. if dict_in (jobid j) ts then drop_tracker (jobid j) else ret ()) s3 = (Inr (), s')"
    using assms(3) unfolding fail_job_def andthen_Inr_iff by blast
  note f1 = add_timestamp_frame [OF s1] and f3 = obj_cleanup_frame [OF s3]
  have f2: "heap s2 = (heap s)[i := mark_failed None (heap s ! i)]" "trackers s2 = trackers s"
    using s2 f1 by (auto simp: obj_mark_def on_obj_def on_machine_def modify_def)
  have i: "i < length (heap s)" using assms(1,2) by (simp add: mgr_ok_def)
  have t: "heap s' = heap s2" "trackers s' = dict_del (jobid j) (trackers s)"
    using s' f2 f3 assms(2)
    by (auto simp: bind_def reads_def drop_tracker_def modify_def dict_in_def)
  show ?thesis
    using i by (simp add: t f2 mark_failed_def or_current_def flag_set_flag)
qed

end
