(* ===== verification/Manager_Sequences.thy ===== *)
theory Manager_Sequences
  imports Manager_Runs
begin

text \<open>
  The life of one sequence in the manager: how it starts, how a success moves it, and which
  sequences a restart picks up. The theorems about runs are applied to a manager with two
  sequences at the end.
\<close>

section \<open>Starting a sequence\<close>

lemma start_sequence_steps:
  assumes "start_sequence env s = (Inr (), s')"
  obtains jid i s1 s2 s3 where
    "generate_id env (e_depth env) s = (Inr jid, s1)"
    "new_machine env (Some jid) s1 = (Inr i, s2)"
    "obj_change env i s2 = (Inr (), s3)"
    "s' = s3\<lparr>trackers := dict_set (Some jid) i (trackers s3)\<rparr>"
  using assms
  by (auto simp: start_sequence_def bind_Inr_iff andthen_Inr_iff set_tracker_def modify_def)

lemma new_machine_result:
  assumes "new_machine env jid s = (Inr i, s')" and "good_steps (dict_keys (jobs (wfl s)))"
  shows "\<exists>m w. i = length (heap s) \<and> s' = s\<lparr>world := w, heap := heap s @ [m]\<rparr> \<and>
    for_each (dict_keys (jobs (wfl s))) (op_new (e_ops env) (wfl s)) (world s) = (Inr (), w) \<and>
    machine_ok (dict_keys (jobs (wfl s))) m \<and> m_current m = ''start'' \<and> m_jobid m = jid \<and> all_false (m_attrs m)"
proof -
  obtain c m w where c: "new_state_machine (wfl s) jid = Inr c"
    "create_state_machine_job (e_ops env) (wfl s) c (world s) = (Inr m, w)"
    and r: "i = length (heap s)" "s' = s\<lparr>world := w, heap := heap s @ [m]\<rparr>"
    using assms(1)
    by (auto simp: new_machine_def bind_def reads_def lift_def in_world_def modify_def ret_def
        split: prod.splits sum.splits)
  then show ?thesis using created_machine [OF assms(2) c] created_world [OF assms(2) c] by blast
qed

text \<open>A predicate of the world that drawing numbers and making trackers keep.\<close>

definition world_kept :: "'w env \<Rightarrow> ('w \<Rightarrow> bool) \<Rightarrow> bool" where
  "world_kept env P \<longleftrightarrow> keeps P (e_draw env) \<and> (\<forall>W n. keeps P (op_new (e_ops env) W n))"

lemma in_world_keeps: "keeps P a \<Longrightarrow> keeps (\<lambda>s. P (world s)) (in_world a)"
  by (rule keepsI) (auto simp: in_world_def dest: keepsD split: prod.split)

lemma generate_id_world: "world_kept env P \<Longrightarrow> keeps (\<lambda>s. P (world s)) (generate_id env d)"
  by (induction d) (auto simp: world_kept_def intro!: act_inv in_world_keeps split: prod.split)

lemma new_machine_world:
  assumes "world_kept env P"
  shows "keeps (\<lambda>s. P (world s)) (new_machine env jid)"
proof -
  let ?Q = "\<lambda>s :: machine \<times> 'a. P (snd s)"
  have m: "keeps ?Q (on_machine f)" for f
    unfolding on_machine_def by (rule keeps_modify) auto
  have o: "keeps ?Q (on_world (op_new (e_ops env) W k))" for W k
  proof (rule keepsI)
    fix s :: "machine \<times> 'a"
    assume "?Q s"
    moreover have "keeps P (op_new (e_ops env) W k)" using assms by (simp add: world_kept_def)
    ultimately show "?Q (snd (on_world (op_new (e_ops env) W k) s))"
      by (auto simp: on_world_def keeps_def split: prod.splits)
  qed
  have n: "keeps ?Q (on_enter_start (e_ops env) W)" for W
    unfolding on_enter_start_def init_trackers_def machine_get_def by (intro act_inv m o)
  have "keeps P (create_state_machine_job (e_ops env) W c)" for W c
  proof (rule keepsI)
    fix w
    assume "P w"
    then have "?Q (snd (on_enter_start (e_ops env) W (fresh_machine c, w)))" using n [of W] by (simp add: keeps_def)
    then show "P (snd (create_state_machine_job (e_ops env) W c w))"
      by (auto simp: create_state_machine_job_def split: prod.splits sum.splits)
  qed
  then show ?thesis
    unfolding new_machine_def by (auto intro!: act_inv in_world_keeps keeps_modify)
qed

lemma sequence_started:
  assumes "transition_choice (lib_pick (e_lib env))" and "good_steps (dict_keys (jobs (wfl s)))"
    and "start_sequence env s = (Inr (), s')"
  shows "\<exists>jid m w1 w rec. (\<forall>P. world_kept env P \<longrightarrow> P (world s) \<longrightarrow> P w) \<and> \<not> dict_in (Some jid) (trackers s) \<and>
    generate_id env (e_depth env) s = (Inr jid, s\<lparr>world := w1\<rparr>) \<and>
    for_each (dict_keys (jobs (wfl s))) (op_new (e_ops env) (wfl s)) w1 = (Inr (), w) \<and>
    fst (op_submit (e_ops env) (wfl s) (hd (dict_keys (jobs (wfl s)))) (Some jid) False w) = Inr rec \<and>
    s' = s\<lparr>trackers := dict_set (Some jid) (length (heap s)) (trackers s), heap := heap s @ [m],
           world := snd (op_submit (e_ops env) (wfl s) (hd (dict_keys (jobs (wfl s)))) (Some jid) False w)\<rparr> \<and>
    machine_ok (dict_keys (jobs (wfl s))) m \<and> m_jobid m = Some jid \<and>
    m_current m = hd (dict_keys (jobs (wfl s))) \<and> all_false (m_attrs m)"
proof -
  define ns where "ns = dict_keys (jobs (wfl s))"
  have good: "good_steps ns" using assms(2) by (simp add: ns_def)
  obtain jid i s1 s2 s3 where g: "generate_id env (e_depth env) s = (Inr jid, s1)"
    and n: "new_machine env (Some jid) s1 = (Inr i, s2)" and ch: "obj_change env i s2 = (Inr (), s3)"
    and s': "s' = s3\<lparr>trackers := dict_set (Some jid) i (trackers s3)\<rparr>"
    by (rule start_sequence_steps [OF assms(3)])
  note gr = generate_id_result [OF g]
  have fresh: "\<not> dict_in (Some jid) (trackers s)" by (rule gr [THEN conjunct1])
  have s1: "s1 = s\<lparr>world := world s1\<rparr>" by (rule gr [THEN conjunct2, THEN conjunct1])
  have W1: "wfl s1 = wfl s" "heap s1 = heap s" "trackers s1 = trackers s" by (subst s1, simp)+
  obtain m w where i: "i = length (heap s)" and s2: "s2 = s1\<lparr>world := w, heap := heap s @ [m]\<rparr>"
    and news: "for_each ns (op_new (e_ops env) (wfl s)) (world s1) = (Inr (), w)"
    and m: "machine_ok ns m" "m_current m = ''start''" "m_jobid m = Some jid" "all_false (m_attrs m)"
    using new_machine_result [OF n] assms(2) by (auto simp: W1 ns_def)
  have nf: "\<not> flag m a" for a using m(4) by (auto simp: flag_def all_false_def) (metis rangeI)
  have "hd ns \<in> set ns" using good by (simp add: good_steps_def)
  moreover have "''complete'' \<notin> set ns" using good by (simp add: good_steps_def)
  ultimately have hd: "hd ns \<noteq> ''complete''" "hd ns \<in> set ns" by metis+
  have e: "change (e_lib env) (e_ops env) (wfl s) (m, w) = entered (e_ops env) (wfl s) (hd ns) (m, w)"
    using change_ok [OF assms(1) good m(1)] m(2) by simp
  obtain x w' where sub: "op_submit (e_ops env) (wfl s) (hd ns) (Some jid) False w = (x, w')"
    by (cases "op_submit (e_ops env) (wfl s) (hd ns) (Some jid) False w")
  have en: "entered (e_ops env) (wfl s) (hd ns) (m, w) = (case x of
      Inl err \<Rightarrow> (Inl err, (m\<lparr>m_current := hd ns\<rparr>, w')) | Inr _ \<Rightarrow> (Inr (), (m\<lparr>m_current := hd ns\<rparr>, w')))"
    using hd(1) nf m(3) sub by (simp add: entered_def Let_def)
  have h: "heap s2 ! i = m" "wfl s2 = wfl s" "world s2 = w" "heap s2 = heap s @ [m]"
    by (simp_all add: s2 i W1)
  have s3: "s3 = s2\<lparr>heap := heap s @ [m\<lparr>m_current := hd ns\<rparr>], world := w'\<rparr>"
    using ch unfolding obj_change_def bind_def reads_def on_obj_def h
    by (cases x) (simp_all add: h e en i)
  have "s' = s\<lparr>trackers := dict_set (Some jid) (length (heap s)) (trackers s),
      heap := heap s @ [m\<lparr>m_current := hd ns\<rparr>], world := w'\<rparr>"
    unfolding s' s3 s2 i by (subst s1) (simp add: W1)
  moreover have "\<forall>P. world_kept env P \<longrightarrow> P (world s) \<longrightarrow> P w"
    using keepsD [OF new_machine_world _ n] keepsD [OF generate_id_world _ g] h(3) by blast
  moreover obtain rec where "x = Inr rec"
    using ch unfolding obj_change_def bind_def reads_def on_obj_def h by (cases x) (simp_all add: h e en i)
  ultimately show ?thesis
    using fresh sub m(1,3,4) hd news g s1
    by (intro exI [of _ jid] exI [of _ "m\<lparr>m_current := hd ns\<rparr>"] exI [of _ "world s1"] exI [of _ w] exI [of _ rec])
      (simp add: ns_def [symmetric] machine_ok_move)
qed

text \<open>C10. Starting a new sequence, when nothing raises, gives it an identifier no tracked sequence has
  and a machine of its own, whose current state is the first step of the workflow, and nothing else
  of the manager's state changes. What happens outside is exactly this: the draws for the
  identifier, the making of one tracker for each step, and one submission, the fresh one of the first
  step under the new identifier, which does not raise.\<close>

theorem new_sequence_started:
  assumes "transition_choice (lib_pick (e_lib env))" and "good_steps (dict_keys (jobs (wfl s)))"
    and "start_sequence env s = (Inr (), s')"
  shows "\<exists>jid m w1 w2 rec w3. \<not> dict_in (Some jid) (trackers s) \<and>
    generate_id env (e_depth env) s = (Inr jid, s\<lparr>world := w1\<rparr>) \<and>
    for_each (dict_keys (jobs (wfl s))) (op_new (e_ops env) (wfl s)) w1 = (Inr (), w2) \<and>
    op_submit (e_ops env) (wfl s) (hd (dict_keys (jobs (wfl s)))) (Some jid) False w2 = (Inr rec, w3) \<and>
    s' = s\<lparr>trackers := dict_set (Some jid) (length (heap s)) (trackers s), heap := heap s @ [m], world := w3\<rparr> \<and>
    machine_ok (dict_keys (jobs (wfl s))) m \<and> m_jobid m = Some jid \<and>
    m_current m = hd (dict_keys (jobs (wfl s)))"
  using sequence_started [OF assms] by (metis prod.collapse)

section \<open>A success\<close>

lemma flag_move: "flag (m\<lparr>m_current := c\<rparr>) a = flag m a"
  by (simp add: flag_def)

text \<open>C11. Handling a success, when nothing raises, moves the machine of the sequence: in a step that is
  marked for repeat it stays in that step and the mark is used up, in any other step it
  goes to the next step of the workflow, or to \<open>complete\<close> after the last, and the finished step
  keeps its success mark.\<close>

theorem success_advances:
  assumes "transition_choice (lib_pick (e_lib env))" and "good_steps ns" and "mgr_ok ns s"
    and "i < length (heap s)" and "cur = m_current (heap s ! i)" and "cur \<in> set ns"
    and "job_succeeded j" and "succeed_job env j i s = (Inr (), s')"
    and "\<not> flag (heap s ! i) (success_flag cur)" and "\<not> flag (heap s ! i) (failure_flag cur)"
  shows "m_current (heap s' ! i) = (if flag (heap s ! i) (repeat_flag cur) then cur else next_in ns cur) \<and>
    (if flag (heap s ! i) (repeat_flag cur) then \<not> flag (heap s' ! i) (repeat_flag cur)
     else flag (heap s' ! i) (success_flag cur))"
proof -
  define m where "m = mark_succeeded None (heap s ! i)"
  have g: "''start'' \<notin> set ns" "''complete'' \<notin> set ns" using assms(2) by (auto simp: good_steps_def)
  have cur: "cur \<noteq> ''start''" "cur \<noteq> ''complete''" using assms(6) g by auto
  have ok: "machine_ok ns m"
    using assms(3,4) by (auto simp: m_def mgr_ok_def)
  have mc: "m_current m = cur" using assms(5) by (simp add: m_def)
  have fl: "flag m (repeat_flag cur) = flag (heap s ! i) (repeat_flag cur)"
    "flag m (success_flag cur) \<longleftrightarrow> \<not> flag (heap s ! i) (repeat_flag cur)"
    "\<not> flag m (failure_flag cur)"
    using assms(5,9,10) by (auto simp: m_def mark_succeeded_def or_current_def Let_def flag_set_flag)
  obtain s1 where ts: "add_timestamp env (job_label j @ ''_succeeded'') s = (Inr (), s1)"
    and rest: "andthen (obj_mark i (mark_succeeded None)) (bind (obj_get i m_current) (\<lambda>cur.
       if job_succeeded j \<and> cur \<noteq> ''complete'' then obj_change env i else ret ())) s1 = (Inr (), s')"
    using assms(8) by (auto simp: succeed_job_def andthen_Inr_iff)
  note f1 = add_timestamp_frame [OF ts]
  obtain r m' w' where e: "change (e_lib env) (e_ops env) (wfl s) (m, world s1) = (r, (m', w'))"
    by (metis prod.collapse)
  have s': "r = Inr ()" "heap s' ! i = m'"
    using rest f1 assms(4,7) mc cur e
    by (auto simp: andthen_def bind_def obj_mark_def on_obj_def on_machine_def modify_def obj_get_def
        reads_def obj_change_def m_def [symmetric])
  have ch: "change (e_lib env) (e_ops env) (wfl s) (m, world s1) =
      entered (e_ops env) (wfl s) (if flag (heap s ! i) (repeat_flag cur) then cur else next_in ns cur) (m, world s1)"
    using change_ok [OF assms(1,2) ok, where ops = "e_ops env" and wfl = "wfl s" and w = "world s1"] mc cur fl
    by simp
  show ?thesis
    using ch e s' fl cur
    by (auto simp: entered_def Let_def unmark_repeatable_def flag_set_flag flag_move split: prod.splits sum.splits if_splits)
qed

section \<open>What a restart looks at\<close>

text \<open>A tracker module that lists no failed jobs and is the same otherwise.\<close>

definition hide_failed :: "'w env \<Rightarrow> 'w env" where
  "hide_failed env = env\<lparr>e_ops := (e_ops env)\<lparr>op_list := (\<lambda>w. case op_list (e_ops env) w of
     (Inl e, w') \<Rightarrow> (Inl e, w') | (Inr js, w') \<Rightarrow> (Inr (js\<lparr>failed := []\<rparr>), w'))\<rparr>\<rparr>"

lemma op_list_unused:
  "create_state_machine_job (ops\<lparr>op_list := l\<rparr>) W c = create_state_machine_job ops W c"
  "change L (ops\<lparr>op_list := l\<rparr>) W = change L ops W"
proof -
  show "create_state_machine_job (ops\<lparr>op_list := l\<rparr>) W c = create_state_machine_job ops W c"
    by (rule ext) (unfold create_state_machine_job_def on_enter_start_def init_trackers_def, simp cong: if_cong)
  show "change L (ops\<lparr>op_list := l\<rparr>) W = change L ops W"
    unfolding change_def on_change_def submit_current_def
    by (simp cong: if_cong option.case_cong bool.case_cong)
qed

lemma hide_failed_same [simp]:
  "e_lib (hide_failed env) = e_lib env" "e_clock (hide_failed env) = e_clock env"
  "new_machine (hide_failed env) = new_machine env" "obj_change (hide_failed env) = obj_change env"
proof -
  show "e_lib (hide_failed env) = e_lib env" "e_clock (hide_failed env) = e_clock env"
    by (simp_all add: hide_failed_def)
  show "new_machine (hide_failed env) = new_machine env"
    by (rule ext) (simp add: new_machine_def hide_failed_def op_list_unused)
  show "obj_change (hide_failed env) = obj_change env"
    by (rule ext) (simp add: obj_change_def hide_failed_def op_list_unused)
qed

lemma hide_failed_restore:
  "restore_active (hide_failed env) = restore_active env"
  "restore_succeeded (hide_failed env) = restore_succeeded env"
proof -
  have g: "get_state_machine (hide_failed env) = get_state_machine env"
    by (rule ext) (simp add: get_state_machine_def cong: option.case_cong)
  show "restore_active (hide_failed env) = restore_active env"
    by (rule ext) (simp add: restore_active_def g)
  show "restore_succeeded (hide_failed env) = restore_succeeded env"
    by (rule ext, rule ext) (simp add: restore_succeeded_def g cong: if_cong)
qed

lemma hide_failed_listing:
  "list_jobs_by_status (hide_failed env) s = (case list_jobs_by_status env s of
     (Inl e, t) \<Rightarrow> (Inl e, t) | (Inr js, t) \<Rightarrow> (Inr (js\<lparr>failed := []\<rparr>), t))"
proof -
  have "in_world (op_list (e_ops (hide_failed env))) t = (case in_world (op_list (e_ops env)) t of
      (Inl e, u) \<Rightarrow> (Inl e, u) | (Inr js, u) \<Rightarrow> (Inr (js\<lparr>failed := []\<rparr>), u))" for t
    by (simp add: hide_failed_def in_world_def split: prod.splits sum.splits)
  then show ?thesis
    by (auto simp: list_jobs_by_status_def timed_def bind_def modify_def ret_def split: prod.splits sum.splits)
qed

definition restore_from :: "'w env \<Rightarrow> wjob by_status \<Rightarrow> ('w mgr, unit) act" where
  "restore_from env js =
     andthen (for_each (running js @ queued js) (restore_active env))
       (bind (reads wfl) (\<lambda>W.
        bind (lift (last_step W)) (\<lambda>l. for_each (success js) (restore_succeeded env l))))"

lemma init_state_restores:
  "init_state env s = (case list_jobs_by_status env (s\<lparr>trackers := []\<rparr>) of
     (Inl e, t) \<Rightarrow> (Inl e, t)
   | (Inr js, t) \<Rightarrow> (case last_step (wfl t) of Inl e \<Rightarrow> (Inl e, t) | Inr l \<Rightarrow> restore_from env js t))"
  by (simp add: init_state_def andthen_def bind_def modify_def get_current_state_def reads_def lift_def
      ret_def restore_from_def sort_state_mem(4) split: prod.splits sum.splits)

text \<open>C25. Restoring the machines after a restart does not look at failed jobs: it does the same when the
  listing shows none. A sequence with a failed job and a successful earlier step is picked up
  again like one that is still going on.\<close>

theorem restart_ignores_failures: "init_state (hide_failed env) = init_state env"
proof (rule ext)
  fix s
  have "restore_from (hide_failed env) (js\<lparr>failed := []\<rparr>) = restore_from env js" for js
    by (simp add: restore_from_def hide_failed_restore)
  then show "init_state (hide_failed env) s = init_state env s"
    unfolding init_state_restores hide_failed_listing by (simp split: prod.splits sum.splits)
qed

section \<open>A manager with two sequences\<close>

definition example_two :: "submission_call list mgr" where
  "example_two = example_mgr\<lparr>trackers := [(Some ''job_7'', 0), (Some ''job_8'', 1)],
     heap := [example_machine, example_machine\<lparr>m_jobid := Some ''job_8''\<rparr>]\<rparr>"

definition example_listing_env :: "submission_call list env" where
  "example_listing_env = example_env (\<lambda>h. Inr example_listing)"

lemma example_env_pick: "transition_choice (lib_pick (e_lib example_listing_env))"
  by (simp add: example_listing_env_def example_env_def example_pick)

lemma example_two_ok: "mgr_ok example_steps example_two"
proof -
  have "machine_ok example_steps (example_machine\<lparr>m_jobid := Some ''job_8''\<rparr>)"
    using example_machine_ok(1) by (simp add: machine_ok_def)
  then show ?thesis
    using example_machine_ok new_metrics_ok
    by (auto simp: mgr_ok_def example_two_def example_mgr_def example_loaded_def dict_keys_def
        example_steps_def)
qed

lemma example_two_heap: "length (heap example_two) = 2" "heap example_two ! 0 = example_machine"
  "heap example_two ! Suc 0 = example_machine\<lparr>m_jobid := Some ''job_8''\<rparr>"
  "trackers example_two = [(Some ''job_7'', 0), (Some ''job_8'', 1)]"
  by (simp_all add: example_two_def)

theorem manager_run_consistent_witness:
  "mgr_ok example_steps
     (snd (start example_listing_env [example_wjob ''job_7'' ''job_a'' True False False] example_two))"
  by (rule manager_run_consistent [OF example_env_pick example_good example_two_ok])

theorem sequences_independent_witness:
  "heap (snd (handle_event example_listing_env (example_wjob ''job_7'' ''job_a'' True False False) example_two)) ! 1 =
   example_machine\<lparr>m_jobid := Some ''job_8''\<rparr>"
  using sequences_independent [OF example_env_pick example_good example_two_ok, of 1
      "example_wjob ''job_7'' ''job_a'' True False False"]
  by (simp add: example_two_heap example_wjob_def)

theorem unsuccessful_events_never_advance_witness:
  "m_current (heap (snd (watch example_listing_env
     [example_wjob ''job_7'' ''job_a'' True True True, example_wjob ''job_8'' ''job_a'' True False False]
     example_two)) ! 0) = ''start''"
  using unsuccessful_events_never_advance [OF example_env_pick example_good example_two_ok,
      of "Some ''job_7''" 0 "[example_wjob ''job_7'' ''job_a'' True True True,
        example_wjob ''job_8'' ''job_a'' True False False]"]
  by (simp add: example_two_heap example_wjob_def example_machine_ok)

theorem uninteresting_events_ignored_witness:
  "handle_event example_listing_env (example_wjob ''job_9'' ''job_a'' True False False) example_two =
     (Inr (), example_two)"
  using uninteresting_events_ignored [of "example_wjob ''job_9'' ''job_a'' True False False" example_two
      example_listing_env]
  by (simp add: example_two_heap example_wjob_def dict_in_def)

theorem new_sequence_started_witness:
  "\<exists>s' m w. start_sequence example_draw example_mgr = (Inr (), s') \<and>
     heap s' = heap example_mgr @ [m] \<and> m_current m = ''job_a''"
proof -
  have p: "transition_choice (lib_pick (e_lib example_draw))"
    by (simp add: example_draw_def example_env_def example_pick)
  have k: "dict_keys (jobs (wfl example_mgr)) = example_steps"
    by (simp add: example_mgr_def example_loaded_def dict_keys_def example_steps_def)
  have "fst (start_sequence example_draw example_mgr) = Inr ()" by code_simp
  then obtain s' where s': "start_sequence example_draw example_mgr = (Inr (), s')"
    by (metis prod.collapse)
  have g: "good_steps (dict_keys (jobs (wfl example_mgr)))" by (simp add: k example_good)
  show ?thesis
    using new_sequence_started [OF p g s'] s' by (auto simp: k example_steps_def)
qed

text \<open>The same manager once its first sequence runs its first step.\<close>

definition example_going :: "submission_call list mgr" where
  "example_going = example_two\<lparr>heap := [example_machine\<lparr>m_current := ''job_a''\<rparr>,
     example_machine\<lparr>m_jobid := Some ''job_8''\<rparr>]\<rparr>"

lemma example_going_ok: "mgr_ok example_steps example_going"
proof -
  have "machine_ok example_steps (example_machine\<lparr>m_current := ''job_a''\<rparr>)"
    using example_machine_ok(1) by (intro machine_ok_move) (simp_all add: example_steps_def)
  then show ?thesis
    using example_two_ok example_machine_ok
    by (auto simp: mgr_ok_def example_going_def example_two_def split: if_splits)
qed

lemma example_going_flags: "\<not> flag (heap example_going ! 0) a"
proof -
  have "\<not> flag example_machine a"
    using example_machine_ok(4) by (auto simp: flag_def all_false_def) (metis rangeI)
  then show ?thesis by (simp add: example_going_def flag_move)
qed

theorem success_advances_witness:
  "\<exists>s'. succeed_job example_listing_env (example_wjob ''job_7'' ''job_a'' True False False) 0 example_going
       = (Inr (), s') \<and> m_current (heap s' ! 0) = ''job_b''"
proof -
  have "fst (succeed_job example_listing_env (example_wjob ''job_7'' ''job_a'' True False False) 0 example_going)
      = Inr ()"
    by code_simp
  then obtain s' where s': "succeed_job example_listing_env
      (example_wjob ''job_7'' ''job_a'' True False False) 0 example_going = (Inr (), s')"
    by (metis prod.collapse)
  have h: "length (heap example_going) = 2" "m_current (heap example_going ! 0) = ''job_a''"
    by (simp_all add: example_going_def)
  show ?thesis
    using success_advances [OF example_env_pick example_good example_going_ok _ refl _ _ s'] s'
      example_going_flags h
    by (simp add: example_steps_def example_wjob_def)
qed

theorem fail_job_ends_sequence_witness:
  "\<exists>s'. fail_job example_listing_env (example_wjob ''job_7'' ''job_a'' True True False) 0 example_going
       = (Inr (), s') \<and> \<not> dict_in (Some ''job_7'') (trackers s') \<and>
     flag (heap s' ! 0) (failure_flag ''job_a'')"
proof -
  have "fst (fail_job example_listing_env (example_wjob ''job_7'' ''job_a'' True True False) 0 example_going)
      = Inr ()"
    by code_simp
  then obtain s' where s': "fail_job example_listing_env
      (example_wjob ''job_7'' ''job_a'' True True False) 0 example_going = (Inr (), s')"
    by (metis prod.collapse)
  show ?thesis
    using fail_job_ends_sequence [OF example_going_ok _ s'] s'
    by (simp add: example_going_def example_two_def example_wjob_def)
qed

end
