(* ===== verification/Manager_Refinement.thy ===== *)
theory Manager_Refinement
  imports Manager_Sequences
begin

text \<open>
  The manager refines a small specification. To an observer a workflow is a map from the
  identifiers of its running sequences to the step each is in, and only three things happen to
  it: a sequence begins in the first step, a sequence goes on to the next step, a sequence ends.
  The event loop, with everything it does and every exception on the way, only ever makes such
  steps.
\<close>

section \<open>The specification\<close>

type_synonym sequences = "string option \<rightharpoonup> string"

definition next_of :: "string list \<Rightarrow> string \<Rightarrow> string" where
  "next_of ns s = (if s = ''start'' then hd ns else next_in ns s)"

inductive seq_step :: "string list \<Rightarrow> sequences \<Rightarrow> sequences \<Rightarrow> bool" for ns where
  begins: "a k = None \<Longrightarrow> seq_step ns a (a(k \<mapsto> hd ns))"
| goes_on: "a k = Some s \<Longrightarrow> s \<noteq> ''complete'' \<Longrightarrow> seq_step ns a (a(k \<mapsto> next_of ns s))"
| ends: "seq_step ns a (a(k := None))"

inductive_cases seq_stepE: "seq_step ns a b"

text \<open>What the specification allows over any number of steps.\<close>

abbreviation seq_steps :: "string list \<Rightarrow> sequences \<Rightarrow> sequences \<Rightarrow> bool" where
  "seq_steps ns \<equiv> (seq_step ns)\<^sup>*\<^sup>*"

section \<open>The abstraction\<close>

definition running_sequences :: "'w mgr \<Rightarrow> sequences" where
  "running_sequences s k = map_option (\<lambda>i. m_current (heap s ! i)) (dict_get (trackers s) k)"

definition follows :: "string list \<Rightarrow> sequences \<Rightarrow> 'w mgr \<Rightarrow> bool" where
  "follows ns a s \<longleftrightarrow> mgr_ok ns s \<and> seq_steps ns a (running_sequences s)"

lemma followsI:
  assumes "keeps (mgr_ok ns) m" and "\<And>s. mgr_ok ns s \<Longrightarrow> seq_steps ns (running_sequences s) (running_sequences (snd (m s)))"
  shows "keeps (follows ns a) m"
  by (rule keepsI) (use assms in \<open>auto simp: follows_def keeps_def intro: rtranclp_trans\<close>)

lemma mgr_ok_keeps: "(\<And>R. keeps (mgr_inv ns 0 R Map.empty) m) \<Longrightarrow> keeps (mgr_ok ns) m"
  unfolding mgr_ok_inv [of ns "\<lambda>_ _. True"] by blast

text \<open>A method of one machine changes at most the sequence of that machine.\<close>

lemma on_obj_sequences:
  assumes "mgr_ok ns s" and "a (heap s ! i, world s) = (r, (m, w))" and "i < length (heap s)"
  shows "running_sequences (snd (on_obj i a s)) = running_sequences s \<or>
    (\<exists>k. running_sequences s k = Some (m_current (heap s ! i)) \<and>
       running_sequences (snd (on_obj i a s)) = (running_sequences s)(k \<mapsto> m_current m))"
proof -
  have t: "trackers (snd (on_obj i a s)) = trackers s" "heap (snd (on_obj i a s)) = (heap s)[i := m]"
    using assms(2) by (simp_all add: on_obj_def)
  have r: "running_sequences (snd (on_obj i a s)) k =
      (if dict_get (trackers s) k = Some i then Some (m_current m) else running_sequences s k)" for k
    by (cases "dict_get (trackers s) k") (simp_all add: running_sequences_def t nth_list_update assms(3))
  show ?thesis
  proof (cases "\<exists>k. dict_get (trackers s) k = Some i")
    case True
    then obtain k where k: "dict_get (trackers s) k = Some i" by blast
    have u: "dict_get (trackers s) k' = Some i \<longleftrightarrow> k' = k" for k'
      using assms(1) k unfolding mgr_ok_def by metis
    have "running_sequences (snd (on_obj i a s)) = (running_sequences s)(k \<mapsto> m_current m)"
      by (intro ext) (simp add: r u)
    moreover have "running_sequences s k = Some (m_current (heap s ! i))"
      using k by (simp add: running_sequences_def)
    ultimately show ?thesis by blast
  next
    case False
    then have "running_sequences (snd (on_obj i a s)) = running_sequences s"
      by (intro ext) (simp add: r)
    then show ?thesis by blast
  qed
qed

lemma on_obj_beyond: "\<not> i < length (heap s) \<Longrightarrow> running_sequences (snd (on_obj i a s)) = running_sequences s"
  by (auto simp: on_obj_def running_sequences_def fun_eq_iff list_update_beyond split: prod.splits)

lemma on_obj_steady:
  assumes "mgr_ok ns s" and "\<And>Q. closed Q \<Longrightarrow> keeps (on_fst Q) a"
  shows "running_sequences (snd (on_obj i a s)) = running_sequences s"
proof (cases "i < length (heap s)")
  case True
  obtain r m w where a: "a (heap s ! i, world s) = (r, (m, w))" by (metis prod.collapse)
  have "closed (\<lambda>m. m_current m = c)" for c by (simp add: closed_def)
  from keepsD [OF assms(2) [OF this] _ a, of "m_current (heap s ! i)"]
  have "m_current m = m_current (heap s ! i)" by (simp add: on_fst_def)
  with on_obj_sequences [where a = a, OF assms(1) a True] show ?thesis by (auto simp: fun_upd_idem)
next
  case False
  then show ?thesis by (rule on_obj_beyond)
qed

interpretation follows: manager_invariant env "follows ns a" "\<lambda>i. True"
  for env ns a
proof
  fix i and f :: "('a, unit) mact"
  assume f: "\<And>ns. keeps (ok_world ns) f" "\<And>Q. closed Q \<Longrightarrow> keeps (on_fst Q) f"
  show "keeps (follows ns a) (on_obj i f)"
    by (rule followsI [OF mgr_ok_keeps]) (auto intro: inv.methods f simp: on_obj_steady [OF _ f(2)])
next
  fix i
  show "keeps (follows ns a) (on_obj i metrics)"
    by (rule followsI [OF mgr_ok_keeps]) (auto intro: inv.pops simp: on_obj_steady [OF _ metrics_fst [OF closed_blind]])
next
  fix s s' :: "'a mgr"
  assume s: "follows ns a s" and f: "dict_keys (jobs (wfl s')) = dict_keys (jobs (wfl s))" "heap s' = heap s"
    "trackers s' = trackers s" "store_ok (store s) \<Longrightarrow> store_ok (store s')"
  have "running_sequences s' = running_sequences s"
    by (simp add: running_sequences_def fun_eq_iff f(2,3))
  then show "follows ns a s'" using s f by (simp add: follows_def mgr_ok_def)
qed

section \<open>The steps of the manager\<close>

lemma entered_current: "m_current (fst (snd (entered ops W n (m, w)))) = n"
  by (auto simp: entered_def Let_def unmark_repeatable_def set_flag_def split: prod.splits sum.splits)

lemma change_moves:
  assumes "transition_choice (lib_pick L)" and "good_steps ns" and "machine_ok ns m"
  shows "m_current (fst (snd (change L ops W (m, w)))) = m_current m \<or>
    (m_current m \<noteq> ''complete'' \<and> m_current (fst (snd (change L ops W (m, w)))) = next_of ns (m_current m))"
  unfolding change_ok [OF assms] by (auto simp: entered_current next_of_def)

lemma obj_change_follows:
  assumes "transition_choice (lib_pick (e_lib env))" and "good_steps ns"
  shows "keeps (follows ns a) (obj_change env i)"
proof (rule followsI [OF mgr_ok_keeps])
  show "keeps (mgr_inv ns 0 R Map.empty) (obj_change env i)" for R
    by (rule obj_change_inv [OF assms]) simp
  fix s :: "'a mgr"
  assume s: "mgr_ok ns s"
  let ?ch = "change (e_lib env) (e_ops env) (wfl s)"
  have o: "obj_change env i s = on_obj i ?ch s" by (simp add: obj_change_def bind_def reads_def)
  show "seq_steps ns (running_sequences s) (running_sequences (snd (obj_change env i s)))"
  proof (cases "i < length (heap s)")
    case True
    obtain r m w where c: "?ch (heap s ! i, world s) = (r, (m, w))" by (metis prod.collapse)
    have "machine_ok ns (heap s ! i)" using s True by (simp add: mgr_ok_def)
    from change_moves [OF assms this, of "e_ops env" "wfl s" "world s"] c
    have m: "m_current m = m_current (heap s ! i) \<or>
        (m_current (heap s ! i) \<noteq> ''complete'' \<and> m_current m = next_of ns (m_current (heap s ! i)))" by simp
    from on_obj_sequences [where a = ?ch, OF s c True] show ?thesis
    proof (elim disjE exE conjE)
      fix k
      assume k: "running_sequences s k = Some (m_current (heap s ! i))"
        "running_sequences (snd (on_obj i ?ch s)) = (running_sequences s)(k \<mapsto> m_current m)"
      from m show ?thesis
        by (elim disjE conjE) (use k in \<open>auto simp: o fun_upd_idem intro!: r_into_rtranclp goes_on\<close>)
    qed (simp add: o)
  next
    case False
    then show ?thesis by (simp add: o on_obj_beyond)
  qed
qed

lemma drop_tracker_follows: "keeps (follows ns a) (drop_tracker k)"
proof (rule followsI [OF mgr_ok_keeps])
  show "keeps (mgr_inv ns 0 R Map.empty) (drop_tracker k)" for R by (rule drop_tracker_inv) simp
  fix s :: "'a mgr"
  have "running_sequences (snd (drop_tracker k s)) = (running_sequences s)(k := None)"
    by (auto simp: running_sequences_def drop_tracker_def modify_def fun_eq_iff)
  then show "seq_steps ns (running_sequences s) (running_sequences (snd (drop_tracker k s)))"
    using ends by (metis r_into_rtranclp)
qed

text \<open>When starting a sequence raises, nothing is tracked and the older machines are as before.\<close>

definition grown :: "(string option, nat) dict \<Rightarrow> machine list \<Rightarrow> 'w mgr \<Rightarrow> bool" where
  "grown T H s \<longleftrightarrow> trackers s = T \<and> (\<exists>ms. heap s = H @ ms)"

lemma in_world_grown [act_inv]: "keeps (grown T H) (in_world a)"
  by (rule keepsI) (auto simp: in_world_def grown_def split: prod.splits)

lemma generate_id_grown: "keeps (grown T H) (generate_id env d)"
  by (induction d) (auto intro!: act_inv split: prod.split)

lemma new_machine_grown:
  "hoare (grown T H) (new_machine env jid) (\<lambda>i s. grown T H s \<and> length H \<le> i) (grown T H)"
  by (rule hoareI)
    (auto simp: new_machine_def bind_def reads_def lift_def in_world_def modify_def ret_def grown_def
      split: prod.splits sum.splits)

lemma obj_change_grown: "length H \<le> i \<Longrightarrow> keeps (grown T H) (obj_change env i)"
  by (rule keepsI)
    (auto simp: obj_change_def bind_def reads_def on_obj_def grown_def list_update_append split: prod.splits)

lemma start_sequence_raises:
  assumes "start_sequence env s = (Inl e, s')"
  shows "grown (trackers s) (heap s) s'"
proof -
  let ?g = "grown (trackers s) (heap s)"
  have "hoare ?g (set_tracker jid i) (\<lambda>_ _. True) ?g" for jid i
    unfolding set_tracker_def by (rule hoare_modify) simp
  then have "hoare ?g (start_sequence env) (\<lambda>_ _. True) ?g"
    unfolding start_sequence_def
    by (intro hoare_bind [OF hoare_of_keeps [OF generate_id_grown]] hoare_bind [OF new_machine_grown] hoare_static
        hoare_andthen [OF hoare_of_keeps [OF obj_change_grown]])
  moreover have "?g s" by (simp add: grown_def)
  ultimately show ?thesis using assms by (rule hoare_Inl)
qed

lemma grown_sequences:
  "mgr_ok ns s \<Longrightarrow> grown (trackers s) (heap s) s' \<Longrightarrow> running_sequences s' = running_sequences s"
  by (rule ext) (auto simp: running_sequences_def grown_def mgr_ok_def nth_append intro!: option.map_cong0
      split: option.split dest: map_of_SomeD)

text \<open>A sequence that was started: the specification's step, and the submission that was made.\<close>

lemma start_sequence_running:
  assumes "transition_choice (lib_pick (e_lib env))" and "good_steps ns" and s: "mgr_ok ns s"
    and st: "start_sequence env s = (Inr (), s')"
  shows "\<exists>jid w rec. (\<forall>P. world_kept env P \<longrightarrow> P (world s) \<longrightarrow> P w) \<and> \<not> dict_in (Some jid) (trackers s) \<and>
    running_sequences s' = (running_sequences s)(Some jid \<mapsto> hd ns) \<and>
    op_submit (e_ops env) (wfl s) (hd ns) (Some jid) False w = (Inr rec, world s')"
proof -
  have k: "dict_keys (jobs (wfl s)) = ns" using s by (simp add: mgr_ok_def)
  obtain jid m w rec where P: "\<forall>P. world_kept env P \<longrightarrow> P (world s) \<longrightarrow> P w"
    and fresh: "\<not> dict_in (Some jid) (trackers s)" and m: "m_current m = hd ns"
    and sub: "fst (op_submit (e_ops env) (wfl s) (hd ns) (Some jid) False w) = Inr rec"
    and s': "s' = s\<lparr>trackers := dict_set (Some jid) (length (heap s)) (trackers s), heap := heap s @ [m],
      world := snd (op_submit (e_ops env) (wfl s) (hd ns) (Some jid) False w)\<rparr>"
    using sequence_started [OF assms(1) _ st] assms(2) unfolding k by blast
  have "i < length (heap s)" if "dict_get (trackers s) k = Some i" for k i
    using s that by (simp add: mgr_ok_def)
  then have "map_option (\<lambda>i. m_current ((heap s @ [m]) ! i)) (dict_get (trackers s) k) = running_sequences s k" for k
    by (cases "dict_get (trackers s) k") (simp_all add: running_sequences_def nth_append)
  then have "running_sequences s' = (running_sequences s)(Some jid \<mapsto> hd ns)"
    by (intro ext) (auto simp: running_sequences_def s' m update_conv')
  with P fresh sub s' show ?thesis by (intro exI [of _ jid] exI [of _ w] exI [of _ rec]) (simp add: prod_eq_iff)
qed

lemma start_sequence_follows:
  assumes "transition_choice (lib_pick (e_lib env))" and "good_steps ns"
  shows "keeps (follows ns a) (start_sequence env)"
proof (rule followsI [OF mgr_ok_keeps])
  show "keeps (mgr_inv ns 0 R Map.empty) (start_sequence env)" for R by (rule start_sequence_inv [OF assms])
  fix s :: "'a mgr"
  assume s: "mgr_ok ns s"
  obtain r s' where st: "start_sequence env s = (r, s')" by (cases "start_sequence env s")
  show "seq_steps ns (running_sequences s) (running_sequences (snd (start_sequence env s)))"
  proof (cases r)
    case (Inl e)
    then show ?thesis using grown_sequences [OF s start_sequence_raises] st by simp
  next
    case (Inr u)
    from start_sequence_running [OF assms s] st Inr obtain jid where
      "\<not> dict_in (Some jid) (trackers s)" "running_sequences s' = (running_sequences s)(Some jid \<mapsto> hd ns)" by auto
    moreover from this have "running_sequences s (Some jid) = None" by (simp add: running_sequences_def dict_in_def)
    ultimately show ?thesis using st by (simp add: r_into_rtranclp begins)
  qed
qed

text \<open>C2. The event loop refines the specification: from any consistent state, for every cluster and every
  stream of job events, and also when an exception ends the loop, the map from tracked
  sequences to their steps moves only by beginning a sequence in the first step, moving one to the
  step that follows its own, and ending one: between its beginning and its end no sequence goes
  back or skips a step.\<close>

theorem manager_refines_sequences:
  assumes "transition_choice (lib_pick (e_lib env))" and "good_steps ns" and "mgr_ok ns s"
  shows "(seq_step ns)\<^sup>*\<^sup>* (running_sequences s) (running_sequences (snd (watch env js s)))"
proof -
  have "keeps (follows ns (running_sequences s)) (watch env js)"
    unfolding watch_def
  proof (rule keeps_for_each, rule keepsI, rule follows.handle_event_frame)
    fix j i
    show "keeps (follows ns (running_sequences s)) (obj_change env i)" by (rule obj_change_follows [OF assms(1,2)])
    show "keeps (follows ns (running_sequences s)) (drop_tracker (jobid j))" by (rule drop_tracker_follows)
    show "keeps (follows ns (running_sequences s)) (start_sequence env)" by (rule start_sequence_follows [OF assms(1,2)])
  qed simp_all
  moreover have "follows ns (running_sequences s) s" using assms(3) by (simp add: follows_def)
  ultimately show ?thesis by (simp add: keeps_def follows_def)
qed

theorem manager_refines_sequences_witness:
  "(seq_step example_steps)\<^sup>*\<^sup>* (running_sequences example_going)
     (running_sequences (snd (watch example_listing_env [example_wjob ''job_7'' ''job_a'' True False False] example_going)))"
  by (rule manager_refines_sequences [OF example_env_pick example_good example_going_ok])

end
