(* ===== verification/Tracker_Base.thy ===== *)
theory Tracker_Base
  imports Tracker_Interface
begin

text \<open>
  What the trackers of both schedulers share: \<open>Job\<close> and \<open>BaseTracker\<close> of
  \<open>tracker/tracker.py\<close>. A tracker holds the description of its job (a dictionary of the
  workflow) and an adapter that talks to the scheduler; \<open>submit_job\<close> runs the protocol between
  them. The JSON parser and the import of a job's event script are parameters.
\<close>

section \<open>The job description\<close>

definition desc_name :: "pyval \<Rightarrow> string res" where
  "desc_name d = rbind (py_item d ''name'') string_of"

definition desc_config :: "pyval \<Rightarrow> pyval res" where
  "desc_config d = py_item d ''config''"

definition config_entry :: "pyval \<Rightarrow> string \<Rightarrow> pyval \<Rightarrow> pyval res" where
  "config_entry d k dflt = rbind (desc_config d) (\<lambda>c. py_get c k dflt)"

definition nnodes :: "pyval \<Rightarrow> int res" where
  "nnodes d = rbind (config_entry d ''nnodes'' (PInt 1)) py_int"

text \<open>\<open>tasks\<close> stays \<open>None\<close> when it is not set.\<close>

definition desc_tasks :: "pyval \<Rightarrow> pyval res" where
  "desc_tasks d = rbind (config_entry d ''tasks'' PNone) (\<lambda>t.
     if t = PNone then Inr PNone else rbind (py_int t) (\<lambda>i. Inr (PInt i)))"

definition ncores :: "pyval \<Rightarrow> int res" where
  "ncores d = rbind (config_entry d ''cores_per_task'' (PInt 1)) py_int"

definition ngpus :: "pyval \<Rightarrow> int res" where
  "ngpus d = rbind (config_entry d ''ngpus'' (PInt 0)) py_int"

definition assert :: "bool \<Rightarrow> unit res" where
  "assert b = (if b then Inr () else Inl AssertionError)"

definition check_resources :: "pyval \<Rightarrow> unit res" where
  "check_resources d =
     rbind (rbind (nnodes d) (\<lambda>n. assert (1 \<le> n))) (\<lambda>_.
     rbind (rbind (ncores d) (\<lambda>n. assert (1 \<le> n))) (\<lambda>_.
     rbind (ngpus d) (\<lambda>n. assert (0 \<le> n))))"

text \<open>The constructor of \<open>BaseTracker\<close>: the description of its job, checked.\<close>

definition base_tracker :: "workflow \<Rightarrow> string \<Rightarrow> pyval res" where
  "base_tracker W name = rbind (check_resources (get_job W name)) (\<lambda>_. Inr (get_job W name))"

definition total_nodes :: "workflow \<Rightarrow> pyval res" where
  "total_nodes W = rbind (cfg_entry W ''cluster'' ''max_nodes'') (\<lambda>n. Inr (py_or n (PInt 1)))"

text \<open>Properties may be given as a string to be parsed as JSON.\<close>

definition desc_properties :: "(string \<Rightarrow> pyval res) \<Rightarrow> pyval \<Rightarrow> pyval res" where
  "desc_properties json_loads d =
     rbind (py_get d ''properties'' (PDict [])) (\<lambda>p. case p of PStr s \<Rightarrow> json_loads s | _ \<Rightarrow> Inr p)"

definition desc_always_succeed :: "(string \<Rightarrow> pyval res) \<Rightarrow> pyval \<Rightarrow> bool res" where
  "desc_always_succeed json_loads d =
     rbind (desc_properties json_loads d) (\<lambda>p.
     rbind (py_get (py_or p (PDict [])) ''always-succeed'' PNone) (\<lambda>v. Inr (py_in v true_values)))"

definition save_path :: "(string \<Rightarrow> pyval res) \<Rightarrow> pyval \<Rightarrow> pyval res" where
  "save_path json_loads d =
     rbind (desc_properties json_loads d) (\<lambda>p. py_get (py_or p (PDict [])) ''save-path'' PNone)"

text \<open>\<open>extra_environment\<close>: one name and value entry for each variable.\<close>

definition extra_environment :: "pyval \<Rightarrow> pyval list res" where
  "extra_environment d =
     rbind (py_get d ''environment'' PNone) (\<lambda>e. case py_or e (PDict []) of
        PDict kvs \<Rightarrow> Inr (map (\<lambda>(k, v). PDict [(''name'', PStr k), (''value'', v)]) kvs)
      | _ \<Rightarrow> Inl AttributeError)"

text \<open>
  \<open>load_custom_events\<close>: the module of the job's event script, when it has one;
  \<open>import_script name text\<close> runs the script. The name is used for the path before the script is
  looked at. The temporary directory, the file the script is imported from and their removal are not
  part of the model.
\<close>

definition load_custom_events :: "(string \<Rightarrow> pyval \<Rightarrow> 'm res) \<Rightarrow> pyval \<Rightarrow> 'm option res" where
  "load_custom_events import_script d =
     rbind (desc_name d) (\<lambda>name.
     rbind (py_get d ''events'' PNone) (\<lambda>e.
     rbind (py_get (py_or e (PDict [])) ''script'' PNone) (\<lambda>script.
       if \<not> truthy script then Inr None
       else rbind (import_script name script) (\<lambda>m. Inr (Some m)))))"

section \<open>Registry settings\<close>

definition desc_registry :: "pyval \<Rightarrow> string \<Rightarrow> pyval res" where
  "desc_registry d k = rbind (py_get d ''registry'' (PDict [])) (\<lambda>r. py_get r k PNone)"

text \<open>A setting of the job goes before the workflow's.\<close>

definition tracker_registry_host :: "workflow \<Rightarrow> pyval \<Rightarrow> pyval res" where
  "tracker_registry_host W d =
     rbind (desc_registry d ''host'') (\<lambda>h. if h \<noteq> PNone then Inr h else registry_host W)"

definition tracker_plain_http :: "workflow \<Rightarrow> pyval \<Rightarrow> pyval res" where
  "tracker_plain_http W d =
     rbind (desc_registry d ''plain_http'') (\<lambda>p. if p \<noteq> PNone then Inr p else registry_plain_http W)"

definition tracker_push_to :: "pyval \<Rightarrow> pyval res" where
  "tracker_push_to d = desc_registry d ''push''"

definition tracker_pull_from :: "pyval \<Rightarrow> pyval res" where
  "tracker_pull_from d = desc_registry d ''pull''"

section \<open>The submission protocol\<close>

text \<open>
  \<open>submit_job\<close> over an adapter: \<open>create\<close> makes the step, \<open>submit\<close> submits it, \<open>tidy\<close> is the
  adapter's \<open>cleanup\<close>. A conflict means the job is already running and is left alone; any other
  outcome but success is cleaned up.
\<close>

definition submit_job ::
  "(string option \<Rightarrow> job_setup res) \<Rightarrow> (job_setup \<Rightarrow> string option \<Rightarrow> bool \<Rightarrow> ('w, job_submission) act) \<Rightarrow>
   (string \<Rightarrow> ('w, unit) act) \<Rightarrow> string option \<Rightarrow> bool \<Rightarrow> ('w, job_submission) act" where
  "submit_job create submit tidy jid again =
     bind (lift (create jid)) (\<lambda>step.
     bind (submit step jid again) (\<lambda>rec.
       andthen
         (if status rec = SubmitCONFLICT then ret ()
          else if status rec \<noteq> SubmitOK then tidy (setup_name step)
          else ret ())
         (ret rec)))"

text \<open>
  The contract of an adapter: cleaning up a step that was made does not raise. Then the protocol hands the adapter's
  answer on, whatever it is, and the cluster is only cleaned up after an error.
\<close>

locale submission_adapter =
  fixes create :: "string option \<Rightarrow> job_setup res"
    and submit :: "job_setup \<Rightarrow> string option \<Rightarrow> bool \<Rightarrow> ('w, job_submission) act"
    and tidy :: "string \<Rightarrow> ('w, unit) act"
  assumes tidy_returns: "create jid = Inr step \<Longrightarrow> fst (tidy (setup_name step) w) = Inr ()"
begin

lemma submit_job_answer:
  assumes "create jid = Inr step"
  shows "fst (submit_job create submit tidy jid again w) = fst (submit step jid again w)"
proof -
  obtain x w1 where s: "submit step jid again w = (x, w1)" by (cases "submit step jid again w")
  obtain w2 where t: "tidy (setup_name step) w1 = (Inr (), w2)"
    using tidy_returns [OF assms(1), of w1] by (cases "tidy (setup_name step) w1") auto
  show ?thesis
    using s t assms by (cases x) (simp_all add: submit_job_def bind_def lift_def andthen_def ret_def)
qed

lemma submit_job_world:
  assumes "create jid = Inr step" and "submit step jid again w = (Inr rec, w1)"
  shows "snd (submit_job create submit tidy jid again w) =
    (if status rec = SubmitERROR then snd (tidy (setup_name step) w1) else w1)"
proof -
  obtain w2 where t: "tidy (setup_name step) w1 = (Inr (), w2)"
    using tidy_returns [OF assms(1), of w1] by (cases "tidy (setup_name step) w1") auto
  show ?thesis
    using assms t by (cases "status rec") (simp_all add: submit_job_def bind_def lift_def andthen_def ret_def)
qed

end

section \<open>What the checks establish\<close>

text \<open>A tracker only exists for a step whose resources make sense: at least one node, at least one
  core for each task and no negative number of devices; a job without these settings passes.\<close>

theorem tracker_resources_checked:
  assumes "base_tracker W name = Inr d"
  shows "\<exists>n c g. dict_get (jobs W) name = Some d \<and> nnodes d = Inr n \<and> ncores d = Inr c \<and> ngpus d = Inr g \<and>
    1 \<le> n \<and> 1 \<le> c \<and> 0 \<le> g"
proof -
  have d: "d = get_job W name" "check_resources d = Inr ()"
    using assms by (auto simp: base_tracker_def rbind_Inr_iff)
  then obtain n c g where r: "nnodes d = Inr n" "1 \<le> n" "ncores d = Inr c" "1 \<le> c" "ngpus d = Inr g" "0 \<le> g"
    by (auto simp: check_resources_def rbind_Inr_iff assert_def split: if_splits)
  have "d \<noteq> PNone" using r(1) by (auto simp: nnodes_def config_entry_def desc_config_def)
  then have "dict_get (jobs W) name = Some d" using d(1) by (simp add: get_job_def split: option.splits)
  with r show ?thesis by blast
qed

theorem tracker_resources_checked_witness:
  "\<exists>d n. base_tracker (example_loaded []) ''job_b'' = Inr d \<and> nnodes d = Inr n \<and> 1 \<le> n"
proof -
  have "base_tracker (example_loaded []) ''job_b'' = Inr (get_job (example_loaded []) ''job_b'')"
    by (simp add: base_tracker_def check_resources_def nnodes_def ncores_def ngpus_def config_entry_def
        desc_config_def get_job_def example_loaded_def dict_at_def assert_def)
  from tracker_resources_checked [OF this] this show ?thesis by blast
qed

end
