(* ===== verification/Schemas.thy ===== *)
theory Schemas
  imports Tracker_Base
begin

text \<open>
  The JSON schemas of \<open>schema.py\<close>, as the values they are, and what a workflow that was validated
  with them is known to look like. The validator is a parameter of the loading functions; the
  hypothesis on it is that it only accepts values that conform to the keywords the two schemas
  use, in the meaning of the JSON Schema draft they name.
\<close>

section \<open>The schemas\<close>

definition config_definitions :: pyval where
  "config_definitions = PDict [
      (''workflow'', PDict [
        (''type'', PStr ''object''),
        (''required'', PList [PStr ''completed'']),
        (''properties'', PDict [
          (''completed'', PDict [(''type'', PStr ''number''), (''default'', PInt 4)]),
          (''prefix'', PDict [(''type'', PStr ''string'')]),
          (''events'', PDict [
            (''type'', PStr ''array''),
            (''items'', PDict [
              (''type'', PStr ''object''),
              (''properties'', PDict [
                (''action'', PDict [(''type'', PStr ''string'')]),
                (''when'', PDict [(''type'', PStr ''string'')]),
                (''metric'', PDict [(''type'', PStr ''string'')]),
                (''minCompletions'', PDict [(''type'', PList [PStr ''number'', PStr ''null''])]),
                (''maxSize'', PDict [(''type'', PList [PStr ''number'', PStr ''null''])]),
                (''minSize'', PDict [(''type'', PList [PStr ''number'', PStr ''null''])]),
                (''repetitions'', PDict [(''type'', PList [PStr ''number'', PStr ''null''])]),
                (''backoff'', PDict [(''type'', PList [PStr ''number'', PStr ''null''])])])])])]),
        (''additionalProperties'', PBool False)]),
      (''filesystem'', PDict [
        (''type'', PStr ''object''),
        (''properties'', PDict [(''path'', PDict [(''type'', PStr ''string'')])]),
        (''additionalProperties'', PBool False)]),
      (''registry'', PDict [
        (''type'', PStr ''object''),
        (''properties'', PDict [
          (''host'', PDict [(''type'', PStr ''string'')]),
          (''plain_http'', PDict [(''type'', PStr ''boolean''), (''default'', PBool True)])]),
        (''additionalProperties'', PBool False)]),
      (''cluster'', PDict [
        (''type'', PStr ''object''),
        (''properties'', PDict [
          (''max_size'', PDict [(''type'', PStr ''number''), (''default'', PInt 6)]),
          (''autoscale'', PDict [(''type'', PStr ''boolean''), (''default'', PBool False)])]),
        (''additionalProperties'', PBool False)]),
      (''logging'', PDict [
        (''type'', PStr ''object''),
        (''properties'', PDict [(''debug'', PDict [(''type'', PStr ''boolean''), (''default'', PBool False)])]),
        (''additionalProperties'', PBool False)]),
      (''jobs'', PDict [
        (''type'', PList [PStr ''array'']),
        (''items'', PDict [
          (''type'', PStr ''object''),
          (''properties'', PDict [
            (''name'', PDict [(''type'', PStr ''string'')]),
            (''events'', PDict [(''type'', PStr ''object'')])]),
          (''required'', PList [PStr ''config''])])])]"

definition config_properties :: pyval where
  "config_properties = PDict [
      (''jobs'', PDict [(''$ref'', PStr ''#/definitions/jobs'')]),
      (''workflow'', PDict [(''$ref'', PStr ''#/definitions/workflow'')]),
      (''cluster'', PDict [(''$ref'', PStr ''#/definitions/cluster'')]),
      (''registry'', PDict [(''$ref'', PStr ''#/definitions/registry'')]),
      (''logging'', PDict [(''$ref'', PStr ''#/definitions/logging'')]),
      (''config_dir'', PDict [(''type'', PStr ''string'')]),
      (''additionalProperties'', PBool False)]"

definition state_machine_config_schema :: pyval where
  "state_machine_config_schema = PDict [
    (''$schema'', PStr ''http://json-schema.org/draft-07/schema#''),
    (''$id'', PStr ''https://github.com/converged-computing/state-machine-operator/tree/main/python/state_machine_operator/schema.py''),
    (''title'', PStr ''state-machine-workflow-01''),
    (''description'', PStr ''State Machine Manager Config''),
    (''type'', PStr ''object''),
    (''required'', PList [PStr ''jobs'', PStr ''workflow'']),
    (''properties'', config_properties), (''definitions'', config_definitions)]"

definition job_definitions :: pyval where
  "job_definitions = PDict [
      (''registry'', PDict [
        (''type'', PList [PStr ''object'', PStr ''null'']),
        (''properties'', PDict [
          (''host'', PDict [(''type'', PStr ''string'')]),
          (''plain_http'', PDict [(''type'', PStr ''boolean''), (''default'', PBool True)]),
          (''push'', PDict [(''type'', PStr ''string'')]),
          (''pull'', PDict [(''type'', PStr ''string'')])]),
        (''additionalProperties'', PBool False)]),
      (''config'', PDict [
        (''type'', PStr ''object''),
        (''properties'', PDict [(''nnodes'', PDict [(''type'', PStr ''number''), (''default'', PInt 1)])])])]"

definition job_properties :: pyval where
  "job_properties = PDict [
      (''name'', PDict [(''type'', PStr ''string'')]),
      (''config'', PDict [(''$ref'', PStr ''#/definitions/config'')]),
      (''script'', PDict [(''type'', PStr ''string'')]),
      (''image'', PDict [(''type'', PStr ''string'')]),
      (''registry'', PDict [(''$ref'', PStr ''#/definitions/registry'')]),
      (''properties'', PDict [(''type'', PList [PStr ''object'', PStr ''null''])]),
      (''environment'', PDict [(''type'', PList [PStr ''object'', PStr ''null''])]),
      (''workdir'', PDict [(''type'', PStr ''string''), (''default'', PStr ''/tmp/out'')]),
      (''additionalProperties'', PBool False)]"

definition state_machine_job_schema :: pyval where
  "state_machine_job_schema = PDict [
    (''$schema'', PStr ''http://json-schema.org/draft-07/schema#''),
    (''$id'', PStr ''https://github.com/converged-computing/state-machine-operator/tree/main/python/state_machine_operator/schema.py''),
    (''title'', PStr ''state-machine-job-01''),
    (''description'', PStr ''State Machine Job Config''),
    (''type'', PStr ''object''),
    (''required'', PList [PStr ''name'', PStr ''config'', PStr ''script'']),
    (''properties'', job_properties), (''definitions'', job_definitions)]"

section \<open>Conformance\<close>

text \<open>The types of the draft; a boolean is no number.\<close>

fun json_type :: "string \<Rightarrow> pyval \<Rightarrow> bool" where
  "json_type t PNone = (t = ''null'')"
| "json_type t (PBool b) = (t = ''boolean'')"
| "json_type t (PInt i) = (t = ''number'' \<or> t = ''integer'')"
| "json_type t (PFloat x) = (t = ''number'' \<or> (t = ''integer'' \<and> x = of_int \<lfloor>x\<rfloor>))"
| "json_type t (PInf neg) = (t = ''number'')"
| "json_type t PNan = (t = ''number'')"
| "json_type t (PStr s) = (t = ''string'')"
| "json_type t (PList xs) = (t = ''array'')"
| "json_type t (PDict d) = (t = ''object'')"

definition type_ok :: "pyval option \<Rightarrow> pyval \<Rightarrow> bool" where
  "type_ok t v = (case t of
      Some (PStr s) \<Rightarrow> json_type s v
    | Some (PList ts) \<Rightarrow> list_ex (\<lambda>t. case t of PStr s \<Rightarrow> json_type s v | _ \<Rightarrow> False) ts
    | _ \<Rightarrow> True)"

definition required_ok :: "pyval option \<Rightarrow> pyval \<Rightarrow> bool" where
  "required_ok r v = (case (r, v) of
      (Some (PList ks), PDict kvs) \<Rightarrow> list_all (\<lambda>k. case k of PStr s \<Rightarrow> dict_in s kvs | _ \<Rightarrow> True) ks
    | _ \<Rightarrow> True)"

text \<open>\<open>#/definitions/name\<close>, the only kind of reference the schemas use.\<close>

definition ref_target :: "pyval \<Rightarrow> string \<Rightarrow> pyval option" where
  "ref_target doc r = (case doc of
      PDict d \<Rightarrow> (case dict_get d ''definitions'' of
          Some (PDict defs) \<Rightarrow> (if take 14 r = ''#/definitions/'' then dict_get defs (drop 14 r) else None)
        | _ \<Rightarrow> None)
    | _ \<Rightarrow> None)"

definition sub_schema :: "(string \<times> pyval) list \<Rightarrow> string \<Rightarrow> pyval option" where
  "sub_schema d k = (case dict_get d ''properties'' of Some (PDict ps) \<Rightarrow> dict_get ps k | _ \<Rightarrow> None)"

text \<open>The depth bounds how often references and sub-schemas are entered.\<close>

fun conforms :: "nat \<Rightarrow> pyval \<Rightarrow> pyval \<Rightarrow> pyval \<Rightarrow> bool" where
  "conforms 0 doc s v = False"
| "conforms (Suc n) doc s v = (case s of
      PBool b \<Rightarrow> b
    | PDict d \<Rightarrow> (case dict_get d ''$ref'' of
          Some (PStr r) \<Rightarrow> (case ref_target doc r of None \<Rightarrow> False | Some t \<Rightarrow> conforms n doc t v)
        | _ \<Rightarrow> type_ok (dict_get d ''type'') v \<and> required_ok (dict_get d ''required'') v \<and>
            (case v of
              PDict kvs \<Rightarrow> list_all (\<lambda>(k, x). case sub_schema d k of
                  Some t \<Rightarrow> conforms n doc t x
                | None \<Rightarrow> dict_get d ''additionalProperties'' \<noteq> Some (PBool False)) kvs
            | PList xs \<Rightarrow> (case dict_get d ''items'' of
                  None \<Rightarrow> True | Some t \<Rightarrow> list_all (conforms n doc t) xs)
            | _ \<Rightarrow> True))
    | _ \<Rightarrow> False)"

definition sound_validator :: "schema_check \<Rightarrow> bool" where
  "sound_validator js \<longleftrightarrow> (\<forall>s v. js s v \<longrightarrow> (\<exists>n. conforms n s s v))"

section \<open>Validated jobs\<close>

text \<open>The entries of a job that its schema speaks about.\<close>

lemma conforms_entry:
  assumes "conforms n doc (PDict d) (PDict kvs)" and "dict_get d ''$ref'' = None" and "dict_get kvs k = Some x"
    and "sub_schema d k = Some t"
  shows "\<exists>m. conforms m doc t x"
proof -
  obtain m where m: "n = Suc m" using assms(1) by (cases n) auto
  have "(k, x) \<in> set kvs" using assms(3) by (rule map_of_SomeD)
  then show ?thesis using assms(1,2,4) by (fastforce simp: m list_all_iff)
qed

lemma conforms_type:
  "conforms n doc (PDict d) v \<Longrightarrow> dict_get d ''$ref'' = None \<Longrightarrow> type_ok (dict_get d ''type'') v"
  by (cases n) auto

lemma conforms_required:
  "conforms n doc (PDict d) (PDict kvs) \<Longrightarrow> dict_get d ''$ref'' = None \<Longrightarrow>
   dict_get d ''required'' = Some (PList (map PStr ks)) \<Longrightarrow> k \<in> set ks \<Longrightarrow> \<exists>x. dict_get kvs k = Some x"
  by (cases n) (auto simp: required_ok_def list_all_iff dict_in_def)

lemma conforms_ref:
  assumes "conforms n doc (PDict d) v" and "dict_get d ''$ref'' = Some (PStr r)" and "ref_target doc r = Some t"
  shows "\<exists>m. conforms m doc t v"
  using assms by (cases n) auto

text \<open>What \<open>int(v)\<close> gives for a number: a whole number, unless it is infinite or undefined.\<close>

definition whole_number :: "pyval \<Rightarrow> bool" where
  "whole_number v \<longleftrightarrow> (if nonfinite v then py_int v = Inl (to_int_error v) else \<exists>i. py_int v = Inr i)"

lemma type_ok_cases:
  "type_ok (Some (PStr ''object'')) v \<Longrightarrow> \<exists>d. v = PDict d"
  "type_ok (Some (PStr ''string'')) v \<Longrightarrow> \<exists>s. v = PStr s"
  "type_ok (Some (PStr ''number'')) v \<Longrightarrow> whole_number v"
  "type_ok (Some (PList [PStr ''object'', PStr ''null''])) v \<Longrightarrow> v = PNone \<or> (\<exists>d. v = PDict d)"
  by (cases v; simp add: type_ok_def whole_number_def)+

lemma conforms_closed:
  assumes "conforms n doc (PDict d) (PDict kvs)" and "dict_get d ''$ref'' = None"
    and "dict_get d ''additionalProperties'' = Some (PBool False)" and "sub_schema d k = None"
  shows "dict_get kvs k = None"
proof (cases "dict_get kvs k")
  case (Some x)
  obtain m where m: "n = Suc m" using assms(1) by (cases n) auto
  from Some have "(k, x) \<in> set kvs" by (rule map_of_SomeD)
  then show ?thesis using assms by (fastforce simp: m list_all_iff)
qed

text \<open>The properties of the two schemas, and the definitions they refer to.\<close>

lemmas schema_lookup = state_machine_job_schema_def job_properties_def job_definitions_def
  state_machine_config_schema_def config_properties_def config_definitions_def sub_schema_def ref_target_def

text \<open>What is known of a job before its name is written into its configuration.\<close>

lemma validated_job:
  assumes "conforms n state_machine_job_schema state_machine_job_schema job"
  shows "\<exists>kvs conf. job = PDict kvs \<and> dict_get kvs ''config'' = Some (PDict conf) \<and>
    (\<forall>v. dict_get conf ''nnodes'' = Some v \<longrightarrow> whole_number v) \<and>
    (\<forall>v. dict_get kvs ''environment'' = Some v \<longrightarrow> v = PNone \<or> (\<exists>d. v = PDict d)) \<and>
    (\<forall>v. dict_get kvs ''properties'' = Some v \<longrightarrow> v = PNone \<or> (\<exists>d. v = PDict d))"
proof -
  obtain S where S: "state_machine_job_schema = PDict S" by (simp add: state_machine_job_schema_def)
  have look: "dict_get S ''$ref'' = None" "dict_get S ''type'' = Some (PStr ''object'')"
    "dict_get S ''required'' = Some (PList (map PStr [''name'', ''config'', ''script'']))"
    "sub_schema S ''environment'' = Some (PDict [(''type'', PList [PStr ''object'', PStr ''null''])])"
    "sub_schema S ''properties'' = Some (PDict [(''type'', PList [PStr ''object'', PStr ''null''])])"
    "sub_schema S ''config'' = Some (PDict [(''$ref'', PStr ''#/definitions/config'')])"
    "ref_target (PDict S) ''#/definitions/config'' = Some (PDict [
        (''type'', PStr ''object''),
        (''properties'', PDict [(''nnodes'', PDict [(''type'', PStr ''number''), (''default'', PInt 1)])])])"
    using S by (auto simp: schema_lookup)
  note c = assms [unfolded S]
  obtain kvs where kvs: "job = PDict kvs"
    using type_ok_cases(1) conforms_type [OF c look(1)] look(2) by auto
  note c = c [unfolded kvs]
  obtain confv where confv: "dict_get kvs ''config'' = Some confv"
    using conforms_required [OF c look(1,3), of "''config''"] by auto
  obtain m where "conforms m (PDict S) (PDict [(''$ref'', PStr ''#/definitions/config'')]) confv"
    using conforms_entry [OF c look(1) confv look(6)] by blast
  from conforms_ref [OF this _ look(7)] obtain m where
    conf: "conforms m (PDict S) (PDict [(''type'', PStr ''object''),
        (''properties'', PDict [(''nnodes'', PDict [(''type'', PStr ''number''), (''default'', PInt 1)])])]) confv"
    by auto
  obtain cf where cf: "confv = PDict cf"
    using type_ok_cases(1) conforms_type [OF conf] by auto
  have nn: "whole_number v" if "dict_get cf ''nnodes'' = Some v" for v
    using conforms_entry [OF conf [unfolded cf] _ that, of "PDict [(''type'', PStr ''number''), (''default'', PInt 1)]"]
      conforms_type type_ok_cases(3) by (fastforce simp: sub_schema_def)
  have opt: "v = PNone \<or> (\<exists>d. v = PDict d)"
    if "dict_get kvs k = Some v" "sub_schema S k = Some (PDict [(''type'', PList [PStr ''object'', PStr ''null''])])" for k v
    using conforms_entry [OF c look(1) that] conforms_type type_ok_cases(4) by fastforce
  show ?thesis
    using kvs confv cf nn opt [OF _ look(4)] opt [OF _ look(5)] by auto
qed

text \<open>
  A job whose typed entries can be read: its name, its environment and its mark of success, and its
  nodes unless they are given as an infinite or undefined float, which a schema of numbers allows and
  whose conversion raises.
\<close>

definition job_readable :: "string \<Rightarrow> pyval \<Rightarrow> bool" where
  "job_readable name d \<longleftrightarrow> desc_name d = Inr name \<and>
     (\<exists>v. config_entry d ''nnodes'' (PInt 1) = Inr v \<and>
        (if nonfinite v then nnodes d = Inl (to_int_error v) else \<exists>n. nnodes d = Inr n)) \<and>
     (\<exists>env. extra_environment d = Inr env) \<and>
     (\<forall>json_loads. \<exists>b. desc_always_succeed json_loads d = Inr b)"

lemma loaded_job_readable:
  assumes "load_job fs js state_machine_job_schema dir c = Inr (c', key, job)" and "sound_validator js"
  shows "job_readable key job"
proof -
  obtain job0 name conf conf' n where
    name: "py_item job0 ''name'' = Inr name" "string_of name = Inr key"
    and conf: "py_item job0 ''config'' = Inr conf" "py_setitem conf ''name'' name = Inr conf'"
    and job: "py_setitem job0 ''config'' conf' = Inr job"
    and n: "conforms n state_machine_job_schema state_machine_job_schema job0"
    using assms(1) assms(2) [unfolded sound_validator_def, rule_format]
    by (clarsimp simp: load_job_def rbind_Inr_iff split: if_splits) metis
  have key: "name = PStr key" using name(2) by (cases name) auto
  from validated_job [OF n] obtain kvs cf where
    kvs: "job0 = PDict kvs" "dict_get kvs ''config'' = Some (PDict cf)"
    and nn: "\<forall>v. dict_get cf ''nnodes'' = Some v \<longrightarrow> whole_number v"
    and env: "\<forall>v. dict_get kvs ''environment'' = Some v \<longrightarrow> v = PNone \<or> (\<exists>d. v = PDict d)"
    and props: "\<forall>v. dict_get kvs ''properties'' = Some v \<longrightarrow> v = PNone \<or> (\<exists>d. v = PDict d)"
    by blast
  have j: "job = PDict (dict_set ''config'' (PDict (dict_set ''name'' (PStr key) cf)) kvs)"
    using conf job kvs key by (auto simp: dict_at_def)
  have "desc_name job = Inr key" using name kvs key by (simp add: desc_name_def j dict_at_def split: option.splits)
  moreover have "\<exists>v. config_entry job ''nnodes'' (PInt 1) = Inr v \<and>
      (if nonfinite v then nnodes job = Inl (to_int_error v) else \<exists>k. nnodes job = Inr k)"
    using nn by (auto simp: nnodes_def config_entry_def desc_config_def j dict_at_def whole_number_def split: option.splits)
  moreover have "\<exists>e. extra_environment job = Inr e"
    using env by (auto simp: extra_environment_def j py_or_def split: option.splits)
  moreover have "\<forall>ld. \<exists>b. desc_always_succeed ld job = Inr b"
    using props by (auto simp: desc_always_succeed_def desc_properties_def j py_or_def split: option.splits)
  ultimately show ?thesis by (simp add: job_readable_def)
qed

lemma load_jobs_loop_readable:
  assumes "load_jobs_loop fs js state_machine_job_schema dir cs acc = Inr (cs', acc')" and "sound_validator js"
    and "\<And>n job. dict_get acc n = Some job \<Longrightarrow> job_readable n job" and "dict_get acc' n = Some job"
  shows "job_readable n job"
  using assms(1,3,4)
proof (induction cs arbitrary: acc cs')
  case (Cons c cs)
  from Cons.prems(1) obtain c1 key job' cs1 where
    one: "load_job fs js state_machine_job_schema dir c = Inr (c1, key, job')"
    and rest: "load_jobs_loop fs js state_machine_job_schema dir cs (dict_set key job' acc) = Inr (cs1, acc')"
    by (auto simp: rbind_Inr_iff)
  show ?case
    by (rule Cons.IH [OF rest _ Cons.prems(3)])
      (use Cons.prems(2) loaded_job_readable [OF one assms(2)] in \<open>auto split: if_splits\<close>)
qed simp

section \<open>Validated workflows\<close>

text \<open>The sections of the main file that carry no other entries than those of their definition.\<close>

lemma validated_section:
  assumes "conforms n state_machine_config_schema state_machine_config_schema (PDict kvs)"
    and "dict_get kvs ''cluster'' = Some sec"
  shows "\<exists>d. sec = PDict d \<and> dict_get d ''max_nodes'' = None"
proof -
  obtain S where S: "state_machine_config_schema = PDict S" by (simp add: state_machine_config_schema_def)
  define D where "D = [(''type'', PStr ''object''),
        (''properties'', PDict [
          (''max_size'', PDict [(''type'', PStr ''number''), (''default'', PInt 6)]),
          (''autoscale'', PDict [(''type'', PStr ''boolean''), (''default'', PBool False)])]),
        (''additionalProperties'', PBool False)]"
  have look: "dict_get S ''$ref'' = None"
    "sub_schema S ''cluster'' = Some (PDict [(''$ref'', PStr ''#/definitions/cluster'')])"
    "ref_target (PDict S) ''#/definitions/cluster'' = Some (PDict D)"
    using S by (auto simp: schema_lookup D_def)
  note c = assms(1) [unfolded S]
  obtain m where "conforms m (PDict S) (PDict [(''$ref'', PStr ''#/definitions/cluster'')]) sec"
    using conforms_entry [OF c look(1) assms(2) look(2)] by blast
  from conforms_ref [OF this _ look(3)] obtain m where m: "conforms m (PDict S) (PDict D) sec" by auto
  obtain d where d: "sec = PDict d"
    using type_ok_cases(1) conforms_type [OF m] by (auto simp: D_def)
  have "dict_get d ''max_nodes'' = None"
    by (rule conforms_closed [OF m [unfolded d]]) (simp_all add: D_def sub_schema_def)
  with d show ?thesis by blast
qed

lemma loaded_workflow:
  assumes "load_workflow_config fs js sch csch path dir True = Inr w"
  shows "\<exists>w0 w1. jobs w0 = [] \<and> load_jobs fs js sch w0 = Inr w1 \<and> jobs w = jobs w1 \<and> js csch (cfg w)"
proof -
  obtain w0 w1 where w: "load fs path dir = Inr w0" "load_jobs fs js sch w0 = Inr w1" "load_events w1 = Inr w"
    and v: "js csch (cfg w)"
    using assms by (auto simp: load_workflow_config_def workflow_config_def rbind_Inr_iff split: if_splits)
  have "jobs w0 = []" using w(1) by (auto simp: load_def rbind_Inr_iff Let_def)
  moreover have "jobs w = jobs w1"
    using w(3) by (auto simp: load_events_def rbind_Inr_iff split: if_splits pyval.splits)
  ultimately show ?thesis using w(2) v by blast
qed

text \<open>C21. What loading with validation guarantees about the types of a workflow: every job can be read
  by its name, with a list of environment variables and a mark of success, none of which raises;
  its number of nodes can be read too, unless it was given as an infinite or undefined float, which
  passes the validation and raises when the tracker converts it; and the cluster section is a section without the key \<open>max_nodes\<close>, so the
  number of nodes that trackers divide is the fallback 1 for every valid workflow.\<close>

theorem validated_workflow_typed:
  assumes "load_workflow_config fs js state_machine_job_schema state_machine_config_schema path dir True = Inr w"
    and "sound_validator js"
  shows "(\<forall>n job. dict_get (jobs w) n = Some job \<longrightarrow> job_readable n job) \<and> total_nodes w = Inr (PInt 1)"
proof -
  obtain w0 w1 where w: "jobs w0 = []" "load_jobs fs js state_machine_job_schema w0 = Inr w1" "jobs w = jobs w1"
    "js state_machine_config_schema (cfg w)"
    using loaded_workflow [OF assms(1)] by blast
  obtain n where n: "conforms n state_machine_config_schema state_machine_config_schema (cfg w)"
    using w(4) assms(2) by (auto simp: sound_validator_def)
  have "job_readable n job" if "dict_get (jobs w) n = Some job" for n job
    using w(2) that w(1,3)
    by (auto simp: load_jobs_def rbind_Inr_iff split: if_splits pyval.splits
        intro: load_jobs_loop_readable [OF _ assms(2)])
  moreover obtain kvs where kvs: "cfg w = PDict kvs"
    using type_ok_cases(1) conforms_type [of n _ _ "cfg w"] n by (fastforce simp: state_machine_config_schema_def)
  have "total_nodes w = Inr (PInt 1)"
    using validated_section [OF n [unfolded kvs]]
    by (cases "dict_get kvs ''cluster''") (auto simp: total_nodes_def cfg_entry_def kvs py_or_def)
  ultimately show ?thesis by blast
qed

text \<open>The two files of the example jobs and a main file, under the validator that is the conformance itself.\<close>

definition valid_files :: filesys where
  "valid_files p = (if p = ''wf.yaml'' then Some (Inr (example_cfg [(''completed'', PInt 4)])) else example_files p)"

definition example_validator :: schema_check where
  "example_validator s v = conforms 8 s s v"

lemma example_validator_sound: "sound_validator example_validator"
  by (auto simp: sound_validator_def example_validator_def)

lemmas schema_eval = example_validator_def eval_nat_numeral type_ok_def required_ok_def dict_in_def schema_lookup

lemma example_jobs_valid: "example_validator state_machine_job_schema (example_job n k)"
  by (simp add: schema_eval example_job_def)

lemma example_main_valid:
  "example_validator state_machine_config_schema (cfg (example_loaded [(''completed'', PInt 4)]))"
  by (simp add: schema_eval example_loaded_def)

lemma example_valid_load:
  "load_workflow_config valid_files example_validator state_machine_job_schema state_machine_config_schema
     ''wf.yaml'' (Some []) True = Inr (example_loaded [(''completed'', PInt 4)])"
proof -
  have "workflow_config valid_files example_validator state_machine_job_schema ''wf.yaml'' (Some []) =
      Inr (example_loaded [(''completed'', PInt 4)])"
    using example_jobs_valid
    by (simp add: workflow_config_def load_def load_jobs_def load_events_def valid_files_def example_cfg_def
        example_loaded_def dict_in_def dict_at_def load_job_def load_config_def find_config_def path_exists_def
        read_yaml_def example_files_def example_job_def Let_def)
  then show ?thesis using example_main_valid by (simp add: load_workflow_config_def)
qed

theorem validated_workflow_typed_witness:
  "\<exists>job. dict_get (jobs (example_loaded [(''completed'', PInt 4)])) ''job_b'' = Some job \<and> job_readable ''job_b'' job"
  using validated_workflow_typed [OF example_valid_load example_validator_sound]
  by (simp add: example_loaded_def)

end
