(* ===== verification/Command_Line.thy ===== *)
theory Command_Line
  imports Manager_Refinement Schemas
begin

text \<open>
  The command line: \<open>manager/__init__.py\<close>. It puts the parts together: the workflow is loaded and
  validated with the schemas, the manager is constructed from it and the arguments, and started.
  Taking the words of the command line apart is left to the standard library; what the options
  it finds mean is here, and \<open>args\<close> is what the parser returns.
\<close>

section \<open>Arguments\<close>

text \<open>The options of \<open>start\<close>; another command, or none, does not have them.\<close>

record start_args =
  o_scheduler :: string
  o_config :: string
  o_registry :: pyval
  o_filesystem :: bool
  o_workdir :: pyval
  o_config_dir :: "string option"
  o_quiet :: bool
  o_plain_http :: bool

record args =
  a_version :: bool
  a_command :: "string option"
  a_start :: "start_args option"

text \<open>
  The options that \<open>get_parser\<close> declares for \<open>start\<close>, next to the required word \<open>config\<close>: a switch stores
  \<open>True\<close>, any other option stores its word, and the choices, if there are any, restrict the words.
\<close>

record option_spec =
  op_flag :: string
  op_switch :: bool
  op_choices :: "string list"
  op_default :: pyval

definition plain_option :: "string \<Rightarrow> option_spec" where
  "plain_option f = \<lparr>op_flag = f, op_switch = False, op_choices = [], op_default = PNone\<rparr>"

definition switch :: "string \<Rightarrow> option_spec" where
  "switch f = \<lparr>op_flag = f, op_switch = True, op_choices = [], op_default = PBool False\<rparr>"

definition start_options :: "option_spec list" where
  "start_options =
     [\<lparr>op_flag = ''--scheduler'', op_switch = False, op_choices = supported_schedulers, op_default = PStr ''kubernetes''\<rparr>,
      plain_option ''--registry'', switch ''--filesystem'', plain_option ''--workdir'', plain_option ''--config-dir'',
      switch ''--quiet'', switch ''--plain-http'']"

definition dest_of :: "string \<Rightarrow> string" where
  "dest_of f = replace_char (CHR ''-'') (CHR ''_'') (drop 2 f)"

text \<open>
  The effect of the options that occur, each with its word if it has one, in the order they are given.
  The program ends when a word is missing, superfluous or not among the choices; an option that is
  not declared is dropped, because \<open>parse_known_args\<close> is used. How the words of the command line
  are told apart is left to the standard library.
\<close>

definition store_option :: "option_spec list \<Rightarrow> string \<times> string option \<Rightarrow> (string, pyval) dict \<Rightarrow> (string, pyval) dict res" where
  "store_option specs = (\<lambda>(f, word) ns. case find (\<lambda>p. op_flag p = f) specs of
      None \<Rightarrow> Inr ns
    | Some p \<Rightarrow> (case word of
        None \<Rightarrow> if op_switch p then Inr (dict_set (dest_of f) (PBool True) ns) else Inl SystemExit
      | Some w \<Rightarrow> if op_switch p \<or> (op_choices p \<noteq> [] \<and> w \<notin> set (op_choices p)) then Inl SystemExit
          else Inr (dict_set (dest_of f) (PStr w) ns)))"

fun store_options :: "option_spec list \<Rightarrow> (string \<times> string option) list \<Rightarrow> (string, pyval) dict \<Rightarrow> (string, pyval) dict res" where
  "store_options specs [] ns = Inr ns"
| "store_options specs (x # xs) ns = rbind (store_option specs x ns) (store_options specs xs)"

definition option_defaults :: "option_spec list \<Rightarrow> (string, pyval) dict" where
  "option_defaults specs = map (\<lambda>p. (dest_of (op_flag p), op_default p)) specs"

text \<open>The arguments of \<open>start\<close> read from the namespace.\<close>

definition start_namespace :: "string \<Rightarrow> (string, pyval) dict \<Rightarrow> start_args res" where
  "start_namespace config ns =
     rbind (rbind (dict_at ns ''scheduler'') string_of) (\<lambda>sch.
     rbind (dict_at ns ''registry'') (\<lambda>reg.
     rbind (dict_at ns ''filesystem'') (\<lambda>fs.
     rbind (dict_at ns ''workdir'') (\<lambda>wd.
     rbind (dict_at ns ''config_dir'') (\<lambda>cd.
     rbind (dict_at ns ''quiet'') (\<lambda>q.
     rbind (dict_at ns ''plain_http'') (\<lambda>ph.
     Inr \<lparr>o_scheduler = sch, o_config = config, o_registry = reg, o_filesystem = truthy fs, o_workdir = wd,
       o_config_dir = (case cd of PStr d \<Rightarrow> Some d | _ \<Rightarrow> None), o_quiet = truthy q, o_plain_http = truthy ph\<rparr>)))))))"

definition parse_start :: "string \<Rightarrow> (string \<times> string option) list \<Rightarrow> start_args res" where
  "parse_start config occs =
     rbind (store_options start_options occs (option_defaults start_options)) (start_namespace config)"

text \<open>What the parser gives for \<open>start config\<close> without any option.\<close>

definition start_defaults :: "string \<Rightarrow> start_args" where
  "start_defaults config = \<lparr>o_scheduler = ''kubernetes'', o_config = config, o_registry = PNone, o_filesystem = False,
     o_workdir = PNone, o_config_dir = None, o_quiet = False, o_plain_http = False\<rparr>"

lemma start_options_simps:
  "option_defaults start_options = [(''scheduler'', PStr ''kubernetes''), (''registry'', PNone), (''filesystem'', PBool False),
     (''workdir'', PNone), (''config_dir'', PNone), (''quiet'', PBool False), (''plain_http'', PBool False)]"
  by code_simp

lemma parse_nothing: "parse_start config [] = Inr (start_defaults config)"
  by (simp add: parse_start_def start_options_simps start_namespace_def start_defaults_def dict_at_def)

lemma unknown_dropped:
  assumes "\<forall>p \<in> set specs. op_flag p \<noteq> f"
  shows "store_options specs ((f, word) # occs) ns = store_options specs occs ns"
proof -
  have "find (\<lambda>p. op_flag p = f) specs = None" using assms by (auto simp: find_None_iff)
  then show ?thesis by (simp add: store_option_def)
qed

text \<open>The namespace always names a scheduler the manager has a tracker for.\<close>

definition scheduler_ok :: "(string, pyval) dict \<Rightarrow> bool" where
  "scheduler_ok ns \<longleftrightarrow> (\<exists>n \<in> set supported_schedulers. dict_get ns ''scheduler'' = Some (PStr n))"

lemma store_option_scheduler:
  assumes "store_option start_options x ns = Inr ns'" and "scheduler_ok ns"
  shows "scheduler_ok ns'"
proof -
  obtain f word where x: "x = (f, word)" by (cases x)
  show ?thesis
  proof (cases "find (\<lambda>p. op_flag p = f) start_options")
    case None
    with assms show ?thesis by (simp add: store_option_def x)
  next
    case (Some p)
    then have o: "p \<in> set start_options" "op_flag p = f" by (auto simp: find_Some_iff)
    have d: "dest_of f = ''scheduler'' \<longleftrightarrow> f = ''--scheduler''" "f = ''--scheduler'' \<Longrightarrow> op_choices p = supported_schedulers \<and> \<not> op_switch p"
      using o by (auto simp: start_options_def plain_option_def switch_def dest_of_def replace_char_def)
    have "supported_schedulers \<noteq> []" by (simp add: supported_schedulers_def)
    with assms Some d show ?thesis
      by (auto simp: store_option_def x scheduler_ok_def split: option.splits if_splits)
  qed
qed

lemma store_options_scheduler: "store_options start_options occs ns = Inr ns' \<Longrightarrow> scheduler_ok ns \<Longrightarrow> scheduler_ok ns'"
proof (induction occs arbitrary: ns)
  case (Cons x occs)
  then show ?case by (auto simp: rbind_Inr_iff dest: store_option_scheduler)
qed simp

text \<open>Whatever options are given, when the parser accepts them the scheduler is one the manager has a
  tracker for, so choosing the tracker module never raises; options the parser does not know are
  dropped without a word.\<close>

theorem parsed_scheduler_loads:
  assumes "parse_start config occs = Inr opts"
  shows "(\<exists>k. load_tracker (o_scheduler opts) = Inr k) \<and>
    (\<forall>f word. (\<forall>p \<in> set start_options. op_flag p \<noteq> f) \<longrightarrow> parse_start config ((f, word) # occs) = Inr opts)"
proof -
  obtain ns where ns: "store_options start_options occs (option_defaults start_options) = Inr ns"
    and opts: "start_namespace config ns = Inr opts"
    using assms by (auto simp: parse_start_def rbind_Inr_iff)
  have "scheduler_ok (option_defaults start_options)"
    by (simp add: start_options_simps scheduler_ok_def supported_schedulers_def default_scheduler_def)
  with ns have "scheduler_ok ns" by (rule store_options_scheduler)
  then have "o_scheduler opts \<in> set supported_schedulers"
    using opts by (auto simp: scheduler_ok_def start_namespace_def rbind_Inr_iff dict_at_def)
  then have "\<exists>k. load_tracker (o_scheduler opts) = Inr k"
    by (auto simp: load_tracker_def supported_schedulers_def default_scheduler_def lower_def lower_char_def)
  moreover have "parse_start config ((f, word) # occs) = Inr opts" if "\<forall>p \<in> set start_options. op_flag p \<noteq> f" for f word
    using assms unfolding parse_start_def unknown_dropped [OF that] .
  ultimately show ?thesis by blast
qed

theorem parsed_scheduler_loads_witness:
  "\<exists>opts k. parse_start ''wf.yaml'' [(''--scheduler'', Some ''flux''), (''--file-system'', None)] = Inr opts \<and>
     load_tracker (o_scheduler opts) = Inr k"
proof -
  have "case parse_start ''wf.yaml'' [(''--scheduler'', Some ''flux''), (''--file-system'', None)] of
      Inl _ \<Rightarrow> False | Inr _ \<Rightarrow> True"
    by code_simp
  then obtain opts where "parse_start ''wf.yaml'' [(''--scheduler'', Some ''flux''), (''--file-system'', None)] = Inr opts"
    by (auto split: sum.splits)
  with parsed_scheduler_loads [OF this] show ?thesis by blast
qed

section \<open>The main program\<close>

definition make_manager :: "'w env \<Rightarrow> workflow \<Rightarrow> start_args \<Rightarrow> 'w \<Rightarrow> 'w mgr res \<times> 'w" where
  "make_manager env W opts =
     manager_init env W (Some (o_scheduler opts)) (PBool (o_filesystem opts)) (o_workdir opts) (o_registry opts)
       (PBool (o_plain_http opts))"

definition load_workflow :: "filesys \<Rightarrow> schema_check \<Rightarrow> start_args \<Rightarrow> workflow res" where
  "load_workflow fs js opts =
     load_workflow_config fs js state_machine_job_schema state_machine_config_schema (o_config opts) (o_config_dir opts) True"

text \<open>
  \<open>argc\<close> counts the words of the command line, the program included; \<open>es\<close> are the events the
  scheduler will deliver. The manager is a result too, when it was constructed.
\<close>

definition main :: "'w env \<Rightarrow> filesys \<Rightarrow> schema_check \<Rightarrow> nat \<Rightarrow> args \<Rightarrow> wjob list \<Rightarrow> 'w \<Rightarrow> unit res \<times> 'w mgr option \<times> 'w" where
  "main env fs js argc a es w =
     (if argc = 1 then (Inl SystemExit, None, w)
      else if a_command a = Some ''version'' \<or> a_version a then (Inl SystemExit, None, w)
      else (case a_start a of
          None \<Rightarrow> (Inl AttributeError, None, w)
        | Some opts \<Rightarrow> (case load_workflow fs js opts of
            Inl e \<Rightarrow> (Inl e, None, w)
          | Inr W \<Rightarrow> (case make_manager env W opts w of
              (Inl e, w') \<Rightarrow> (Inl e, None, w')
            | (Inr m, w') \<Rightarrow> (case start env es m of (r, m') \<Rightarrow> (r, Some m', world m'))))))"

section \<open>From the files to the run\<close>

lemma set_section_jobs: "set_section W sect kvs = Inr W' \<Longrightarrow> jobs W' = jobs W"
  by (auto simp: set_section_def rbind_Inr_iff)

lemma set_workdir_jobs: "set_workdir W d = Inr W' \<Longrightarrow> jobs W' = jobs W"
  by (auto simp: set_workdir_def rbind_Inr_iff split: if_splits)

lemma init_storage_jobs: "init_storage env registry plain use_fs W w = (Inr W', w') \<Longrightarrow> jobs W' = jobs W"
  by (auto simp: init_storage_def init_registry_def set_registry_def set_filesystem_def bind_Inr_iff lift_eval ret_eval
      dest: set_section_jobs split: if_splits)

lemma manager_init_state:
  assumes "manager_init env W sch fs_arg wd registry plain w = (Inr s, w')"
  shows "jobs (wfl s) = jobs W \<and> trackers s = [] \<and> heap s = [] \<and> store s = new_metrics"
  using assms
  by (auto simp: manager_init_def bind_Inr_iff lift_eval ret_eval dest!: set_workdir_jobs init_storage_jobs)

lemma manager_init_ok:
  "manager_init env W sch fs_arg wd registry plain w = (Inr s, w') \<Longrightarrow> mgr_ok (dict_keys (jobs W)) s"
  using manager_init_state [of env W sch fs_arg wd registry plain w s w'] new_metrics_ok by (simp add: mgr_ok_def)

text \<open>C18. From the files to the run: whatever the command line, the files and the cluster are, when the
  manager is constructed its state is consistent with the steps of the loaded files at the end of
  the run, whether that ends normally or by an exception: every machine is well formed, every
  tracked sequence has the machine of its own identifier, and the metrics are in order.\<close>

theorem main_run_consistent:
  assumes "transition_choice (lib_pick (e_lib env))" and "a_start a = Some opts"
    and "load_workflow fs js opts = Inr W" and "good_steps (dict_keys (jobs W))"
    and "main env fs js argc a es w = (r, Some s, w')"
  shows "mgr_ok (dict_keys (jobs W)) s"
proof -
  obtain m w1 where m: "make_manager env W opts w = (Inr m, w1)" and s: "s = snd (start env es m)"
    using assms(2,3,5) by (auto simp: main_def split: if_splits sum.splits prod.splits)
  then have "mgr_ok (dict_keys (jobs W)) m" by (auto simp: make_manager_def dest: manager_init_ok)
  with s show ?thesis by (simp add: start_ok [OF assms(1,4)])
qed

section \<open>The registry\<close>

lemma set_registry_reads:
  assumes "set_registry W host plain = Inr W'" and "truthy host" and "plain \<noteq> PNone"
  shows "registry_host W' = Inr host \<and> registry_plain_http W' = Inr plain"
proof -
  have host: "host \<noteq> PNone" using assms(2) by auto
  obtain c d1 d2 e where d: "py_setitem c ''host'' host = Inr d1" "py_setitem d1 ''plain_http'' plain = Inr d2"
      "py_setitem e ''registry'' d2 = Inr (cfg W')"
    using assms(1,3) host that by (auto simp: set_registry_def set_section_def rbind_Inr_iff)
  obtain k where k: "d2 = PDict k" "dict_get k ''host'' = Some host" "dict_get k ''plain_http'' = Some plain"
    using d(1,2) by (cases c; cases d1) auto
  obtain f where "cfg W' = PDict f" "dict_get f ''registry'' = Some (PDict k)"
    using d(3) k(1) py_setitem_dict by blast
  then show ?thesis
    using k assms(2,3) by (simp add: registry_host_def registry_plain_http_def cfg_entry_def py_or_def)
qed

text \<open>Writing the working directory or the path of a file system leaves the registry section.\<close>

lemma setitem_registry:
  assumes "py_setitem c k v = Inr c'" and "k \<noteq> ''registry''" and "cfg W = c" and "cfg W' = c'"
  shows "registry_host W' = registry_host W \<and> registry_plain_http W' = registry_plain_http W"
  using assms by (cases c) (auto simp: registry_host_def registry_plain_http_def cfg_entry_def)

lemma set_filesystem_registry:
  assumes "set_filesystem W d = Inr W'"
  shows "registry_host W' = registry_host W \<and> registry_plain_http W' = registry_plain_http W"
proof -
  obtain present c s where p: "(if present then Inr (cfg W) else py_setitem (cfg W) ''filesystem'' (PDict [])) = Inr c"
    and s: "py_setitem c ''filesystem'' s = Inr (cfg W')"
    using assms by (simp only: set_filesystem_def set_section_def rbind_Inr_iff) fastforce
  have c: "c = cfg W \<or> py_setitem (cfg W) ''filesystem'' (PDict []) = Inr c" using p by (cases present) auto
  have "registry_host (W\<lparr>cfg := c\<rparr>) = registry_host W \<and> registry_plain_http (W\<lparr>cfg := c\<rparr>) = registry_plain_http W"
    using c setitem_registry [of "cfg W" "''filesystem''" "PDict []" c W "W\<lparr>cfg := c\<rparr>"] by auto
  moreover have "registry_host W' = registry_host (W\<lparr>cfg := c\<rparr>) \<and> registry_plain_http W' = registry_plain_http (W\<lparr>cfg := c\<rparr>)"
    by (rule setitem_registry [OF s]) simp_all
  ultimately show ?thesis by simp
qed

lemma set_workdir_registry:
  assumes "set_workdir W d = Inr W'"
  shows "registry_host W' = registry_host W \<and> registry_plain_http W' = registry_plain_http W"
proof (cases "truthy d")
  case True
  then obtain c where "py_setitem (cfg W) ''workdir'' d = Inr c" "W' = W\<lparr>cfg := c\<rparr>"
    using assms by (auto simp: set_workdir_def rbind_Inr_iff)
  then show ?thesis using setitem_registry [of "cfg W" "''workdir''" d c W W'] by simp
qed (use assms in \<open>simp add: set_workdir_def\<close>)

text \<open>C40. The registry section of a workflow file matters only when a file system is used, by the flag or by a
  section of the file: then the host and the protocol are what the file says. In the normal case,
  without a file system, the section has no effect: the host the jobs read from the workflow is the
  one of the command line or else the built-in default, and whether plain HTTP is used is decided by
  the flag alone, so it is off when the flag is not given, whatever the file says.\<close>

theorem config_registry_overridden:
  assumes "make_manager env W opts w = (Inr s, w')"
  shows "if o_filesystem opts \<or> filesystem W \<noteq> Inr PNone
    then registry_host (wfl s) = registry_host W \<and> registry_plain_http (wfl s) = registry_plain_http W
    else registry_host (wfl s) = Inr (py_or (o_registry opts) (PStr default_registry)) \<and>
      registry_plain_http (wfl s) = Inr (PBool (o_plain_http opts))"
proof (cases "o_filesystem opts \<or> filesystem W \<noteq> Inr PNone")
  case True
  then obtain W1 w1 w2 where W1: "set_workdir W (o_workdir opts) = Inr W1"
    and st: "init_storage env (o_registry opts) (PBool (o_plain_http opts)) True W1 w1 = (Inr (wfl s), w2)"
    using assms
    by (auto simp: make_manager_def manager_init_def bind_Inr_iff lift_eval ret_eval split: if_splits)
  have "registry_host (wfl s) = registry_host W1 \<and> registry_plain_http (wfl s) = registry_plain_http W1"
    using st by (auto simp: init_storage_def bind_Inr_iff lift_eval ret_eval 
        dest: set_filesystem_registry split: if_splits)
  with set_workdir_registry [OF W1] True show ?thesis by simp
next
  case False
  then obtain W1 where "set_registry W1 (py_or (o_registry opts) (PStr default_registry)) (PBool (o_plain_http opts)) = Inr (wfl s)"
    using assms
    by (auto simp: make_manager_def manager_init_def bind_Inr_iff lift_eval ret_eval init_storage_def init_registry_def)
  moreover have "truthy (py_or (o_registry opts) (PStr default_registry))"
    by (simp add: py_or_def default_registry_def)
  ultimately show ?thesis using set_registry_reads False by simp
qed

section \<open>Examples\<close>

definition example_opts :: start_args where
  "example_opts = (start_defaults ''wf.yaml'')\<lparr>o_config_dir := Some []\<rparr>"

definition example_args :: args where
  "example_args = \<lparr>a_version = False, a_command = Some ''start'', a_start = Some example_opts\<rparr>"

lemma example_workflow: "load_workflow valid_files example_validator example_opts = Inr (example_loaded [(''completed'', PInt 4)])"
  using example_valid_load by (simp add: load_workflow_def example_opts_def start_defaults_def)

lemma example_manager:
  assumes "Config.prefix W = Inr PNone" and "filesystem W = Inr PNone" and "cfg W = PDict c"
    and "dict_get c ''registry'' = None \<or> dict_get c ''registry'' = Some (PDict d)"
  shows "\<exists>m. make_manager example_listing_env W example_opts [] = (Inr m, [])"
proof -
  have "\<exists>W'. init_registry PNone (PBool False) W = Inr W'"
    using assms(3,4)
    by (auto simp: init_registry_def set_registry_def set_section_def py_or_def default_registry_def dict_in_def
        dict_at_def split: option.splits)
  moreover have "\<exists>k. load_tracker ''kubernetes'' = Inr k"
    by (simp add: load_tracker_def supported_schedulers_def default_scheduler_def lower_def lower_char_def)
  ultimately show ?thesis
    using assms(1,2)
    by (auto simp: make_manager_def example_opts_def start_defaults_def manager_init_def init_storage_def py_eval
        set_workdir_def bind_def lift_def ret_def)
qed

theorem main_run_consistent_witness:
  "\<exists>r s w'. main example_listing_env valid_files example_validator 3 example_args [] [] = (r, Some s, w') \<and>
     mgr_ok example_steps s"
proof -
  let ?W = "example_loaded [(''completed'', PInt 4)]"
  obtain c where c: "cfg ?W = PDict c" "dict_get c ''registry'' = None" by (simp add: example_loaded_def)
  have "Config.prefix ?W = Inr PNone" "filesystem ?W = Inr PNone"
    by (simp_all add: example_loaded_def Config.prefix_def filesystem_def cfg_entry_def dict_at_def)
  from example_manager [OF this c(1)] c(2)
  obtain m where m: "make_manager example_listing_env ?W example_opts [] = (Inr m, [])" by blast
  obtain r s where s: "start example_listing_env [] m = (r, s)" by (cases "start example_listing_env [] m")
  have run: "main example_listing_env valid_files example_validator 3 example_args [] [] = (r, Some s, world s)"
    by (simp add: main_def example_args_def example_workflow m s)
  have k: "dict_keys (jobs ?W) = example_steps" by (simp add: example_loaded_def dict_keys_def example_steps_def)
  have "mgr_ok (dict_keys (jobs ?W)) s"
    by (rule main_run_consistent [OF example_env_pick _ example_workflow _ run]) (simp_all add: example_args_def k example_good)
  with run k show ?thesis by auto
qed

theorem config_registry_overridden_witness:
  "\<exists>W m. registry_host W = Inr (PStr ''own:5000'') \<and>
     make_manager example_listing_env W example_opts [] = (Inr m, []) \<and> registry_host (wfl m) = Inr (PStr default_registry)"
proof -
  let ?W = "(example_loaded [])\<lparr>cfg := PDict [(''workflow'', PDict []), (''registry'', PDict [(''host'', PStr ''own:5000'')])]\<rparr>"
  have fs: "filesystem ?W = Inr PNone" by (simp add: filesystem_def cfg_entry_def)
  have "Config.prefix ?W = Inr PNone" by (simp add: Config.prefix_def dict_at_def)
  from example_manager [OF this fs] obtain m where m: "make_manager example_listing_env ?W example_opts [] = (Inr m, [])"
    by fastforce
  have "registry_host (wfl m) = Inr (PStr default_registry)"
    using config_registry_overridden [OF m] fs by (simp add: example_opts_def start_defaults_def py_or_def)
  moreover have "registry_host ?W = Inr (PStr ''own:5000'')" by (simp add: registry_host_def cfg_entry_def py_or_def)
  ultimately show ?thesis using m by blast
qed

end
