(* ===== verification/Kube_Tracker.thy ===== *)
theory Kube_Tracker
  imports Tracker_Base Kube_Jobs
begin

text \<open>
  Submission to Kubernetes: \<open>tracker/kubernetes/tracker.py\<close>. The calls of the client library
  are a record of parameters over a world \<open>'w\<close>; what they are given is built here the way
  \<open>KubernetesJob\<close> builds it. An object of the client library that is only stored in another
  one is the dictionary of the arguments of its constructor; the objects handed to the server
  are records. The file shows that a command given as a list runs as its words, that a stale
  config map is replaced when the server deletes it, that a failed submission is tidied up under the name it was
  submitted with, and where a repeated submission and a job set go wrong.
\<close>

section \<open>Command lines\<close>

text \<open>
  \<open>shlex.split(s)\<close> of the Python library in its default mode: the reader's states between
  words, inside a word, inside a quotation, and after a backslash, which remembers the
  quotation it stands in. \<open>quoted\<close> and \<open>token\<close> are the reader's variables.
\<close>

datatype lex = Space | Word | Quote char | Escape "char option"

definition backslash :: char where
  "backslash = CHR 0x5C"

definition is_quote :: "char \<Rightarrow> bool" where
  "is_quote c \<longleftrightarrow> c = CHR 0x22 \<or> c = CHR 0x27"

definition lex_blank :: "char \<Rightarrow> bool" where
  "lex_blank c \<longleftrightarrow> c = CHR '' '' \<or> c = CHR 0x09 \<or> c = CHR 0x0D \<or> c = CHR 0x0A"

definition emit :: "bool \<Rightarrow> string \<Rightarrow> string list \<Rightarrow> string list" where
  "emit quoted token ws = (if token \<noteq> [] \<or> quoted then token # ws else ws)"

fun shlex_loop :: "lex \<Rightarrow> bool \<Rightarrow> string \<Rightarrow> string \<Rightarrow> string list res" where
  "shlex_loop Space quoted token [] = Inr []"
| "shlex_loop Space quoted token (c # cs) =
     (if lex_blank c then shlex_loop Space False [] cs
      else if c = backslash then shlex_loop (Escape None) False [] cs
      else if is_quote c then shlex_loop (Quote c) False [] cs
      else shlex_loop Word False [c] cs)"
| "shlex_loop Word quoted token [] = Inr (emit quoted token [])"
| "shlex_loop Word quoted token (c # cs) =
     (if lex_blank c then rbind (shlex_loop Space False [] cs) (\<lambda>ws. Inr (emit quoted token ws))
      else if is_quote c then shlex_loop (Quote c) quoted token cs
      else if c = backslash then shlex_loop (Escape None) quoted token cs
      else shlex_loop Word quoted (token @ [c]) cs)"
| "shlex_loop (Quote k) quoted token [] = Inl ValueError"
| "shlex_loop (Quote k) quoted token (c # cs) =
     (if c = k then shlex_loop Word True token cs
      else if c = backslash \<and> k = CHR 0x22 then shlex_loop (Escape (Some k)) True token cs
      else shlex_loop (Quote k) True (token @ [c]) cs)"
| "shlex_loop (Escape k) quoted token [] = Inl ValueError"
| "shlex_loop (Escape None) quoted token (c # cs) = shlex_loop Word quoted (token @ [c]) cs"
| "shlex_loop (Escape (Some k)) quoted token (c # cs) =
     shlex_loop (Quote k) quoted
       ((if c \<noteq> backslash \<and> c \<noteq> k then token @ [backslash] else token) @ [c]) cs"

definition shlex_split :: "string \<Rightarrow> string list res" where
  "shlex_split s = shlex_loop Space False [] s"

text \<open>
  The property \<open>command\<close>: a list is joined with blanks first, anything empty falls back to the
  entry point.
\<close>

definition default_command :: string where
  "default_command = ''/bin/bash /workdir/entrypoint.sh''"

definition joined_command :: "pyval \<Rightarrow> pyval res" where
  "joined_command c = (case c of
      PList ws \<Rightarrow> rbind (rmap string_of ws) (\<lambda>ss. Inr (PStr (join_char (CHR '' '') ss)))
    | _ \<Rightarrow> Inr c)"

definition job_command :: "pyval \<Rightarrow> string list res" where
  "job_command d =
     rbind (config_entry d ''command'' PNone) (\<lambda>c.
     rbind (joined_command c) (\<lambda>j.
     case py_or j (PStr default_command) of PStr s \<Rightarrow> shlex_split s | _ \<Rightarrow> Inl AttributeError))"

subsection \<open>A command given as a list\<close>

definition plain_word :: "string \<Rightarrow> bool" where
  "plain_word w \<longleftrightarrow> w \<noteq> [] \<and> list_all (\<lambda>c. \<not> lex_blank c \<and> \<not> is_quote c \<and> c \<noteq> backslash) w"

lemma shlex_word:
  "list_all (\<lambda>c. \<not> lex_blank c \<and> \<not> is_quote c \<and> c \<noteq> backslash) w \<Longrightarrow>
   shlex_loop Word q t (w @ s) = shlex_loop Word q (t @ w) s"
  by (induction w arbitrary: t) simp_all

lemma shlex_join: "\<forall>w \<in> set ws. plain_word w \<Longrightarrow> shlex_split (join_char (CHR '' '') ws) = Inr ws"
proof (induction ws)
  case Nil
  then show ?case by (simp add: shlex_split_def)
next
  case (Cons w ws)
  then obtain c cs where w: "w = c # cs" and p: "plain_word w" by (cases w) (auto simp: plain_word_def)
  have word: "shlex_loop Space False [] (w @ s) = shlex_loop Word False w s" for s
    using p shlex_word [of cs False "[c]" s] by (simp add: w plain_word_def)
  have blank: "lex_blank (CHR '' '')" by (simp add: lex_blank_def)
  have end_word: "shlex_loop Word False w [] = Inr [w]" using p by (simp add: emit_def plain_word_def)
  show ?case
  proof (cases ws)
    case Nil
    then show ?thesis using word [of "[]"] end_word by (simp add: shlex_split_def)
  next
    case (Cons v vs)
    then show ?thesis
      using Cons.IH Cons.prems p word blank by (simp add: shlex_split_def emit_def plain_word_def)
  qed
qed

text \<open>A command given as a non-empty list of words without blanks, quotes or backslashes is run as
  exactly these words: joining them and splitting the line again loses nothing.\<close>

theorem command_words:
  assumes "config_entry d ''command'' PNone = Inr (PList (map PStr ws))"
    and "ws \<noteq> []" and "\<forall>w \<in> set ws. plain_word w"
  shows "job_command d = Inr ws"
proof -
  have m: "rmap string_of (map PStr vs) = Inr vs" for vs
    by (induction vs) (simp_all add: py_eval)
  obtain w v where w: "ws = w # v" using assms(2) by (cases ws) auto
  then have "join_char (CHR '' '') ws \<noteq> []"
    using assms(3) by (cases v) (auto simp: plain_word_def)
  then show ?thesis
    using assms(1) shlex_join [OF assms(3)]
    by (simp add: job_command_def joined_command_def m py_or_def)
qed

section \<open>The cluster\<close>

text \<open>
  What a call of the client library can raise: \<open>ApiException\<close> with its reason, which may be
  missing; an error of the transport, whose reason is no string; anything else, which has no
  reason at all. All of them are caught by \<open>except Exception\<close>.
\<close>

datatype api_error = ApiException "string option" | Transport string | Plain string

type_synonym ('w, 'a) api = "'w \<Rightarrow> (api_error + 'a) \<times> 'w"

text \<open>\<open>e.reason\<close>; a reason that is no string is equal to none.\<close>

fun e_reason :: "api_error \<Rightarrow> string option res" where
  "e_reason (ApiException r) = Inr r"
| "e_reason (Transport s) = Inr None"
| "e_reason (Plain s) = Inl AttributeError"

fun exn_of :: "api_error \<Rightarrow> exn" where
  "exn_of (ApiException r) = ApiError (fmt r)"
| "exn_of (Transport s) = OtherError s"
| "exn_of (Plain s) = OtherError s"

text \<open>\<open>try: m except Exception as e: h e\<close> around calls of the library, and \<open>m; k\<close> in its body.\<close>

definition api_try :: "('w, 'a) api \<Rightarrow> (api_error \<Rightarrow> ('w, 'a) act) \<Rightarrow> ('w, 'a) act" where
  "api_try m h w = (case m w of (Inl e, w') \<Rightarrow> h e w' | (Inr x, w') \<Rightarrow> (Inr x, w'))"

definition api_then :: "('w, unit) api \<Rightarrow> ('w, 'a) api \<Rightarrow> ('w, 'a) api" where
  "api_then m k w = (case m w of (Inl e, w') \<Rightarrow> (Inl e, w') | (Inr _, w') \<Rightarrow> k w')"

definition api_skip :: "('w, unit) api" where
  "api_skip w = (Inr (), w)"

definition api_call :: "('w, 'a) api \<Rightarrow> ('w, 'a) act" where
  "api_call m = api_try m (\<lambda>e. throw (exn_of e))"

text \<open>The objects handed to the server.\<close>

record config_map =
  cm_name :: string
  cm_namespace :: pyval
  cm_data :: "(string \<times> pyval) list"

record kube_object =
  ob_api_version :: string
  ob_kind :: string
  ob_name :: string
  ob_namespace :: "pyval option"
  ob_spec :: pyval

record pod =
  pod_name :: string
  pod_namespace :: string
  pod_labels :: "(string, string) dict"

text \<open>
  The calls of the library. The namespace and the name of a job to be deleted are values
  of any type, because one caller passes a job object there; custom objects are addressed by
  their group, version and plural. The last three calls are the file system of the manager's own pod.
\<close>

datatype job_arg = Text pyval | Object kube_object

record 'w kube_api =
  k_create_cm :: "pyval \<Rightarrow> config_map \<Rightarrow> ('w, unit) api"
  k_delete_cm :: "pyval \<Rightarrow> string \<Rightarrow> ('w, unit) api"
  k_create_job :: "pyval \<Rightarrow> kube_object \<Rightarrow> ('w, unit) api"
  k_delete_job :: "job_arg \<Rightarrow> job_arg \<Rightarrow> ('w, unit) api"
  k_create_custom :: "string \<Rightarrow> string \<Rightarrow> string \<Rightarrow> pyval \<Rightarrow> kube_object \<Rightarrow> ('w, unit) api"
  k_delete_custom :: "string \<Rightarrow> string \<Rightarrow> string \<Rightarrow> pyval \<Rightarrow> string \<Rightarrow> ('w, unit) api"
  k_list_pods :: "string \<Rightarrow> string \<Rightarrow> ('w, pod list) api"
  k_read_log :: "string \<Rightarrow> string \<Rightarrow> ('w, string) api"
  k_exists :: "string \<Rightarrow> 'w \<Rightarrow> bool"
  k_makedirs :: "string \<Rightarrow> ('w, unit) act"
  k_write :: "string \<Rightarrow> string \<Rightarrow> ('w, unit) act"

text \<open>
  The functions of other libraries: \<open>json.loads\<close>, \<open>json.dumps\<close>, \<open>Template(s).render\<close>, and the
  text \<open>str\<close> gives for a value that is neither a string nor an integer.
\<close>

record kube_lib =
  l_loads :: "string \<Rightarrow> pyval res"
  l_dumps :: "pyval \<Rightarrow> string"
  l_render :: "string \<Rightarrow> (string \<times> pyval) list \<Rightarrow> string res"
  l_repr :: "pyval \<Rightarrow> string"

section \<open>Config maps\<close>

definition kube_namespace :: "pyval \<Rightarrow> pyval res" where
  "kube_namespace d = rbind (py_get d ''namespace'' PNone) (\<lambda>n. Inr (py_or n (PStr ''default'')))"

definition configmap_body :: "kube_lib \<Rightarrow> pyval \<Rightarrow> string \<Rightarrow> pyval \<Rightarrow> config_map res" where
  "configmap_body L d name content =
     rbind (py_get d ''app-config'' PNone) (\<lambda>a.
     rbind (kube_namespace d) (\<lambda>ns.
     Inr \<lparr>cm_name = name, cm_namespace = ns,
        cm_data = [(''entrypoint'', content), (''config'', PStr (l_dumps L d)),
          (''app-config'', py_or a (PStr []))]\<rparr>))"

text \<open>Failures of a deletion are logged only.\<close>

definition delete_configmap :: "'w kube_api \<Rightarrow> pyval \<Rightarrow> string \<Rightarrow> ('w, unit) act" where
  "delete_configmap api d name = (case kube_namespace d of
      Inl e \<Rightarrow> ret ()
    | Inr ns \<Rightarrow> api_try (k_delete_cm api ns name) (\<lambda>e. ret ()))"

text \<open>
  On a conflict the old map is deleted and the call starts again; the argument \<open>depth\<close> is the
  interpreter's limit on nested calls, whose end is an exception too.
\<close>

fun create_configmap :: "'w kube_api \<Rightarrow> kube_lib \<Rightarrow> nat \<Rightarrow> pyval \<Rightarrow> string \<Rightarrow> pyval \<Rightarrow> ('w, unit) act" where
  "create_configmap api L 0 d name content = throw (OtherError ''RecursionError'')"
| "create_configmap api L (Suc depth) d name content =
     bind (lift (configmap_body L d name content)) (\<lambda>cm.
       api_try (k_create_cm api (cm_namespace cm) cm) (\<lambda>e.
         bind (lift (e_reason e)) (\<lambda>r.
           if r = Some ''Conflict''
           then andthen (delete_configmap api d name) (create_configmap api L depth d name content)
           else throw ValueError)))"

section \<open>Cleaning up\<close>

definition kube_safe :: "string \<Rightarrow> string" where
  "kube_safe s = replace_char (CHR ''_'') (CHR ''-'') s"

definition delete_job :: "'w kube_api \<Rightarrow> pyval \<Rightarrow> string \<Rightarrow> ('w, unit) act" where
  "delete_job api d name = (case kube_namespace d of
      Inl e \<Rightarrow> ret ()
    | Inr ns \<Rightarrow> api_try (k_delete_job api (Text (PStr name)) (Text ns)) (\<lambda>e. ret ()))"

definition kube_cleanup :: "'w kube_api \<Rightarrow> pyval \<Rightarrow> string \<Rightarrow> ('w, unit) act" where
  "kube_cleanup api d jid =
     (let name = kube_safe (lower jid) in
      andthen (delete_configmap api d name)
        (bind (lift (desc_name d)) (\<lambda>step_name. delete_job api d (kube_safe (step_name @ ''-'' @ name)))))"

definition cancel_jobs :: "'w kube_api \<Rightarrow> pyval \<Rightarrow> string list \<Rightarrow> ('w, cancel_code) act" where
  "cancel_jobs api d joblist =
     andthen (for_each joblist (\<lambda>n. andthen (delete_job api d n) (delete_configmap api d n))) (ret CancelOK)"

section \<open>Building a job\<close>

definition kube_job_name :: "pyval \<Rightarrow> job_setup \<Rightarrow> string res" where
  "kube_job_name d step = rbind (desc_name d) (\<lambda>n. Inr (kube_safe (n @ ''-'' @ setup_name step)))"

definition kube_resources :: "pyval \<Rightarrow> job_setup \<Rightarrow> pyval res" where
  "kube_resources d step =
     (let n = (if cores_per_task step = 0 then 1 else cores_per_task step) * setup_nodes step;
          cpu = [(''cpu'', PInt (cores_per_task step))] in
      if n \<le> 0 then Inl ValueError
      else rbind
        (if 0 < gpus step
         then rbind (config_entry d ''gpulabel'' (PStr ''nvidia.com/gpu'')) (\<lambda>l.
                rbind (string_of l) (\<lambda>k. Inr (dict_set k (PInt (gpus step)) cpu)))
         else Inr cpu)
        (\<lambda>r. Inr (PDict [(''requests'', PDict r), (''limits'', PDict r)])))"

definition node_selector :: "kube_lib \<Rightarrow> pyval \<Rightarrow> pyval res" where
  "node_selector L d = rbind (desc_properties (l_loads L) d) (\<lambda>p. py_get p ''node-selector'' PNone)"

definition job_volumes :: "job_setup \<Rightarrow> pyval" where
  "job_volumes step = PList [PDict [(''name'', PStr ''entrypoint-mount''),
     (''config_map'', PDict [(''name'', PStr (setup_name step)),
        (''items'', PList [
           PDict [(''key'', PStr ''entrypoint''), (''path'', PStr ''entrypoint.sh'')],
           PDict [(''key'', PStr ''config''), (''path'', PStr ''config.json'')],
           PDict [(''key'', PStr ''app-config''), (''path'', PStr ''app-config'')]])])]]"

definition container_name :: string where
  "container_name = ''step''"

definition workdir_mount :: pyval where
  "workdir_mount = PList [PDict [(''mount_path'', PStr ''/workdir''), (''name'', PStr ''entrypoint-mount'')]]"

definition backoff_limit :: "pyval \<Rightarrow> int res" where
  "backoff_limit d =
     rbind (config_entry d ''retry_failure'' PNone) (\<lambda>v. Inr (if py_in v true_options then 6 else 0))"

definition opt_str :: "string option \<Rightarrow> pyval" where
  "opt_str s = (case s of None \<Rightarrow> PNone | Some t \<Rightarrow> PStr t)"

text \<open>The labels of the pods: the step, the sequence and, when it is set, the mark of success.\<close>

definition pod_labels_of :: "kube_lib \<Rightarrow> pyval \<Rightarrow> string option \<Rightarrow> (string \<times> pyval) list res" where
  "pod_labels_of L d jid =
     rbind (desc_name d) (\<lambda>n.
     rbind (desc_always_succeed (l_loads L) d) (\<lambda>always.
     Inr ([(''app'', PStr n), (operator_label, opt_str jid)] @
          (if always then [(''always-succeed'', PStr ''1'')] else []))))"

definition step_walltime :: "job_setup \<Rightarrow> pyval res" where
  "step_walltime step = convert_walltime_to_seconds (py_or (walltime step) (PInt 0))"

text \<open>\<open>d[k] = int(walltime)\<close> when the walltime is set.\<close>

definition with_deadline :: "string \<Rightarrow> pyval \<Rightarrow> (string \<times> pyval) list \<Rightarrow> (string \<times> pyval) list res" where
  "with_deadline k wall d =
     (if truthy wall then rbind (py_int wall) (\<lambda>s. Inr (d @ [(k, PInt s)])) else Inr d)"

definition batch_container :: "pyval \<Rightarrow> job_setup \<Rightarrow> pyval \<Rightarrow> string list \<Rightarrow> pyval res" where
  "batch_container d step resources command =
     rbind (py_item d ''image'') (\<lambda>image.
     rbind (case command of [] \<Rightarrow> Inl IndexError | c # cs \<Rightarrow> Inr (c, cs)) (\<lambda>(c, cs).
     rbind (config_entry d ''pull_policy'' (PStr ''IfNotPresent'')) (\<lambda>pull.
     rbind (extra_environment d) (\<lambda>env.
     Inr (PDict [(''image'', image), (''name'', PStr container_name), (''command'', PList [PStr c]),
       (''args'', PList (map PStr cs)), (''image_pull_policy'', pull), (''volume_mounts'', workdir_mount),
       (''env'', PList env), (''resources'', resources), (''working_dir'', setup_workdir step)])))))"

definition generate_batch_job :: "kube_lib \<Rightarrow> pyval \<Rightarrow> job_setup \<Rightarrow> string option \<Rightarrow> kube_object res" where
  "generate_batch_job L d step jid =
     rbind (kube_job_name d step) (\<lambda>job_name.
     rbind (step_walltime step) (\<lambda>wall.
     rbind (kube_resources d step) (\<lambda>resources.
     rbind (job_command d) (\<lambda>command.
     rbind (batch_container d step resources command) (\<lambda>container.
     rbind (config_entry d ''subdomain'' (PStr ''r'')) (\<lambda>subdomain.
     rbind (pod_labels_of L d jid) (\<lambda>labels.
     rbind (node_selector L d) (\<lambda>selector.
     rbind (with_deadline ''activeDeadlineSeconds'' wall
        ([(''containers'', PList [container]), (''restartPolicy'', PStr ''Never''),
          (''volumes'', job_volumes step), (''subdomain'', subdomain)] @
         (if selector \<noteq> PNone then [(''nodeSelector'', selector)] else []))) (\<lambda>pod_spec.
     rbind (backoff_limit d) (\<lambda>backoff.
     Inr \<lparr>ob_api_version = ''batch/v1'', ob_kind = ''Job'', ob_name = job_name, ob_namespace = None,
       ob_spec = PDict [(''parallelism'', PInt (setup_nodes step)), (''completions'', PInt (setup_nodes step)),
         (''suspend'', PBool False),
         (''template'', PDict [(''metadata'', PDict [(''labels'', PDict labels)]), (''spec'', PDict pod_spec)]),
         (''backoff_limit'', PInt backoff)]\<rparr>))))))))))"

section \<open>Submitting a job\<close>

definition submission :: "submission_code \<Rightarrow> int \<Rightarrow> job_submission" where
  "submission code rc = \<lparr>status = code, return_code = rc\<rparr>"

text \<open>The handler shared by the submissions: a conflict means the object is there already.\<close>

definition refused :: "api_error \<Rightarrow> ('w, job_submission) act" where
  "refused e =
     bind (lift (e_reason e)) (\<lambda>r.
       ret (submission (if r = Some ''Conflict'' then SubmitCONFLICT else SubmitERROR) (- 1)))"

definition accepted :: "('w, job_submission) api" where
  "accepted w = (Inr (submission SubmitOK 0), w)"

text \<open>
  To replace a job it is deleted first. The call gives the namespace where the name goes and
  the job object where the namespace goes.
\<close>

definition submit_kubernetes_job ::
  "'w kube_api \<Rightarrow> kube_lib \<Rightarrow> pyval \<Rightarrow> job_setup \<Rightarrow> string option \<Rightarrow> bool \<Rightarrow> ('w, job_submission) act" where
  "submit_kubernetes_job api L d step jid replace =
     bind (lift (generate_batch_job L d step jid)) (\<lambda>job.
     bind (lift (kube_namespace d)) (\<lambda>ns.
       api_try
         (api_then (if replace then k_delete_job api (Text ns) (Object job) else api_skip)
            (api_then (k_create_job api ns job) accepted))
         refused))"

subsection \<open>Job sets\<close>

definition show_int :: "int \<Rightarrow> string" where
  "show_int i = (if i < 0 then CHR ''-'' # show_nat (nat (- i)) else show_nat (nat i))"

text \<open>\<open>str(v)\<close>.\<close>

definition py_str :: "kube_lib \<Rightarrow> pyval \<Rightarrow> string" where
  "py_str L v = (case v of PStr s \<Rightarrow> s | PInt i \<Rightarrow> show_int i | PNone \<Rightarrow> ''None''
     | PBool b \<Rightarrow> (if b then ''True'' else ''False'') | _ \<Rightarrow> l_repr L v)"

text \<open>The ports: an absent setting is the empty string, which is split like any other.\<close>

definition jobset_ports :: "kube_lib \<Rightarrow> pyval \<Rightarrow> pyval list res" where
  "jobset_ports L d =
     rbind (desc_properties (l_loads L) d) (\<lambda>p.
     rbind (py_get p ''ports'' PNone) (\<lambda>ports.
     rmap (\<lambda>s. rbind (py_int (PStr s)) (\<lambda>i. Inr (PDict [(''container_port'', PInt i)])))
       (split_char (CHR '','') (py_str L (py_or ports (PStr []))))))"

text \<open>A value that starts with \<open>from:\<close> names a field of the pod.\<close>

definition jobset_env_item :: "kube_lib \<Rightarrow> pyval \<Rightarrow> pyval \<Rightarrow> pyval" where
  "jobset_env_item L name v =
     (let s = py_str L v in
      if take 5 s = ''from:''
      then PDict [(''name'', name),
        (''valueFrom'', PDict [(''fieldRef'', PDict [(''fieldPath'', PStr (remove_sub ''from:'' s))])])]
      else PDict [(''name'', name), (''value'', PStr s)])"

definition jobset_env :: "kube_lib \<Rightarrow> pyval \<Rightarrow> string \<Rightarrow> pyval list res" where
  "jobset_env L d job_name =
     rbind (extra_environment d) (\<lambda>env.
     rbind (rmap (\<lambda>item. rbind (py_item item ''name'') (\<lambda>n. rbind (py_item item ''value'') (\<lambda>v.
        Inr (jobset_env_item L n v)))) env) (\<lambda>items.
     Inr (items @ [PDict [(''name'', PStr ''jobname''), (''value'', PStr job_name)]])))"

definition jobset_container :: "kube_lib \<Rightarrow> pyval \<Rightarrow> job_setup \<Rightarrow> pyval list \<Rightarrow> string \<Rightarrow> pyval res" where
  "jobset_container L d step ports job_name =
     rbind (py_item d ''image'') (\<lambda>image.
     rbind (job_command d) (\<lambda>command.
     rbind (config_entry d ''pull_policy'' PNone) (\<lambda>pull.
     rbind (kube_resources d step) (\<lambda>resources.
     rbind (jobset_env L d job_name) (\<lambda>env.
     Inr (PDict [(''name'', PStr container_name), (''image'', image), (''command'', PList (map PStr command)),
       (''working_dir'', setup_workdir step), (''image_pull_policy'', py_or pull (PStr ''IfNotPresent'')),
       (''resources'', resources), (''ports'', PList ports), (''volume_mounts'', workdir_mount),
       (''env'', PList env)]))))))"

definition generate_jobset :: "kube_lib \<Rightarrow> pyval \<Rightarrow> job_setup \<Rightarrow> string option \<Rightarrow> kube_object res" where
  "generate_jobset L d step jid =
     rbind (jobset_ports L d) (\<lambda>ports.
     rbind (kube_job_name d step) (\<lambda>job_name.
     rbind (step_walltime step) (\<lambda>wall.
     rbind (kube_namespace d) (\<lambda>ns.
     rbind (jobset_container L d step ports job_name) (\<lambda>container.
     rbind (pod_labels_of L d jid) (\<lambda>labels.
     rbind (backoff_limit d) (\<lambda>backoff.
     rbind (with_deadline ''activeDeadlineSeconds'' wall
        [(''parallelism'', PInt (setup_nodes step)), (''completions'', PInt (setup_nodes step)),
         (''template'', PDict [(''spec'', PDict [(''containers'', PList [container]),
            (''volumes'', job_volumes step)])]),
         (''backoffLimit'', PInt backoff)]) (\<lambda>spec.
     Inr \<lparr>ob_api_version = ''jobset.x-k8s.io/v1alpha2'', ob_kind = ''JobSet'', ob_name = job_name,
       ob_namespace = Some ns,
       ob_spec = PDict [(''replicatedJobs'', PList [PDict [(''name'', PStr ''jobset''), (''replicas'', PInt 1),
           (''template'', PDict [(''metadata'', PDict [(''labels'', PDict labels)]), (''spec'', PDict spec)])]]),
         (''suspend'', PBool False)]\<rparr>))))))))"

definition submit_jobset ::
  "'w kube_api \<Rightarrow> kube_lib \<Rightarrow> pyval \<Rightarrow> job_setup \<Rightarrow> string option \<Rightarrow> bool \<Rightarrow> ('w, job_submission) act" where
  "submit_jobset api L d step jid replace =
     bind (lift (generate_jobset L d step jid)) (\<lambda>js.
     bind (lift (kube_namespace d)) (\<lambda>ns.
       api_try
         (api_then
            (if replace then k_delete_custom api ''jobset.x-k8s.io'' ''v1alpha2'' ''jobsets'' ns (ob_name js)
             else api_skip)
            (api_then (k_create_custom api ''jobset.x-k8s.io'' ''v1alpha2'' ''jobsets'' ns js) accepted))
         refused))"

subsection \<open>MiniClusters\<close>

definition minicluster_container :: "pyval \<Rightarrow> job_setup \<Rightarrow> pyval \<Rightarrow> pyval res" where
  "minicluster_container d step resources =
     rbind (config_entry d ''pull_policy'' PNone) (\<lambda>pull.
     rbind (job_command d) (\<lambda>command.
     rbind (py_item d ''image'') (\<lambda>image.
     rbind (py_get d ''environment'' PNone) (\<lambda>env.
     Inr (PDict [(''command'', PStr (join_char (CHR '' '') command)), (''image'', image),
       (''workingDir'', setup_workdir step), (''name'', PStr container_name),
       (''pullAlways'', PBool (py_eq pull (PStr ''Always''))), (''launcher'', PBool True),
       (''volumes'', PDict [(setup_name step, PDict [(''configMapName'', PStr (setup_name step)),
          (''path'', PStr ''/workdir''),
          (''items'', PDict [(''entrypoint'', PStr ''entrypoint.sh''), (''config'', PStr ''config.json''),
             (''app-config'', PStr ''app-config'')])])]),
       (''environment'', py_or env (PDict [])), (''resources'', resources)])))))"

definition generate_minicluster :: "kube_lib \<Rightarrow> pyval \<Rightarrow> job_setup \<Rightarrow> string option \<Rightarrow> kube_object res" where
  "generate_minicluster L d step jid =
     rbind (kube_job_name d step) (\<lambda>job_name.
     rbind (step_walltime step) (\<lambda>wall.
     rbind (kube_namespace d) (\<lambda>ns.
     rbind (kube_resources d step) (\<lambda>resources.
     rbind (minicluster_container d step resources) (\<lambda>container.
     rbind (pod_labels_of L d jid) (\<lambda>labels.
     rbind (with_deadline ''deadlineSeconds'' wall
        [(''containers'', PList [container]), (''jobLabels'', PDict labels),
         (''maxSize'', PInt (setup_nodes step + 100)), (''size'', PInt (setup_nodes step)),
         (''tasks'', PInt (cores_per_task step)),
         (''network'', PDict [(''headlessName'', PStr (setup_name step))])]) (\<lambda>spec.
     rbind (node_selector L d) (\<lambda>selector.
     Inr \<lparr>ob_api_version = ''flux-framework.org/v1alpha2'', ob_kind = ''MiniCluster'', ob_name = job_name,
       ob_namespace = Some ns,
       ob_spec = PDict (spec @ (if selector \<noteq> PNone
          then [(''pod'', PDict [(''nodeSelector'', selector)])] else []))\<rparr>))))))))"

text \<open>Here only \<open>ApiException\<close> is caught.\<close>

definition submit_minicluster_job ::
  "'w kube_api \<Rightarrow> kube_lib \<Rightarrow> pyval \<Rightarrow> job_setup \<Rightarrow> string option \<Rightarrow> ('w, job_submission) act" where
  "submit_minicluster_job api L d step jid =
     bind (lift (generate_minicluster L d step jid)) (\<lambda>mc.
     bind (lift (kube_namespace d)) (\<lambda>ns.
       api_try
         (api_then (k_create_custom api ''flux-framework.org'' ''v1alpha2'' ''miniclusters'' ns mc) accepted)
         (\<lambda>e. case e of ApiException r \<Rightarrow> refused e | _ \<Rightarrow> throw (exn_of e))))"

subsection \<open>The adapter and the tracker\<close>

definition property :: "kube_lib \<Rightarrow> pyval \<Rightarrow> string \<Rightarrow> pyval res" where
  "property L d k = rbind (desc_properties (l_loads L) d) (\<lambda>p. py_get p k PNone)"

definition kube_submit ::
  "'w kube_api \<Rightarrow> kube_lib \<Rightarrow> nat \<Rightarrow> pyval \<Rightarrow> job_setup \<Rightarrow> string option \<Rightarrow> bool \<Rightarrow> ('w, job_submission) act" where
  "kube_submit api L depth d step jid again =
     andthen (create_configmap api L depth d (setup_name step) (script step))
       (bind (lift (property L d ''minicluster'')) (\<lambda>m.
        if py_in m true_options then submit_minicluster_job api L d step jid
        else bind (lift (property L d ''jobset'')) (\<lambda>js.
        if py_in js true_options then submit_jobset api L d step jid again
        else submit_kubernetes_job api L d step jid again)))"

text \<open>
  \<open>create_step\<close>: the name in the log message is read first, and a missing identifier has no
  \<open>lower\<close>. The script is rendered with the settings it may use.
\<close>

definition render_args :: "workflow \<Rightarrow> pyval \<Rightarrow> string \<Rightarrow> pyval \<Rightarrow> int \<Rightarrow> pyval \<Rightarrow> (string \<times> pyval) list res" where
  "render_args W d jid wdir nodes ntasks =
     rbind (tracker_pull_from d) (\<lambda>pull.
     rbind (tracker_push_to d) (\<lambda>push.
     rbind (tracker_registry_host W d) (\<lambda>host.
     rbind (tracker_plain_http W d) (\<lambda>plain.
     rbind (ncores d) (\<lambda>cores.
     Inr [(''jobids'', PList [PStr jid]), (''jobid'', PStr jid), (''configfile'', PStr ''/workdir/app-config''),
       (''workdir'', wdir), (''pull'', pull), (''push'', push), (''registry'', host), (''plain_http'', plain),
       (''nodes'', PInt nodes), (''cores_per_task'', PInt cores), (''tasks'', ntasks)])))))"

definition step_script :: "workflow \<Rightarrow> kube_lib \<Rightarrow> pyval \<Rightarrow> string \<Rightarrow> pyval \<Rightarrow> int \<Rightarrow> pyval \<Rightarrow> pyval res" where
  "step_script W L d jid wdir nodes ntasks =
     rbind (py_contains d ''script'') (\<lambda>present.
       if \<not> present then Inr PNone
       else
         rbind (render_args W d jid wdir nodes ntasks) (\<lambda>args.
         rbind (py_item d ''script'') (\<lambda>t.
         rbind (string_of t) (\<lambda>text.
         rbind (l_render L text args) (\<lambda>s. Inr (PStr s))))))"

definition kube_create_step :: "workflow \<Rightarrow> kube_lib \<Rightarrow> pyval \<Rightarrow> string option \<Rightarrow> job_setup res" where
  "kube_create_step W L d oid =
     rbind (desc_name d) (\<lambda>_.
     rbind (py_get d ''workdir'' PNone) (\<lambda>w.
     rbind (case oid of None \<Rightarrow> Inl AttributeError | Some jid \<Rightarrow> Inr jid) (\<lambda>jid.
     rbind (nnodes d) (\<lambda>nodes.
     rbind (ncores d) (\<lambda>cores.
     rbind (ngpus d) (\<lambda>devices.
     rbind (desc_tasks d) (\<lambda>ntasks.
     rbind (step_script W L d jid (py_or w (PStr default_workdir)) nodes ntasks) (\<lambda>text.
     rbind (config_entry d ''walltime'' PNone) (\<lambda>wall.
     Inr \<lparr>setup_name = kube_safe (lower jid), setup_nodes = nodes, cores_per_task = cores, script = text,
       tasks = ntasks, walltime = wall, gpus = devices, setup_workdir = py_or w (PStr default_workdir)\<rparr>)))))))))"

text \<open>
  The check of the image; its message reads an attribute \<open>job_name\<close> that the adapter does not
  have, so it is the message that raises.
\<close>

definition kube_validate :: "pyval \<Rightarrow> unit res" where
  "kube_validate d =
     rbind (py_contains d ''image'') (\<lambda>present.
     rbind (if present then py_item d ''image'' else Inr PNone) (\<lambda>image.
       if \<not> present \<or> \<not> truthy image then Inl AttributeError else Inr ()))"

definition kube_tracker ::
  "(string \<Rightarrow> pyval \<Rightarrow> 'm res) \<Rightarrow> workflow \<Rightarrow> string \<Rightarrow> (pyval \<times> 'm option) res" where
  "kube_tracker import_script W name =
     rbind (base_tracker W name) (\<lambda>d.
     rbind (load_custom_events import_script d) (\<lambda>m.
     rbind (kube_validate d) (\<lambda>_. Inr (d, m))))"

definition kube_submit_job ::
  "'w kube_api \<Rightarrow> kube_lib \<Rightarrow> nat \<Rightarrow> workflow \<Rightarrow> pyval \<Rightarrow> string option \<Rightarrow> bool \<Rightarrow> ('w, job_submission) act" where
  "kube_submit_job api L depth W d =
     submit_job (kube_create_step W L d) (kube_submit api L depth d) (kube_cleanup api d)"

subsection \<open>Logs and custom metrics\<close>

text \<open>
  \<open>get_metric_events\<close>: the parser of the job's event script, when there is one; a parser that
  raises is reported and skipped.
\<close>

definition get_metric_events :: "pyval \<Rightarrow> (string \<Rightarrow> pyval res) option \<Rightarrow> pod \<Rightarrow> string \<Rightarrow> custom_metric option res" where
  "get_metric_events d parse_log p content = (case parse_log of
      None \<Rightarrow> rbind (desc_name d) (\<lambda>_. Inr None)
    | Some parse \<Rightarrow> (case parse content of
        Inl e \<Rightarrow> (if caught e then Inr None else Inl e)
      | Inr events \<Rightarrow>
          rbind (dict_at (pod_labels p) ''job-name'') (\<lambda>job.
          rbind (desc_name d) (\<lambda>n.
          Inr (Some \<lparr>cm_job_name = job, cm_step_name = n, cm_metrics = events\<rparr>)))))"

text \<open>The log file of one pod; a file that exists is not written again.\<close>

definition save_pod_log :: "'w kube_api \<Rightarrow> string option \<Rightarrow> kube_job \<Rightarrow> nat \<Rightarrow> string \<Rightarrow> ('w, unit) act" where
  "save_pod_log api path j i content = (case path of
      None \<Rightarrow> ret ()
    | Some p \<Rightarrow>
        bind (lift (dict_at (kj_labels j) ''app'')) (\<lambda>app.
        bind (lift (dict_at (kj_labels j) ''jobid'')) (\<lambda>jid.
        bind (reads (k_exists api (path_join p (app @ ''-'' @ jid @ ''-'' @ show_nat i @ ''.out'')))) (\<lambda>there.
          if there then ret ()
          else k_write api content (path_join p (app @ ''-'' @ jid @ ''-'' @ show_nat i @ ''.out''))))))"

text \<open>
  The loop over the pods. A log that cannot be read ends the loop; the metrics of the first pod
  are collected before its file is written.
\<close>

fun pods_loop ::
  "'w kube_api \<Rightarrow> pyval \<Rightarrow> (string \<Rightarrow> pyval res) option \<Rightarrow> string option \<Rightarrow> kube_job \<Rightarrow> nat \<Rightarrow> pod list \<Rightarrow>
   custom_metric list \<Rightarrow> 'w \<Rightarrow> (unit res \<times> custom_metric list) \<times> 'w" where
  "pods_loop api d parse_log path j i [] ms w = ((Inr (), ms), w)"
| "pods_loop api d parse_log path j i (p # ps) ms w =
     (case k_read_log api (pod_name p) (pod_namespace p) w of
        (Inl (ApiException r), w1) \<Rightarrow> ((Inr (), ms), w1)
      | (Inl e, w1) \<Rightarrow> ((Inl (exn_of e), ms), w1)
      | (Inr content, w1) \<Rightarrow>
          (case (if i = 0 then get_metric_events d parse_log p content else Inr None) of
             Inl e \<Rightarrow> ((Inl e, ms), w1)
           | Inr m \<Rightarrow>
               let ms1 = ms @ (case m of None \<Rightarrow> [] | Some x \<Rightarrow> [x]) in
               (case save_pod_log api path j i content w1 of
                  (Inl e, w2) \<Rightarrow> ((Inl e, ms1), w2)
                | (Inr _, w2) \<Rightarrow> pods_loop api d parse_log path j (Suc i) ps ms1 w2)))"

definition logs_dir :: "'w kube_api \<Rightarrow> kube_lib \<Rightarrow> pyval \<Rightarrow> ('w, string option) act" where
  "logs_dir api L d =
     bind (lift (save_path (l_loads L) d)) (\<lambda>sp.
       if \<not> truthy sp then ret None
       else
         bind (lift (string_of sp)) (\<lambda>s.
         bind (reads (k_exists api (path_join s ''logs''))) (\<lambda>there.
         andthen (if there then ret () else k_makedirs api (path_join s ''logs''))
           (ret (Some (path_join s ''logs''))))))"

definition kube_save_log ::
  "'w kube_api \<Rightarrow> kube_lib \<Rightarrow> pyval \<Rightarrow> (string \<Rightarrow> pyval res) option \<Rightarrow> kube_job option \<Rightarrow> 'w \<Rightarrow>
   (unit res \<times> custom_metric list) \<times> 'w" where
  "kube_save_log api L d parse_log job w = (case job of
      None \<Rightarrow> ((Inr (), []), w)
    | Some j \<Rightarrow>
        (case api_call (k_list_pods api (''batch.kubernetes.io/job-name='' @ kj_name j) (kj_namespace j)) w of
           (Inl e, w1) \<Rightarrow> ((Inl e, []), w1)
         | (Inr pods, w1) \<Rightarrow>
             (case logs_dir api L d w1 of
                (Inl e, w2) \<Rightarrow> ((Inl e, []), w2)
              | (Inr path, w2) \<Rightarrow> pods_loop api d parse_log path j 0 pods [] w2)))"

section \<open>Cleaning up after a failed submission\<close>

lemma api_try_eval:
  "m w = (Inl e, w') \<Longrightarrow> api_try m h w = h e w'"
  "m w = (Inr x, w') \<Longrightarrow> api_try m h w = (Inr x, w')"
  by (simp_all add: api_try_def)

lemma api_try_returns [simp]: "fst (api_try m (\<lambda>e. ret ()) w) = Inr ()"
  by (cases "m w"; cases "fst (m w)") (auto simp: api_try_def ret_def)

lemma delete_configmap_returns [simp]: "fst (delete_configmap api d n w) = Inr ()"
  by (simp add: delete_configmap_def ret_def split: sum.split)

lemma delete_job_returns [simp]: "fst (delete_job api d n w) = Inr ()"
  by (simp add: delete_job_def ret_def split: sum.split)

lemma andthen_snd: "fst (m w) = Inr () \<Longrightarrow> andthen m k w = k (snd (m w))"
  by (cases "m w") (simp add: andthen_def bind_def)

lemma kube_cleanup_eval:
  assumes "desc_name d = Inr n"
  shows "kube_cleanup api d jid w =
    delete_job api d (kube_safe (n @ ''-'' @ kube_safe (lower jid))) (snd (delete_configmap api d (kube_safe (lower jid)) w))"
  using assms by (simp add: kube_cleanup_def Let_def andthen_snd bind_def lift_def)

lemma kube_safe_safe [simp]: "kube_safe (kube_safe s) = kube_safe s"
  by (simp add: kube_safe_def replace_char_def comp_def)

lemma kube_safe_append: "kube_safe (s @ t) = kube_safe s @ kube_safe t"
  by (simp add: kube_safe_def replace_char_def)

lemma lower_char_cases:
  "(65 \<le> (of_char c :: nat) \<and> of_char c \<le> (90 :: nat) \<and> of_char (lower_char c) = of_char c + (32 :: nat)) \<or>
   (\<not> (65 \<le> (of_char c :: nat) \<and> of_char c \<le> (90 :: nat)) \<and> lower_char c = c)"
  by (auto simp: lower_char_def Let_def)

lemma lower_char_idem: "lower_char (lower_char c) = lower_char c"
  using lower_char_cases [of c] lower_char_cases [of "lower_char c"] by auto

lemma lower_char_underscore: "lower_char c = CHR ''_'' \<longleftrightarrow> c = CHR ''_''"
proof -
  have u: "(of_char (CHR ''_'') :: nat) = 95" by simp
  from lower_char_cases [of c] show ?thesis
  proof (elim disjE conjE)
    assume n: "65 \<le> (of_char c :: nat)" "of_char c \<le> (90 :: nat)" "of_char (lower_char c) = of_char c + (32 :: nat)"
    then have "(of_char (lower_char c) :: nat) \<noteq> 95" "(of_char c :: nat) \<noteq> 95" by linarith+
    then show ?thesis using u by metis
  qed simp
qed

lemma lower_char_safe:
  "lower_char (if c = CHR ''_'' then CHR ''-'' else c) = (if lower_char c = CHR ''_'' then CHR ''-'' else lower_char c)"
  unfolding lower_char_underscore by (simp add: lower_char_def)

lemma pod_name_stable: "kube_safe (lower (kube_safe (lower s))) = kube_safe (lower s)"
  by (simp add: kube_safe_def replace_char_def lower_def comp_def lower_char_safe lower_char_idem)

interpretation kube_adapter: submission_adapter "kube_create_step W L d" "kube_submit api L depth d" "kube_cleanup api d"
  for W L d api depth
proof
  fix jid step w
  assume "kube_create_step W L d jid = Inr step"
  then obtain n where "desc_name d = Inr n" by (auto simp: kube_create_step_def rbind_Inr_iff)
  then show "fst (kube_cleanup api d (setup_name step) w) = Inr ()" by (simp add: kube_cleanup_eval)
qed

lemma tidied_world:
  assumes "kube_create_step W L d jid = Inr step" and "kube_job_name d step = Inr job_name"
  shows "snd (kube_cleanup api d (setup_name step) w1) =
    snd (andthen (delete_configmap api d (setup_name step)) (delete_job api d job_name) w1)"
proof -
  obtain n j where n: "desc_name d = Inr n" and st: "setup_name step = kube_safe (lower j)"
    using assms(1) by (auto simp: kube_create_step_def rbind_Inr_iff split: option.splits)
  have job: "job_name = kube_safe (n @ ''-'' @ setup_name step)"
    using assms(2) n by (auto simp: kube_job_name_def)
  show ?thesis by (simp add: kube_cleanup_eval [OF n] st pod_name_stable job andthen_snd)
qed

text \<open>C29. Submitting a job hands on the adapter's answer. Only when the answer is an error is the cluster
  tidied up, and then exactly the config map and the job the step was submitted under are
  deleted: the names derived again from the name of the step are the names it was built with.\<close>

theorem failed_submission_tidied:
  assumes "kube_create_step W L d jid = Inr step" and "kube_job_name d step = Inr job_name"
    and "kube_submit api L depth d step jid again w = (Inr rec, w1)"
  shows "kube_submit_job api L depth W d jid again w =
    (Inr rec, if status rec = SubmitERROR
              then snd (andthen (delete_configmap api d (setup_name step)) (delete_job api d job_name) w1)
              else w1)"
proof -
  from kube_adapter.submit_job_answer [OF assms(1), of api depth again w]
    kube_adapter.submit_job_world [OF assms(1,3)] show ?thesis
    by (simp add: kube_submit_job_def assms(3) tidied_world [OF assms(1,2)] prod_eq_iff)
qed

section \<open>Stale config maps\<close>

text \<open>
  The documented behaviour of the server for config maps: creating one under a new name stores
  it, under a taken name is refused as a conflict with nothing changed; a deletion that is accepted
  removes the map, one that is refused (for lack of permission, say) changes no map.
\<close>

definition configmap_server :: "'w kube_api \<Rightarrow> ('w \<Rightarrow> pyval \<times> string \<Rightarrow> config_map option) \<Rightarrow> bool" where
  "configmap_server api store \<longleftrightarrow>
     (\<forall>ns cm w. case store w (ns, cm_name cm) of
        None \<Rightarrow> fst (k_create_cm api ns cm w) = Inr () \<and>
          store (snd (k_create_cm api ns cm w)) = (store w)((ns, cm_name cm) \<mapsto> cm)
      | Some old \<Rightarrow> k_create_cm api ns cm w = (Inl (ApiException (Some ''Conflict'')), w)) \<and>
     (\<forall>ns n w. store (snd (k_delete_cm api ns n w)) =
        (if fst (k_delete_cm api ns n w) = Inr () then (store w)((ns, n) := None) else store w))"

lemma configmap_serverD:
  assumes "configmap_server api store"
  shows "store w (ns, cm_name cm) = None \<Longrightarrow> fst (k_create_cm api ns cm w) = Inr () \<and>
      store (snd (k_create_cm api ns cm w)) = (store w)((ns, cm_name cm) \<mapsto> cm)"
    and "store w (ns, cm_name cm) = Some old \<Longrightarrow>
      k_create_cm api ns cm w = (Inl (ApiException (Some ''Conflict'')), w)"
    and "store (snd (k_delete_cm api ns n w)) =
      (if fst (k_delete_cm api ns n w) = Inr () then (store w)((ns, n) := None) else store w)"
proof -
  note law = assms [unfolded configmap_server_def]
  have c: "case store w (ns, cm_name cm) of
        None \<Rightarrow> fst (k_create_cm api ns cm w) = Inr () \<and>
          store (snd (k_create_cm api ns cm w)) = (store w)((ns, cm_name cm) \<mapsto> cm)
      | Some old \<Rightarrow> k_create_cm api ns cm w = (Inl (ApiException (Some ''Conflict'')), w)"
    using law by blast
  show "store w (ns, cm_name cm) = None \<Longrightarrow> fst (k_create_cm api ns cm w) = Inr () \<and>
      store (snd (k_create_cm api ns cm w)) = (store w)((ns, cm_name cm) \<mapsto> cm)"
    using c by simp
  show "store w (ns, cm_name cm) = Some old \<Longrightarrow>
      k_create_cm api ns cm w = (Inl (ApiException (Some ''Conflict'')), w)"
    using c by simp
  show "store (snd (k_delete_cm api ns n w)) =
      (if fst (k_delete_cm api ns n w) = Inr () then (store w)((ns, n) := None) else store w)"
    using law by blast
qed

lemma delete_configmap_world:
  "kube_namespace d = Inr ns \<Longrightarrow> snd (delete_configmap api d n w) = snd (k_delete_cm api ns n w)"
  by (cases "k_delete_cm api ns n w"; cases "fst (k_delete_cm api ns n w)")
    (auto simp: delete_configmap_def api_try_def ret_def)

lemma create_configmap_free:
  assumes "configmap_server api store" and "configmap_body L d n c = Inr cm"
    and "store w (cm_namespace cm, cm_name cm) = None"
  shows "fst (create_configmap api L (Suc k) d n c w) = Inr () \<and>
    store (snd (create_configmap api L (Suc k) d n c w)) = (store w)((cm_namespace cm, cm_name cm) \<mapsto> cm)"
proof -
  have "fst (k_create_cm api (cm_namespace cm) cm w) = Inr ()"
    "store (snd (k_create_cm api (cm_namespace cm) cm w)) = (store w)((cm_namespace cm, cm_name cm) \<mapsto> cm)"
    using configmap_serverD(1) [OF assms(1,3)] by simp_all
  then show ?thesis
    by (cases "k_create_cm api (cm_namespace cm) cm w") (simp add: assms(2) bind_def lift_def api_try_def)
qed

lemma create_configmap_taken:
  assumes "configmap_server api store" and "configmap_body L d n c = Inr cm"
    and "store w (cm_namespace cm, n) = Some old"
  shows "create_configmap api L (Suc k) d n c w =
    create_configmap api L k d n c (snd (k_delete_cm api (cm_namespace cm) n w))"
proof -
  have cm: "cm_name cm = n" "kube_namespace d = Inr (cm_namespace cm)"
    using assms(2) by (auto simp: configmap_body_def rbind_Inr_iff)
  have "k_create_cm api (cm_namespace cm) cm w = (Inl (ApiException (Some ''Conflict'')), w)"
    by (rule configmap_serverD(2) [OF assms(1)]) (simp add: assms(3) cm(1))
  then show ?thesis
    by (simp add: assms(2) bind_def lift_def api_try_def andthen_snd delete_configmap_world [OF cm(2)])
qed

text \<open>The world after \<open>i\<close> attempts to delete a map.\<close>

definition deletions :: "'w kube_api \<Rightarrow> pyval \<Rightarrow> string \<Rightarrow> nat \<Rightarrow> 'w \<Rightarrow> 'w" where
  "deletions api ns n i = ((\<lambda>w. snd (k_delete_cm api ns n w)) ^^ i)"

lemma deletions_0 [simp]: "deletions api ns n 0 w = w"
  by (simp add: deletions_def)

lemma deletions_Suc [simp]: "deletions api ns n (Suc i) w = deletions api ns n i (snd (k_delete_cm api ns n w))"
  by (simp add: deletions_def funpow_Suc_right del: funpow.simps)

lemma deletions_later:
  assumes "fst (k_delete_cm api ns n w) \<noteq> Inr ()"
  shows "(\<exists>i. i < Suc k \<and> fst (k_delete_cm api ns n (deletions api ns n i w)) = Inr ()) \<longleftrightarrow>
    (\<exists>i. i < k \<and> fst (k_delete_cm api ns n (deletions api ns n i (snd (k_delete_cm api ns n w)))) = Inr ())"
proof -
  have "(\<exists>i. i < Suc k \<and> fst (k_delete_cm api ns n (deletions api ns n i w)) = Inr ()) \<longleftrightarrow>
      (\<exists>i. Suc i < Suc k \<and> fst (k_delete_cm api ns n (deletions api ns n (Suc i) w)) = Inr ())"
    using assms by (metis deletions_0 not0_implies_Suc)
  then show ?thesis by simp
qed

text \<open>An accepted deletion ends the conflict: the next call, if there is one, creates the map.\<close>

lemma create_configmap_deleted:
  assumes "configmap_server api store" and "configmap_body L d n c = Inr cm"
    and "store w (cm_namespace cm, n) = Some old" and "fst (k_delete_cm api (cm_namespace cm) n w) = Inr ()"
  shows "fst (create_configmap api L (Suc k) d n c w) = (if 0 < k then Inr () else Inl (OtherError ''RecursionError'')) \<and>
    store (snd (create_configmap api L (Suc k) d n c w)) =
      (if 0 < k then (store w)((cm_namespace cm, n) \<mapsto> cm) else (store w)((cm_namespace cm, n) := None))"
proof -
  have cm: "cm_name cm = n" using assms(2) by (auto simp: configmap_body_def rbind_Inr_iff)
  have free: "store (snd (k_delete_cm api (cm_namespace cm) n w)) = (store w)((cm_namespace cm, n) := None)"
    using configmap_serverD(3) [OF assms(1)] assms(4) by simp
  show ?thesis
  proof (cases k)
    case 0
    then show ?thesis
      using free by (simp add: create_configmap_taken [OF assms(1-3)] throw_def del: create_configmap.simps(2))
  next
    case (Suc m)
    then show ?thesis
      using create_configmap_free [OF assms(1,2), of "snd (k_delete_cm api (cm_namespace cm) n w)" m] free
      by (simp add: create_configmap_taken [OF assms(1-3)] cm del: create_configmap.simps)
  qed
qed

text \<open>C30. Creating the config map of a step, with \<open>depth\<close> nested calls left to the interpreter. When the
  name is free, or one of the deletions that follow the conflicts is accepted while a call is left,
  the call returns and leaves exactly the new map under the name, and every other map as it was.
  When every deletion is refused, the refusal is only logged and the same conflict comes back
  until the limit on nested calls ends it with an exception, however large the limit is: the new map
  is never created.\<close>

theorem configmap_replaced:
  assumes "configmap_server api store" and "configmap_body L d n c = Inr cm"
    and "created \<longleftrightarrow> (if store w (cm_namespace cm, n) = None then 0 < depth
      else \<exists>i. Suc i < depth \<and> fst (k_delete_cm api (cm_namespace cm) n (deletions api (cm_namespace cm) n i w)) = Inr ())"
  shows "fst (create_configmap api L depth d n c w) = (if created then Inr () else Inl (OtherError ''RecursionError'')) \<and>
    (created \<longrightarrow> store (snd (create_configmap api L depth d n c w)) = (store w)((cm_namespace cm, n) \<mapsto> cm)) \<and>
    (\<not> created \<longrightarrow> store (snd (create_configmap api L depth d n c w)) \<in> {store w, (store w)((cm_namespace cm, n) := None)})"
  using assms(3)
proof (induction depth arbitrary: w created)
  case 0
  then show ?case by (simp add: throw_def split: if_splits)
next
  case (Suc depth)
  have cm: "cm_name cm = n" using assms(2) by (auto simp: configmap_body_def rbind_Inr_iff)
  let ?del = "k_delete_cm api (cm_namespace cm) n"
  show ?case
  proof (cases "store w (cm_namespace cm, n)")
    case None
    then show ?thesis
      using create_configmap_free [OF assms(1,2), of w depth] Suc.prems by (simp add: cm del: create_configmap.simps)
  next
    case (Some old)
    show ?thesis
    proof (cases "fst (?del w) = Inr ()")
      case True
      then have "created \<longleftrightarrow> 0 < depth" using Suc.prems Some by (auto intro!: exI [of _ 0])
      then show ?thesis
        using create_configmap_deleted [OF assms(1,2) Some True, of depth] by (auto simp: fun_upd_def simp del: create_configmap.simps)
    next
      case False
      then have same: "store (snd (?del w)) = store w" using configmap_serverD(3) [OF assms(1)] by simp
      have "created \<longleftrightarrow> (if store (snd (?del w)) (cm_namespace cm, n) = None then 0 < depth
          else \<exists>i. Suc i < depth \<and> fst (?del (deletions api (cm_namespace cm) n i (snd (?del w)))) = Inr ())"
        using Suc.prems Some deletions_later [OF False, of "depth - 1"]
        by (cases depth) (simp_all add: same)
      from Suc.IH [OF this] show ?thesis
        by (simp add: create_configmap_taken [OF assms(1,2) Some] same del: create_configmap.simps)
    qed
  qed
qed

section \<open>Repeated submissions and job sets\<close>

text \<open>
  The documented behaviour of the server for a deletion whose namespace is no name: no such
  resource exists, the call fails with another reason than a conflict and changes nothing.
\<close>

definition rejects_objects :: "'w kube_api \<Rightarrow> bool" where
  "rejects_objects api \<longleftrightarrow> (\<forall>n ob w. \<exists>r. r \<noteq> Some ''Conflict'' \<and>
     k_delete_job api n (Object ob) w = (Inl (ApiException r), w))"

text \<open>C31. A repeated submission of a plain job never creates a job. The deletion that comes first gets
  the job object where the namespace belongs and fails, so the answer is an error, and the
  tidying that follows deletes the config map just made and the job of the first submission.\<close>

theorem repeat_never_submits:
  assumes "rejects_objects api" and "kube_create_step W L d jid = Inr step"
    and "generate_batch_job L d step jid = Inr job"
    and "create_configmap api L depth d (setup_name step) (script step) w = (Inr (), w1)"
    and "property L d ''minicluster'' = Inr m" and "\<not> py_in m true_options"
    and "property L d ''jobset'' = Inr js" and "\<not> py_in js true_options"
  shows "kube_submit_job api L depth W d jid True w =
    (Inr (submission SubmitERROR (- 1)),
     snd (andthen (delete_configmap api d (setup_name step)) (delete_job api d (ob_name job)) w1))"
proof -
  obtain name where name: "kube_job_name d step = Inr name" "ob_name job = name"
    using assms(3) by (auto simp: generate_batch_job_def rbind_Inr_iff)
  obtain a where a: "py_get d ''workdir'' PNone = Inr a"
    using assms(2) by (auto simp: kube_create_step_def rbind_Inr_iff)
  then obtain kvs where d: "d = PDict kvs" by (cases d) auto
  obtain ns where ns: "kube_namespace d = Inr ns" by (simp add: kube_namespace_def d)
  obtain r where r: "r \<noteq> Some ''Conflict''"
      "k_delete_job api (Text ns) (Object job) w1 = (Inl (ApiException r), w1)"
    using assms(1) by (auto simp: rejects_objects_def) metis
  have "submit_kubernetes_job api L d step jid True w1 = (Inr (submission SubmitERROR (- 1)), w1)"
    by (simp add: submit_kubernetes_job_def assms(3) ns bind_def lift_def api_try_def api_then_def r refused_def ret_def)
  then have "kube_submit api L depth d step jid True w = (Inr (submission SubmitERROR (- 1)), w1)"
    by (simp add: kube_submit_def andthen_def bind_def lift_def assms(4-8))
  from kube_adapter.submit_job_answer [OF assms(2), of api depth True w]
    kube_adapter.submit_job_world [OF assms(2) this] this
  show ?thesis
    using tidied_world [OF assms(2) name(1)] by (simp add: kube_submit_job_def submission_def name(2) prod_eq_iff)
qed

lemma jobset_ports_missing:
  assumes "property L d ''ports'' = Inr v" and "\<not> truthy v"
  shows "jobset_ports L d = Inl ValueError"
proof -
  have "py_int (PStr []) = Inl ValueError" by (simp add: strip_def)
  then show ?thesis
    using assms
    by (auto simp: jobset_ports_def property_def py_or_def py_str_def rbind_Inr_iff)
qed

text \<open>A job marked as a job set without ports cannot be submitted: the missing setting is split into one
  empty port, whose conversion raises, after the config map has been created and without tidying
  it up.\<close>

theorem jobset_needs_ports:
  assumes "kube_create_step W L d jid = Inr step"
    and "create_configmap api L depth d (setup_name step) (script step) w = (Inr (), w1)"
    and "property L d ''minicluster'' = Inr m" and "\<not> py_in m true_options"
    and "property L d ''jobset'' = Inr js" and "py_in js true_options"
    and "property L d ''ports'' = Inr v" and "\<not> truthy v"
  shows "kube_submit_job api L depth W d jid again w = (Inl ValueError, w1)"
proof -
  have "submit_jobset api L d step jid again w1 = (Inl ValueError, w1)"
    by (simp add: submit_jobset_def generate_jobset_def jobset_ports_missing [OF assms(7,8)] bind_def lift_def)
  then show ?thesis
    by (simp add: kube_submit_job_def submit_job_def kube_submit_def andthen_def bind_def lift_def assms(1-6))
qed

section \<open>Labels\<close>

text \<open>The labels the pods of a job are made with, which the server gives to the job as well.\<close>

definition template_labels :: "kube_object \<Rightarrow> pyval res" where
  "template_labels ob =
     rbind (py_item (ob_spec ob) ''template'') (\<lambda>t. rbind (py_item t ''metadata'') (\<lambda>m. py_item m ''labels''))"

lemma batch_job_labels:
  "generate_batch_job L d step jid = Inr job \<Longrightarrow>
   \<exists>ls. pod_labels_of L d jid = Inr ls \<and> template_labels job = Inr (PDict ls)"
  by (auto simp: generate_batch_job_def rbind_Inr_iff template_labels_def dict_at_def)

text \<open>
  The job as the server keeps it has every label it was submitted with, and besides at most those that the
  server's controller adds to every job.
\<close>

definition controller_labels :: "string list" where
  "controller_labels = [''controller-uid'', ''job-name'', ''batch.kubernetes.io/controller-uid'', ''batch.kubernetes.io/job-name'']"

definition carries_labels :: "kube_object \<Rightarrow> kube_job \<Rightarrow> bool" where
  "carries_labels ob j \<longleftrightarrow> (\<exists>ls. template_labels ob = Inr (PDict ls) \<and>
     (\<forall>k. k \<notin> set controller_labels \<longrightarrow> map_option PStr (label_of j k) = dict_get ls k))"

lemma labels_read_back:
  assumes "generate_batch_job L d step (Some jid) = Inr job" and "carries_labels job j"
  shows "kube_jobid j = Some jid \<and> desc_name d = Inr (the (kube_step_name j)) \<and> kube_step_name j \<noteq> None \<and>
    desc_always_succeed (l_loads L) d = Inr (kube_always_succeed j)"
proof -
  obtain ls where ls: "pod_labels_of L d (Some jid) = Inr ls" "template_labels job = Inr (PDict ls)"
    using batch_job_labels [OF assms(1)] by auto
  obtain n always where n: "desc_name d = Inr n" "desc_always_succeed (l_loads L) d = Inr always"
    and l: "ls = [(''app'', PStr n), (operator_label, PStr jid)] @
      (if always then [(''always-succeed'', PStr ''1'')] else [])"
    using ls(1) by (auto simp only: pod_labels_of_def rbind_Inr_iff opt_str_def option.case sum.inject)
  have "map_option PStr (label_of j k) = dict_get ls k" if "k \<notin> set controller_labels" for k
    using assms(2) ls(2) that by (auto simp: carries_labels_def)
  from this [of operator_label] this [of "''app''"] this [of "''always-succeed''"]
  have "label_of j operator_label = Some jid" "label_of j ''app'' = Some n"
    "label_of j ''always-succeed'' = (if always then Some ''1'' else None)"
    by (auto simp: l operator_label_def controller_labels_def split: if_splits)
  then show ?thesis
    using n by (auto simp: kube_jobid_def kube_step_name_def operator_label_def
        kube_always_succeed_def py_in_def true_values_def)
qed

text \<open>C32. A job that carries the labels it was submitted with, whatever the server's controller adds to them,
  is read back as what it was submitted for: the manager finds the identifier of its sequence, its
  step and the mark of success.\<close>

theorem labels_roundtrip:
  assumes "generate_batch_job L d step (Some jid) = Inr job" and "carries_labels job j"
  shows "kube_jobid j = Some jid \<and> desc_name d = Inr (the (kube_step_name j)) \<and> kube_step_name j \<noteq> None \<and>
    desc_always_succeed (l_loads L) d = Inr (kube_always_succeed j)"
  using assms by (rule labels_read_back)

end
