(* ===== verification/Kube_Examples.thy ===== *)
theory Kube_Examples
  imports Kube_Tracker
begin

text \<open>
  The theorems on the Kubernetes tracker applied to a small cluster: a store of config maps and
  the list of job names, behaving as the server is documented to.
\<close>

type_synonym example_cluster = "(pyval \<times> string \<Rightarrow> config_map option) \<times> string list"

fun example_delete_job :: "job_arg \<Rightarrow> job_arg \<Rightarrow> (example_cluster, unit) api" where
  "example_delete_job (Text (PStr n)) (Text ns) (s, js) = (Inr (), s, filter (\<lambda>x. x \<noteq> n) js)"
| "example_delete_job _ _ w = (Inl (ApiException (Some ''Not Found'')), w)"

definition example_api :: "example_cluster kube_api" where
  "example_api = \<lparr>
     k_create_cm = (\<lambda>ns cm (s, js). case s (ns, cm_name cm) of
        None \<Rightarrow> (Inr (), s((ns, cm_name cm) \<mapsto> cm), js)
      | Some old \<Rightarrow> (Inl (ApiException (Some ''Conflict'')), s, js)),
     k_delete_cm = (\<lambda>ns n (s, js). (Inr (), s((ns, n) := None), js)),
     k_create_job = (\<lambda>ns ob (s, js). if ob_name ob \<in> set js
        then (Inl (ApiException (Some ''Conflict'')), s, js) else (Inr (), s, js @ [ob_name ob])),
     k_delete_job = example_delete_job,
     k_create_custom = (\<lambda>g v p ns ob (s, js). (Inr (), s, js @ [ob_name ob])),
     k_delete_custom = (\<lambda>g v p ns n (s, js). (Inr (), s, js)),
     k_list_pods = (\<lambda>sel ns w. (Inr [], w)),
     k_read_log = (\<lambda>n ns w. (Inr [], w)),
     k_exists = (\<lambda>p w. False),
     k_makedirs = (\<lambda>p. ret ()),
     k_write = (\<lambda>t p. ret ())\<rparr>"

definition example_lib :: kube_lib where
  "example_lib = \<lparr>l_loads = (\<lambda>s. Inl ValueError), l_dumps = (\<lambda>v. ''{}''), l_render = (\<lambda>t args. Inr t),
     l_repr = (\<lambda>v. [])\<rparr>"

definition example_desc :: "(string \<times> pyval) list \<Rightarrow> pyval" where
  "example_desc props = PDict [(''name'', PStr ''job_a''), (''config'', PDict [(''nnodes'', PInt 1)]),
     (''script'', PStr ''sleep 20''), (''image'', PStr ''rockylinux:9''), (''properties'', PDict props)]"

definition example_step :: job_setup where
  "example_step = \<lparr>setup_name = ''job-7'', setup_nodes = 1, cores_per_task = 1, script = PStr ''sleep 20'',
     tasks = PNone, walltime = PNone, gpus = 0, setup_workdir = PStr ''/tmp/out''\<rparr>"

lemma example_safe: "kube_safe (lower ''Job_7'') = ''job-7''"
  by code_simp

lemma example_created: "kube_create_step (example_loaded []) example_lib (example_desc ps) (Some ''Job_7'') = Inr example_step"
  by (simp add: kube_create_step_def example_desc_def example_lib_def example_step_def desc_name_def
      dict_at_def nnodes_def ncores_def ngpus_def desc_tasks_def config_entry_def desc_config_def
      step_script_def dict_in_def render_args_def tracker_pull_from_def tracker_push_to_def desc_registry_def
      tracker_registry_host_def tracker_plain_http_def registry_host_def registry_plain_http_def cfg_entry_def
      example_loaded_def example_safe default_workdir_def py_or_def)

lemma example_server: "configmap_server example_api fst"
  by (auto simp: configmap_server_def example_api_def split: option.splits)

lemma example_rejects: "rejects_objects example_api"
proof -
  have "example_delete_job n (Object ob) w = (Inl (ApiException (Some ''Not Found'')), w)" for n ob w
    by (cases "(n, Object ob, w)" rule: example_delete_job.cases) simp_all
  then show ?thesis by (auto simp: rejects_objects_def example_api_def)
qed

definition example_map :: config_map where
  "example_map = \<lparr>cm_name = ''job-7'', cm_namespace = PStr ''default'',
     cm_data = [(''entrypoint'', PStr ''sleep 20''), (''config'', PStr ''{}''), (''app-config'', PStr [])]\<rparr>"

lemma example_body:
  "configmap_body example_lib (example_desc ps) ''job-7'' (PStr ''sleep 20'') = Inr example_map"
  by (simp add: configmap_body_def example_desc_def example_lib_def example_map_def kube_namespace_def py_or_def)

definition old_map :: config_map where
  "old_map = example_map\<lparr>cm_data := []\<rparr>"

definition stale :: example_cluster where
  "stale = ([(PStr ''default'', ''job-7'') \<mapsto> old_map], [''job-a-job-7''])"

lemma example_config_created:
  "create_configmap example_api example_lib 2 (example_desc ps) (setup_name example_step) (script example_step) stale =
   (Inr (), [(PStr ''default'', ''job-7'') \<mapsto> example_map], [''job-a-job-7''])"
proof -
  have ns: "cm_namespace example_map = PStr ''default''" "cm_name example_map = ''job-7''"
    "kube_namespace (example_desc ps) = Inr (PStr ''default'')"
    by (simp_all add: example_map_def example_desc_def kube_namespace_def py_or_def)
  show ?thesis
    by (simp add: numeral_2_eq_2 example_step_def example_body bind_def lift_def api_try_def andthen_def
        delete_configmap_def ret_def ns stale_def example_api_def)
qed

definition example_object :: kube_object where
  "example_object = \<lparr>ob_api_version = ''batch/v1'', ob_kind = ''Job'', ob_name = ''job-a-job-7'',
     ob_namespace = None,
     ob_spec = PDict [(''parallelism'', PInt 1), (''completions'', PInt 1), (''suspend'', PBool False),
       (''template'', PDict [
          (''metadata'', PDict [(''labels'', PDict [(''app'', PStr ''job_a''), (''jobid'', PStr ''Job_7'')])]),
          (''spec'', PDict [
            (''containers'', PList [PDict [(''image'', PStr ''rockylinux:9''), (''name'', PStr ''step''),
               (''command'', PList [PStr ''/bin/bash'']), (''args'', PList [PStr ''/workdir/entrypoint.sh'']),
               (''image_pull_policy'', PStr ''IfNotPresent''), (''volume_mounts'', workdir_mount),
               (''env'', PList []),
               (''resources'', PDict [(''requests'', PDict [(''cpu'', PInt 1)]), (''limits'', PDict [(''cpu'', PInt 1)])]),
               (''working_dir'', PStr ''/tmp/out'')]]),
            (''restartPolicy'', PStr ''Never''), (''volumes'', job_volumes example_step), (''subdomain'', PStr ''r'')])]),
       (''backoff_limit'', PInt 0)]\<rparr>"

lemma example_command: "shlex_split default_command = Inr [''/bin/bash'', ''/workdir/entrypoint.sh'']"
  by code_simp

lemma example_job_command: "job_command (example_desc ps) = Inr [''/bin/bash'', ''/workdir/entrypoint.sh'']"
  using example_command
  by (simp add: job_command_def config_entry_def desc_config_def example_desc_def dict_at_def joined_command_def py_or_def)

lemma example_job_name: "kube_job_name (example_desc ps) example_step = Inr ''job-a-job-7''"
  by (simp add: kube_job_name_def desc_name_def example_desc_def dict_at_def example_step_def kube_safe_def
      replace_char_def)

lemma example_walltime: "step_walltime example_step = Inr (PInt 0)"
  by (simp add: step_walltime_def example_step_def py_or_def minutes_def to_double_def trunc_def)

lemma example_generated:
  "generate_batch_job example_lib (example_desc []) example_step (Some ''Job_7'') = Inr example_object"
proof -
  have res: "kube_resources (example_desc []) example_step =
      Inr (PDict [(''requests'', PDict [(''cpu'', PInt 1)]), (''limits'', PDict [(''cpu'', PInt 1)])])"
    by (simp add: kube_resources_def example_step_def Let_def)
  have labels: "pod_labels_of example_lib (example_desc []) (Some ''Job_7'') =
      Inr [(''app'', PStr ''job_a''), (''jobid'', PStr ''Job_7'')]"
    by (simp add: pod_labels_of_def desc_name_def example_desc_def dict_at_def desc_always_succeed_def
        desc_properties_def py_or_def py_in_def true_values_def operator_label_def opt_str_def)
  show ?thesis
    by (simp add: generate_batch_job_def example_job_name example_walltime res example_job_command labels)
      (simp add: batch_container_def example_desc_def dict_at_def config_entry_def desc_config_def
        extra_environment_def py_or_def node_selector_def desc_properties_def with_deadline_def backoff_limit_def
        py_in_def true_options_def example_object_def container_name_def example_step_def job_volumes_def)
qed

lemma example_plain:
  "property example_lib (example_desc []) ''minicluster'' = Inr PNone"
  "property example_lib (example_desc []) ''jobset'' = Inr PNone"
  "\<not> py_in PNone true_options"
  by (simp_all add: property_def desc_properties_def example_desc_def py_in_def true_options_def)

theorem command_words_witness:
  "job_command (PDict [(''config'', PDict [(''command'', PList (map PStr [''python'', ''train.py'', ''--epochs=3'']))])])
     = Inr [''python'', ''train.py'', ''--epochs=3'']"
  by (rule command_words)
    (simp_all add: config_entry_def desc_config_def dict_at_def plain_word_def lex_blank_def is_quote_def backslash_def)

theorem configmap_replaced_witness:
  "fst (snd (create_configmap example_api example_lib 900 (example_desc []) ''job-7'' (PStr ''sleep 20'') stale))
     (PStr ''default'', ''job-7'') = Some example_map"
proof -
  have "fst (k_delete_cm example_api ns n w) = Inr ()" for ns n w
    by (cases w) (simp add: example_api_def)
  moreover have "\<exists>i. Suc i < (900 :: nat)" by (rule exI [of _ 0]) simp
  ultimately show ?thesis
    using configmap_replaced [OF example_server example_body [of "[]"], of True stale 900]
    by (simp add: example_map_def)
qed

theorem repeat_never_submits_witness:
  "\<exists>s. kube_submit_job example_api example_lib 2 (example_loaded []) (example_desc []) (Some ''Job_7'') True stale =
     (Inr (submission SubmitERROR (- 1)), s, [])"
proof -
  from repeat_never_submits [OF example_rejects example_created example_generated example_config_created
      example_plain(1,3,2,3)]
  show ?thesis
    by (simp add: andthen_snd example_object_def)
      (simp add: delete_job_def delete_configmap_def kube_namespace_def example_desc_def py_or_def api_try_def
        example_api_def)
qed

theorem failed_submission_tidied_witness:
  "\<exists>s. kube_submit_job example_api example_lib 2 (example_loaded []) (example_desc []) (Some ''Job_7'') False stale =
     (Inr (submission SubmitCONFLICT (- 1)), s, [''job-a-job-7''])"
proof -
  have "kube_submit example_api example_lib 2 (example_desc []) example_step (Some ''Job_7'') False stale =
      (Inr (submission SubmitCONFLICT (- 1)), [(PStr ''default'', ''job-7'') \<mapsto> example_map], [''job-a-job-7''])"
    by (simp add: kube_submit_def andthen_def bind_def lift_def example_config_created example_plain
        submit_kubernetes_job_def example_generated)
      (simp add: kube_namespace_def example_desc_def api_try_def api_then_def api_skip_def example_api_def
        example_object_def refused_def bind_def lift_def ret_def)
  from failed_submission_tidied [OF example_created example_job_name this] show ?thesis
    by (simp add: submission_def)
qed

theorem jobset_needs_ports_witness:
  "fst (kube_submit_job example_api example_lib 2 (example_loaded []) (example_desc [(''jobset'', PBool True)])
     (Some ''Job_7'') False stale) = Inl ValueError"
  using jobset_needs_ports [OF example_created example_config_created, of
      "[(''jobset'', PBool True)]" PNone "PBool True" PNone False]
  by (simp add: property_def desc_properties_def example_desc_def py_in_def true_options_def py_eq_def)

text \<open>The job as it is listed, with two labels of the controller.\<close>

definition example_listed :: kube_job where
  "example_listed = example_kube_job ''job_a'' (Some 1) None None None\<lparr>kj_labels :=
     [(''app'', ''job_a''), (''jobid'', ''Job_7''), (''controller-uid'', ''9f1e''), (''job-name'', ''job-a-job-7'')]\<rparr>"

lemma example_carries: "carries_labels example_object example_listed"
  by (auto simp: carries_labels_def template_labels_def example_object_def dict_at_def example_listed_def
      label_of_def controller_labels_def)

theorem labels_roundtrip_witness: "kube_jobid example_listed = Some ''Job_7''"
  using labels_roundtrip [OF example_generated example_carries] by simp

end
