(* ===== verification/Kube_Manager.thy ===== *)
theory Kube_Manager
  imports Manager_Refinement Kube_Examples
begin

text \<open>
  The Kubernetes tracker as the manager's tracker: the module \<open>tracker/kubernetes\<close> provides the
  operations the machines and the manager call. The file shows what starting a sequence does in
  the cluster, down to the job objects, and when the manager gets to see it.
\<close>

section \<open>The tracker module\<close>

text \<open>
  \<open>import_script\<close> gives the log parser of a job's event script, \<open>object_of\<close> the job object behind
  what the manager was given, and \<open>list_jobs\<close> the jobs in the namespace the manager runs in. The
  parser is fixed when the tracker is made; it depends on entries of the description that never
  change.
\<close>

definition log_parser :: "(string \<Rightarrow> pyval \<Rightarrow> (string \<Rightarrow> pyval res) res) \<Rightarrow> pyval \<Rightarrow> (string \<Rightarrow> pyval res) option" where
  "log_parser import_script d = (case load_custom_events import_script d of Inr m \<Rightarrow> m | Inl _ \<Rightarrow> None)"

definition kube_ops ::
  "'w kube_api \<Rightarrow> kube_lib \<Rightarrow> nat \<Rightarrow> (string \<Rightarrow> pyval \<Rightarrow> (string \<Rightarrow> pyval res) res) \<Rightarrow> (wjob \<Rightarrow> kube_job) \<Rightarrow>
   ('w, kube_job list) api \<Rightarrow> 'w tracker_ops" where
  "kube_ops api L depth import_script object_of list_jobs =
     \<lparr>op_new = (\<lambda>W n. lift (rbind (kube_tracker import_script W n) (\<lambda>_. Inr ()))),
      op_submit = (\<lambda>W n. kube_submit_job api L depth W (get_job W n)),
      op_cleanup = (\<lambda>W n jid. ret ()),
      op_save_log = (\<lambda>W n j. kube_save_log api L (get_job W n) (log_parser import_script (get_job W n)) (Some (object_of j))),
      op_list = bind (api_call list_jobs) (\<lambda>js. ret (kube_list_by_status (Some ''app'') None js))\<rparr>"

section \<open>The jobs of the cluster\<close>

text \<open>
  The documented behaviour of the server for jobs: a job that is accepted carries the labels of
  its template, those of the server's controller apart, and has no counts and times yet; it appears among the jobs of its own namespace.
  A refused creation changes nothing, deletions only remove jobs, and config maps are no jobs.
  \<open>joblist w\<close> are the jobs in the namespace \<open>home\<close>.
\<close>

definition new_job :: "kube_object \<Rightarrow> kube_job \<Rightarrow> bool" where
  "new_job ob j \<longleftrightarrow> carries_labels ob j \<and>
     kj_name j = ob_name ob \<and> kj_active j = None \<and> kj_succeeded j = None \<and> kj_failed j = None \<and> kj_completion j = None"

definition job_server :: "'w kube_api \<Rightarrow> string \<Rightarrow> ('w \<Rightarrow> kube_job list) \<Rightarrow> bool" where
  "job_server api home joblist \<longleftrightarrow>
     (\<forall>ns ob w w'. k_create_job api ns ob w = (Inr (), w') \<longrightarrow>
        (if ns = PStr home then \<exists>j. joblist w' = joblist w @ [j] \<and> new_job ob j else joblist w' = joblist w)) \<and>
     (\<forall>ns ob w w' e. k_create_job api ns ob w = (Inl e, w') \<longrightarrow> joblist w' = joblist w) \<and>
     (\<forall>n ns w. set (joblist (snd (k_delete_job api n ns w))) \<subseteq> set (joblist w)) \<and>
     (\<forall>ns cm w. joblist (snd (k_create_cm api ns cm w)) = joblist w) \<and>
     (\<forall>ns n w. joblist (snd (k_delete_cm api ns n w)) = joblist w)"

lemma job_serverD:
  assumes "job_server api home joblist"
  shows "k_create_job api (PStr home) ob w = (Inr (), w') \<Longrightarrow> \<exists>j. joblist w' = joblist w @ [j] \<and> new_job ob j"
    and "k_create_job api ns ob w = (Inr (), w') \<Longrightarrow> ns \<noteq> PStr home \<Longrightarrow> joblist w' = joblist w"
    and "k_create_job api ns ob w = (Inl e, w') \<Longrightarrow> joblist w' = joblist w"
    and "set (joblist (snd (k_delete_job api n ns' w))) \<subseteq> set (joblist w)"
    and "joblist (snd (k_create_cm api ns cm w)) = joblist w"
    and "joblist (snd (k_delete_cm api ns k w)) = joblist w"
  using assms unfolding job_server_def by metis+

lemma delete_configmap_jobs:
  assumes "job_server api home joblist"
  shows "joblist (snd (delete_configmap api d n w)) = joblist w"
  using job_serverD(6) [OF assms]
  by (auto simp: delete_configmap_def api_try_def ret_def split: sum.splits prod.splits) (metis snd_conv)+

lemma delete_job_jobs:
  assumes "job_server api home joblist"
  shows "set (joblist (snd (delete_job api d n w))) \<subseteq> set (joblist w)"
proof (cases "kube_namespace d")
  case (Inr ns)
  have "snd (delete_job api d n w) = snd (k_delete_job api (Text (PStr n)) (Text ns) w)"
    by (simp add: delete_job_def Inr api_try_def ret_def split: prod.split sum.split)
  then show ?thesis using job_serverD(4) [OF assms] by simp
qed (simp add: delete_job_def ret_def)

lemma create_configmap_jobs:
  assumes "job_server api home joblist"
  shows "joblist (snd (create_configmap api L depth d n c w)) = joblist w"
proof (induction depth arbitrary: w)
  case (Suc depth)
  show ?case
  proof (cases "configmap_body L d n c")
    case (Inr cm)
    obtain r w1 where c: "k_create_cm api (cm_namespace cm) cm w = (r, w1)" by (metis prod.collapse)
    have w1: "joblist w1 = joblist w" using job_serverD(5) [OF assms, of "cm_namespace cm" cm w] by (simp add: c)
    have "joblist (snd (delete_configmap api d n w1)) = joblist w1" by (rule delete_configmap_jobs [OF assms])
    then show ?thesis
      using Suc.IH w1
      by (cases r) (auto simp: Inr c bind_def lift_def api_try_def throw_def andthen_snd split: sum.split)
  qed (simp add: bind_def lift_def)
qed (simp add: throw_def)

section \<open>Submitting a step\<close>

text \<open>A step that runs as a plain job, neither as a job set nor as a MiniCluster.\<close>

definition plain_step :: "kube_lib \<Rightarrow> pyval \<Rightarrow> bool" where
  "plain_step L d \<longleftrightarrow> (\<exists>m js. property L d ''minicluster'' = Inr m \<and> \<not> py_in m true_options \<and>
     property L d ''jobset'' = Inr js \<and> \<not> py_in js true_options)"

lemma submit_plain_jobs:
  assumes "job_server api home joblist"
    and "submit_kubernetes_job api L d step jid False w = (Inr rec, w')"
  shows "if status rec = SubmitOK \<and> kube_namespace d = Inr (PStr home)
    then \<exists>ob j. generate_batch_job L d step jid = Inr ob \<and> joblist w' = joblist w @ [j] \<and> new_job ob j
    else joblist w' = joblist w"
proof -
  obtain ob ns where ob: "generate_batch_job L d step jid = Inr ob" and ns: "kube_namespace d = Inr ns"
    using assms(2) by (auto simp: submit_kubernetes_job_def bind_Inr_iff lift_def)
  obtain r w1 where c: "k_create_job api ns ob w = (r, w1)" by (metis prod.collapse)
  show ?thesis
  proof (cases r)
    case (Inl e)
    then have "status rec \<noteq> SubmitOK" "w' = w1"
      using assms(2)
      by (auto simp: submit_kubernetes_job_def ob ns bind_def lift_def api_try_def api_then_def api_skip_def c
          refused_def submission_def ret_def split: sum.splits if_splits)
    then show ?thesis using job_serverD(3) [OF assms(1)] c Inl by auto
  next
    case (Inr u)
    then have "status rec = SubmitOK" "w' = w1"
      using assms(2)
      by (auto simp: submit_kubernetes_job_def ob ns bind_def lift_def api_try_def api_then_def api_skip_def c
          accepted_def submission_def)
    then show ?thesis
      using job_serverD(1,2) [OF assms(1)] c Inr by (auto simp: ob ns)
  qed
qed

lemma kube_submit_jobs:
  assumes "job_server api home joblist" and "plain_step L d"
    and "kube_submit api L depth d step jid False w = (Inr rec, w')"
  shows "if status rec = SubmitOK \<and> kube_namespace d = Inr (PStr home)
    then \<exists>ob j. generate_batch_job L d step jid = Inr ob \<and> joblist w' = joblist w @ [j] \<and> new_job ob j
    else joblist w' = joblist w"
proof -
  obtain w1 where c: "create_configmap api L depth d (setup_name step) (script step) w = (Inr (), w1)"
    and s: "submit_kubernetes_job api L d step jid False w1 = (Inr rec, w')"
    using assms(2,3)
    by (auto simp: kube_submit_def plain_step_def andthen_Inr_iff bind_Inr_iff lift_eval)
  have e: "joblist w1 = joblist w" using create_configmap_jobs [OF assms(1), of L depth d] c by (metis snd_conv)
  show ?thesis by (rule submit_plain_jobs [OF assms(1) s, unfolded e])
qed

lemma kube_submit_job_jobs:
  assumes "job_server api home joblist" and "plain_step L d"
    and "kube_submit_job api L depth W d jid False w = (Inr rec, w')"
  shows "if status rec = SubmitOK \<and> kube_namespace d = Inr (PStr home)
    then \<exists>step ob j. generate_batch_job L d step jid = Inr ob \<and> joblist w' = joblist w @ [j] \<and> new_job ob j
    else set (joblist w') \<subseteq> set (joblist w)"
proof -
  obtain step w1 where step: "kube_create_step W L d jid = Inr step"
    and sub: "kube_submit api L depth d step jid False w = (Inr rec, w1)"
    using assms(3) by (auto simp: kube_submit_job_def submit_job_def bind_Inr_iff lift_eval andthen_Inr_iff ret_eval)
  have w': "w' = (if status rec = SubmitERROR then snd (kube_cleanup api d (setup_name step) w1) else w1)"
    using kube_adapter.submit_job_world [OF step sub] assms(3) by (simp add: kube_submit_job_def)
  have "set (joblist (snd (kube_cleanup api d k w1))) \<subseteq> set (joblist w1)" for k
  proof (cases "desc_name d")
    case (Inl e)
    then show ?thesis
      using delete_configmap_jobs [OF assms(1)] by (simp add: kube_cleanup_def Let_def andthen_snd bind_def lift_def)
  next
    case (Inr n)
    show ?thesis
      unfolding kube_cleanup_eval [OF Inr] using delete_configmap_jobs [OF assms(1)]
      by (metis delete_job_jobs [OF assms(1)])
  qed
  then show ?thesis
    using kube_submit_jobs [OF assms(1,2) sub] w' by (auto split: if_splits)
qed

section \<open>Starting a sequence\<close>

lemma start_sequence_jobs:
  assumes "transition_choice (lib_pick (e_lib env))" and "good_steps ns" and "mgr_ok ns s"
    and "jobs_ok (jobs (wfl s))" and "e_ops env = kube_ops api L depth import_script object_of list_jobs"
    and "job_server api home joblist" and "\<And>J. keeps (\<lambda>w. joblist w = J) (e_draw env)"
    and "dict_get (jobs (wfl s)) (hd ns) = Some d" and "plain_step L d"
    and "start_sequence env s = (Inr (), s')"
  shows "\<exists>jid w rec. \<not> dict_in (Some jid) (trackers s) \<and>
    running_sequences s' = (running_sequences s)(Some jid \<mapsto> hd ns) \<and>
    joblist w = joblist (world s) \<and>
    kube_submit_job api L depth (wfl s) d (Some jid) False w = (Inr rec, world s') \<and>
    (if status rec = SubmitOK \<and> kube_namespace d = Inr (PStr home)
     then \<exists>j. joblist (world s') = joblist (world s) @ [j] \<and> kube_class j = Queued \<and>
       kube_jobid j = Some jid \<and> kube_step_name j = Some (hd ns)
     else set (joblist (world s')) \<subseteq> set (joblist (world s)))"
proof -
  have d: "get_job (wfl s) (hd ns) = d" using assms(8) by (simp add: get_job_def)
  have name: "desc_name d = Inr (hd ns)"
    using assms(4,8) by (simp add: jobs_ok_def job_named_def desc_name_def)
  obtain jid w rec where P: "\<forall>P. world_kept env P \<longrightarrow> P (world s) \<longrightarrow> P w"
    and fresh: "\<not> dict_in (Some jid) (trackers s)"
    and run: "running_sequences s' = (running_sequences s)(Some jid \<mapsto> hd ns)"
    and "op_submit (e_ops env) (wfl s) (hd ns) (Some jid) False w = (Inr rec, world s')"
    using start_sequence_running [OF assms(1-3,10)] by (elim exE conjE) (rule that; assumption)
  then have sub: "kube_submit_job api L depth (wfl s) d (Some jid) False w = (Inr rec, world s')"
    by (simp add: assms(5) kube_ops_def d)
  have "world_kept env (\<lambda>w. joblist w = joblist (world s))"
    using assms(7) by (simp add: world_kept_def assms(5) kube_ops_def keeps_lift)
  from P [rule_format, OF this] have w: "joblist w = joblist (world s)" by simp
  have view: "kube_class j = Queued \<and> kube_jobid j = Some jid \<and> kube_step_name j = Some (hd ns)"
    if "generate_batch_job L d step (Some jid) = Inr ob" "new_job ob j" for step ob j
    using labels_read_back [OF that(1), of j] that(2) name
    by (auto simp: new_job_def kube_class_def positive_def not_active_def)
  have "if status rec = SubmitOK \<and> kube_namespace d = Inr (PStr home)
     then \<exists>j. joblist (world s') = joblist (world s) @ [j] \<and> kube_class j = Queued \<and>
       kube_jobid j = Some jid \<and> kube_step_name j = Some (hd ns)
     else set (joblist (world s')) \<subseteq> set (joblist (world s))"
    using kube_submit_job_jobs [OF assms(6,9) sub, unfolded w] view by meson
  with fresh run w sub show ?thesis by blast
qed

text \<open>C19. A sequence that is started on Kubernetes, in a workflow whose first step runs as a plain job, neither as a
  job set nor as a MiniCluster, is tracked in the first step in any case. It has a job in
  the listing the manager reads exactly when the server accepted the job and the step runs in
  the namespace of the manager: then there is one new job, queued, that reads back with the
  identifier of the sequence and the first step. Otherwise there is none, the answer of the
  server is not looked at, and no event will ever move or end the sequence.\<close>

theorem kube_sequence_started:
  assumes "transition_choice (lib_pick (e_lib env))" and "good_steps ns" and "mgr_ok ns s"
    and "jobs_ok (jobs (wfl s))" and "e_ops env = kube_ops api L depth import_script object_of list_jobs"
    and "job_server api home joblist" and "\<And>J. keeps (\<lambda>w. joblist w = J) (e_draw env)"
    and "dict_get (jobs (wfl s)) (hd ns) = Some d" and "plain_step L d"
    and "start_sequence env s = (Inr (), s')"
  shows "\<exists>jid w rec. \<not> dict_in (Some jid) (trackers s) \<and>
    running_sequences s' = (running_sequences s)(Some jid \<mapsto> hd ns) \<and>
    joblist w = joblist (world s) \<and>
    kube_submit_job api L depth (wfl s) d (Some jid) False w = (Inr rec, world s') \<and>
    (if status rec = SubmitOK \<and> kube_namespace d = Inr (PStr home)
     then \<exists>j. joblist (world s') = joblist (world s) @ [j] \<and> kube_class j = Queued \<and>
       kube_jobid j = Some jid \<and> kube_step_name j = Some (hd ns)
     else set (joblist (world s')) \<subseteq> set (joblist (world s)))"
  by (rule start_sequence_jobs [OF assms])

section \<open>A cluster\<close>

text \<open>A namespace with its config maps and jobs; objects whose labels are no strings are invalid.\<close>

type_synonym job_cluster = "(pyval \<times> string \<Rightarrow> config_map option) \<times> kube_job list"

definition string_label :: "string \<times> pyval \<Rightarrow> (string \<times> string) res" where
  "string_label = (\<lambda>(k, v). rbind (string_of v) (\<lambda>s. Inr (k, s)))"

definition listed_job :: "kube_object \<Rightarrow> kube_job res" where
  "listed_job ob =
     rbind (template_labels ob) (\<lambda>ls. case ls of
        PDict kvs \<Rightarrow> rbind (rmap string_label kvs) (\<lambda>l.
          Inr \<lparr>kj_name = ob_name ob, kj_namespace = ''default'', kj_labels = l, kj_active = None,
            kj_succeeded = None, kj_failed = None, kj_start = None, kj_completion = None\<rparr>)
      | _ \<Rightarrow> Inl TypeError)"

definition add_listed :: "pyval \<Rightarrow> kube_object \<Rightarrow> (job_cluster, unit) api" where
  "add_listed ns ob = (\<lambda>(c, js). case listed_job ob of
      Inl e \<Rightarrow> (Inl (ApiException (Some ''Unprocessable Entity'')), c, js)
    | Inr j \<Rightarrow> (if ns \<noteq> PStr ''default'' then (Inr (), c, js)
        else if kj_name j \<in> kj_name ` set js then (Inl (ApiException (Some ''Conflict'')), c, js)
        else (Inr (), c, js @ [j])))"

definition cluster_api :: "job_cluster kube_api" where
  "cluster_api = \<lparr>
     k_create_cm = (\<lambda>ns cm (c, js). case c (ns, cm_name cm) of
        None \<Rightarrow> (Inr (), c((ns, cm_name cm) \<mapsto> cm), js)
      | Some old \<Rightarrow> (Inl (ApiException (Some ''Conflict'')), c, js)),
     k_delete_cm = (\<lambda>ns n (c, js). (Inr (), c((ns, n) := None), js)),
     k_create_job = add_listed,
     k_delete_job = (\<lambda>n ns (c, js). (Inr (), c, filter (\<lambda>j. n \<noteq> Text (PStr (kj_name j))) js)),
     k_create_custom = (\<lambda>g v p ns ob w. (Inr (), w)),
     k_delete_custom = (\<lambda>g v p ns n w. (Inr (), w)),
     k_list_pods = (\<lambda>sel ns w. (Inr [], w)),
     k_read_log = (\<lambda>n ns w. (Inr [], w)),
     k_exists = (\<lambda>p w. False),
     k_makedirs = (\<lambda>p. ret ()),
     k_write = (\<lambda>t p. ret ())\<rparr>"

lemma string_labels: "rmap string_label kvs = Inr l \<Longrightarrow> map (\<lambda>(k, v). (k, PStr v)) l = kvs"
proof (induction kvs arbitrary: l)
  case (Cons x kvs)
  obtain k v where x: "x = (k, v)" by (cases x)
  from Cons.prems obtain t ls where "string_of v = Inr t" "rmap string_label kvs = Inr ls" "l = (k, t) # ls"
    by (auto simp: rbind_Inr_iff string_label_def x)
  then show ?case using Cons.IH by (cases v) (auto simp: x)
qed simp

lemma listed_job_new: "listed_job ob = Inr j \<Longrightarrow> new_job ob j"
proof -
  assume "listed_job ob = Inr j"
  then obtain v where "template_labels ob = Inr v" "(case v of
        PDict kvs \<Rightarrow> rbind (rmap string_label kvs) (\<lambda>l.
          Inr \<lparr>kj_name = ob_name ob, kj_namespace = ''default'', kj_labels = l, kj_active = None,
            kj_succeeded = None, kj_failed = None, kj_start = None, kj_completion = None\<rparr>)
      | _ \<Rightarrow> Inl TypeError) = Inr j"
    by (auto simp: listed_job_def rbind_Inr_iff)
  then show ?thesis
    by (cases v) (auto simp: rbind_Inr_iff new_job_def carries_labels_def label_of_def map_of_map
        dest!: string_labels [THEN sym])
qed

lemma cluster_server: "job_server cluster_api ''default'' snd"
  by (auto simp: job_server_def cluster_api_def add_listed_def dest: listed_job_new
      split: sum.splits option.splits if_splits)

definition kube_env :: "job_cluster env" where
  "kube_env = \<lparr>e_lib = Machine_Examples.example_lib,
     e_ops = kube_ops cluster_api Kube_Examples.example_lib 2 (\<lambda>n v. Inl ValueError)
        (\<lambda>j. example_kube_job ''job_a'' None None None None) (\<lambda>(c, js). (Inr js, c, js)),
     e_stats = example_stats, e_clock = (\<lambda>w. (Inr 0, w)), e_draw = (\<lambda>w. (Inr (length (snd w)), w)), e_depth = 3,
     e_start_watcher = ret (), e_stop_watcher = ret (), e_save_watcher = (\<lambda>d. ret ()),
     e_write_times = (\<lambda>d ss ts. ret ()), e_cwd = ret ''/'', e_mkdtemp = ret ''/tmp/x''\<rparr>"

definition kube_mgr :: "job_cluster mgr" where
  "kube_mgr = \<lparr>wfl = example_loaded [(''completed'', PInt 3)], id_prefix = PStr ''job_'', trackers = [],
     heap = [], store = new_metrics, stamps = [], timings = [], world = (\<lambda>_. None, [])\<rparr>"

lemma kube_mgr_ok: "mgr_ok example_steps kube_mgr"
  using new_metrics_ok by (simp add: mgr_ok_def kube_mgr_def example_loaded_def dict_keys_def example_steps_def)

lemma kube_started: "fst (start_sequence kube_env kube_mgr) = Inr ()"
  by code_simp

theorem kube_sequence_started_witness:
  "\<exists>s' jid. start_sequence kube_env kube_mgr = (Inr (), s') \<and>
     running_sequences s' = [Some jid \<mapsto> ''job_a'']"
proof -
  obtain s' where s': "start_sequence kube_env kube_mgr = (Inr (), s')"
    using kube_started by (metis prod.collapse)
  have p: "transition_choice (lib_pick (e_lib kube_env))" by (simp add: kube_env_def example_pick)
  have j: "jobs_ok (jobs (wfl kube_mgr))"
    by (auto simp: kube_mgr_def jobs_ok_def example_loaded_def job_named_def dict_at_def dict_keys_def split: if_splits)
  have o: "e_ops kube_env = kube_ops cluster_api Kube_Examples.example_lib 2 (\<lambda>n v. Inl ValueError)
        (\<lambda>j. example_kube_job ''job_a'' None None None None) (\<lambda>(c, js). (Inr js, c, js))"
    by (simp add: kube_env_def)
  have k: "keeps (\<lambda>w. snd w = J) (e_draw kube_env)" for J by (rule keepsI) (simp add: kube_env_def)
  obtain d where d: "dict_get (jobs (wfl kube_mgr)) (hd example_steps) = Some d" "plain_step Kube_Examples.example_lib d"
    by (simp add: kube_mgr_def example_loaded_def example_steps_def plain_step_def property_def desc_properties_def
        py_in_def true_options_def)
  from kube_sequence_started [OF p example_good kube_mgr_ok j o cluster_server k d s'] obtain jid where
    "running_sequences s' = (running_sequences kube_mgr)(Some jid \<mapsto> hd example_steps)" by blast
  moreover have "running_sequences kube_mgr = Map.empty" by (rule ext) (simp add: running_sequences_def kube_mgr_def)
  ultimately show ?thesis using s' by (auto simp: example_steps_def)
qed

end
