(* ===== verification/Kube_Capacity.thy ===== *)
theory Kube_Capacity
  imports Kube_Manager
begin

text \<open>
  The manager and the cluster together: what \<open>new_jobs\<close> does to the sequences that the cluster
  reports as active. The number of sequences to start is computed from a listing, each start
  submits a job, and the next listing counts what was submitted; the file shows that the manager
  does not start more than the cluster has room for.
\<close>

section \<open>Readings of the cluster\<close>

definition reading :: "pyval \<Rightarrow> kube_job list \<Rightarrow> current_state" where
  "reading l js = sort_state l (kube_list_by_status (Some ''app'') None js)"

lemma kube_listing_sets:
  "set (success (kube_list_by_status (Some ''app'') None js)) = kube_view ` {j \<in> set js. kube_class j = Success}"
  "set (failed (kube_list_by_status (Some ''app'') None js)) = kube_view ` {j \<in> set js. kube_class j = Failed}"
  "set (running (kube_list_by_status (Some ''app'') None js)) = kube_view ` {j \<in> set js. kube_class j = Running}"
  "set (queued (kube_list_by_status (Some ''app'') None js)) = kube_view ` {j \<in> set js. kube_class j = Queued}"
  by (simp_all add: kube_list_by_status_def with_label_def sort_jobs_fields)

lemma reading_finite: "finite (active_ids (reading l js))" "finite (completed_ids (reading l js))"
  by (simp_all add: reading_def sort_state_def ids_where_def Let_def)

lemma kube_view_jobid [simp]: "jobid (kube_view j) = kube_jobid j"
  by (simp add: kube_view_def)

lemma reading_active:
  "k \<in> active_ids (reading l js) \<longleftrightarrow> k \<notin> failed_ids (reading l js) \<and> k \<notin> completed_ids (reading l js) \<and>
     ((\<exists>j \<in> set js. kube_class j \<in> {Queued, Running} \<and> str_truthy (kube_jobid j) \<and> kube_jobid j = k) \<or>
      (\<exists>j \<in> set js. kube_class j = Success \<and> \<not> in_step (kube_view j) l \<and> kube_jobid j = k))"
  unfolding reading_def sort_state_mem(3) set_append kube_listing_sets bex_Un bex_simps(7) kube_view_jobid by blast

text \<open>Jobs that wait, added to those of a reading, add at most their own identifiers.\<close>

lemma reading_grows:
  assumes "set js \<subseteq> set js'" and "set js' \<subseteq> set js \<union> N" and "\<forall>j \<in> N. kube_class j = Queued"
  shows "completed_ids (reading l js') = completed_ids (reading l js)"
    and "active_ids (reading l js') \<subseteq> active_ids (reading l js) \<union> kube_jobid ` N"
proof -
  have same: "{j \<in> set js'. kube_class j = c} = {j \<in> set js. kube_class j = c}" if "c \<noteq> Queued" for c
    using assms that by auto
  have f: "failed_ids (reading l js') = failed_ids (reading l js)"
    unfolding reading_def set_eq_iff sort_state_mem(1) kube_listing_sets by (simp add: same)
  then show c: "completed_ids (reading l js') = completed_ids (reading l js)"
    unfolding reading_def set_eq_iff sort_state_mem(2) kube_listing_sets by (simp add: same)
  show "active_ids (reading l js') \<subseteq> active_ids (reading l js) \<union> kube_jobid ` N"
  proof
    fix k
    assume "k \<in> active_ids (reading l js')"
    then have k: "k \<notin> failed_ids (reading l js)" "k \<notin> completed_ids (reading l js)"
      and h: "(\<exists>j \<in> set js'. kube_class j \<in> {Queued, Running} \<and> str_truthy (kube_jobid j) \<and> kube_jobid j = k) \<or>
        (\<exists>j \<in> set js'. kube_class j = Success \<and> \<not> in_step (kube_view j) l \<and> kube_jobid j = k)"
      unfolding reading_active f c by blast+
    show "k \<in> active_ids (reading l js) \<union> kube_jobid ` N"
    proof (cases "k \<in> kube_jobid ` N")
      case False
      with h k assms(2) show ?thesis unfolding Un_iff reading_active by blast
    qed simp
  qed
qed

section \<open>Starting several sequences\<close>

text \<open>What the theorem needs of a manager on Kubernetes; \<open>d\<close> is the description of the first step.\<close>

definition on_cluster ::
  "'w kube_api \<Rightarrow> kube_lib \<Rightarrow> string \<Rightarrow> ('w \<Rightarrow> kube_job list) \<Rightarrow> 'w env \<Rightarrow> bool" where
  "on_cluster api L home joblist env \<longleftrightarrow>
     transition_choice (lib_pick (e_lib env)) \<and> job_server api home joblist \<and>
     (\<forall>J. keeps (\<lambda>w. joblist w = J) (e_draw env)) \<and> (\<forall>J. keeps (\<lambda>w. joblist w = J) (e_clock env)) \<and>
     (\<exists>depth import_script object_of list_jobs.
        e_ops env = kube_ops api L depth import_script object_of list_jobs \<and>
        (\<forall>w. \<exists>w'. list_jobs w = (Inr (joblist w), w') \<and> joblist w' = joblist w))"

lemma start_sequence_kube:
  assumes "on_cluster api L home joblist env" and "good_steps ns" and "mgr_ok ns s" and "jobs_ok (jobs (wfl s))"
    and "dict_get (jobs (wfl s)) (hd ns) = Some d" and "plain_step L d" and "start_sequence env s = (Inr (), s')"
  shows "mgr_ok ns s' \<and> wfl s' = wfl s \<and> (\<exists>N. finite N \<and> card N \<le> 1 \<and> (\<forall>j \<in> N. kube_class j = Queued) \<and>
    set (joblist (world s')) \<subseteq> set (joblist (world s)) \<union> N)"
proof -
  obtain depth import_script object_of list_jobs where
    e: "transition_choice (lib_pick (e_lib env))" "e_ops env = kube_ops api L depth import_script object_of list_jobs"
      "job_server api home joblist" "\<And>J. keeps (\<lambda>w. joblist w = J) (e_draw env)"
    using assms(1) unfolding on_cluster_def by blast
  from start_sequence_jobs [OF e(1) assms(2-4) e(2-4) assms(5-7)]
  have "(\<exists>j. joblist (world s') = joblist (world s) @ [j] \<and> kube_class j = Queued) \<or>
      set (joblist (world s')) \<subseteq> set (joblist (world s))"
    by (elim exE conjE) (simp split: if_splits; blast)
  then have "\<exists>N. finite N \<and> card N \<le> 1 \<and> (\<forall>j \<in> N. kube_class j = Queued) \<and>
      set (joblist (world s')) \<subseteq> set (joblist (world s)) \<union> N"
  proof (elim disjE exE conjE)
    fix j
    assume "joblist (world s') = joblist (world s) @ [j]" "kube_class j = Queued"
    then show ?thesis by (intro exI [of _ "{j}"]) auto
  next
    assume "set (joblist (world s')) \<subseteq> set (joblist (world s))"
    then show ?thesis by (intro exI [of _ "{}"]) auto
  qed
  moreover have "wfl s' = wfl s"
  proof -
    have "dict_keys (jobs (wfl s)) = ns" using assms(3) by (simp add: mgr_ok_def)
    then show ?thesis using sequence_started [OF e(1) _ assms(7)] assms(2) by fastforce
  qed
  moreover have "mgr_ok ns s'" using keepsD [OF start_sequence_ok [OF e(1) assms(2)] assms(3,7)] .
  ultimately show ?thesis by blast
qed

lemma start_sequences_kube:
  assumes "on_cluster api L home joblist env" and "good_steps ns" and "mgr_ok ns s" and "jobs_ok (jobs (wfl s))"
    and "dict_get (jobs (wfl s)) (hd ns) = Some d" and "plain_step L d"
    and "for_each xs (\<lambda>_. start_sequence env) s = (Inr (), s')"
  shows "\<exists>N. finite N \<and> card N \<le> length xs \<and> (\<forall>j \<in> N. kube_class j = Queued) \<and>
    set (joblist (world s')) \<subseteq> set (joblist (world s)) \<union> N"
  using assms(3-5,7)
proof (induction xs arbitrary: s)
  case Nil
  then show ?case by (intro exI [of _ "{}"]) (simp add: ret_def)
next
  case (Cons x xs)
  then obtain s1 where s1: "start_sequence env s = (Inr (), s1)" "for_each xs (\<lambda>_. start_sequence env) s1 = (Inr (), s')"
    by (auto split: prod.splits sum.splits)
  from start_sequence_kube [OF assms(1,2) Cons.prems(1-3) assms(6) s1(1)] obtain N where
    m: "mgr_ok ns s1" "wfl s1 = wfl s" and N: "finite N" "card N \<le> 1" "\<forall>j \<in> N. kube_class j = Queued"
    "set (joblist (world s1)) \<subseteq> set (joblist (world s)) \<union> N" by blast
  from Cons.IH [OF m(1) _ _ s1(2)] Cons.prems(2,3) m(2) obtain M where
    M: "finite M" "card M \<le> length xs" "\<forall>j \<in> M. kube_class j = Queued"
    "set (joblist (world s')) \<subseteq> set (joblist (world s1)) \<union> M" by auto
  have "card (N \<union> M) \<le> length (x # xs)" using card_Un_le [of N M] N(2) M(2) by simp
  then show ?case using N M by (intro exI [of _ "N \<union> M"]) auto
qed

section \<open>New sequences\<close>

lemma kube_reading:
  assumes "on_cluster api L home joblist env" and "get_current_state env s = (Inr cs, s')"
  shows "\<exists>l. last_step (wfl s) = Inr l \<and> cs = reading l (joblist (world s))" and "joblist (world s') = joblist (world s)"
proof -
  obtain depth import_script object_of list_jobs where
    o: "e_ops env = kube_ops api L depth import_script object_of list_jobs"
    and ls: "\<And>w. \<exists>w'. list_jobs w = (Inr (joblist w), w') \<and> joblist w' = joblist w"
    and ck: "\<And>J. keeps (\<lambda>w. joblist w = J) (e_clock env)"
    using assms(1) unfolding on_cluster_def by blast
  have op: "\<exists>w'. op_list (e_ops env) w = (Inr (kube_list_by_status (Some ''app'') None (joblist w)), w') \<and> joblist w' = joblist w" for w
    using ls [of w] by (auto simp: o kube_ops_def bind_def api_call_def api_try_def ret_def)
  obtain js s1 where js: "list_jobs_by_status env s = (Inr js, s1)" and s': "s' = s1"
    and l: "\<exists>l. last_step (wfl s1) = Inr l \<and> cs = sort_state l js"
    using assms(2) by (auto simp: get_current_state_def bind_Inr_iff lift_eval reads_def ret_eval)
  obtain t0 w0 where c0: "e_clock env (world s) = (Inr t0, w0)"
    using js by (auto simp: list_jobs_by_status_def timed_def bind_Inr_iff in_world_def split: prod.splits)
  obtain w1 where w1: "op_list (e_ops env) w0 = (Inr (kube_list_by_status (Some ''app'') None (joblist w0)), w1)"
    "joblist w1 = joblist w0" using op by blast
  obtain r w2 where c1: "e_clock env w1 = (r, w2)" by (cases "e_clock env w1")
  have j0: "joblist w0 = joblist (world s)" "joblist w2 = joblist w1"
    using keepsD [OF ck refl c0] keepsD [OF ck refl c1] by simp_all
  have "js = kube_list_by_status (Some ''app'') None (joblist w0) \<and> world s1 = w2"
    using js c0 w1(1) c1
    by (cases r) (auto simp: list_jobs_by_status_def timed_def bind_def in_world_def modify_def ret_def)
  moreover have "wfl s1 = wfl s" using list_jobs_frame [OF js] by simp
  ultimately show "\<exists>l. last_step (wfl s) = Inr l \<and> cs = reading l (joblist (world s))"
    and "joblist (world s') = joblist (world s)"
    using l j0 w1(2) by (auto simp: reading_def s')
qed

text \<open>C9. The cluster is never overcommitted: when \<open>new_jobs\<close> returns and no job of the namespace was deleted
  meanwhile, the sequences that the next reading of the cluster counts as active fit into the
  cluster at the size of the first step, or are no more than were active before. The completed ones
  are the same, and together with the active ones they are no more than the completions needed, or
  than before. Not one of the jobs submitted has to be accepted by the server for that.\<close>

theorem cluster_not_overcommitted:
  assumes "on_cluster api L home joblist env" and "good_steps ns" and "mgr_ok ns s" and "jobs_ok (jobs (wfl s))"
    and "dict_get (jobs (wfl s)) (hd ns) = Some d" and "plain_step L d" and "last_step (wfl s) = Inr l"
    and "sized (wfl s) nodes need cap" and "0 \<le> cap" "cap < 2 ^ 53" "0 < nodes" "nodes < 2 ^ 53"
    and "new_jobs env s = (Inr (), s')" and "set (joblist (world s)) \<subseteq> set (joblist (world s'))"
  shows "let before = reading l (joblist (world s)); after = reading l (joblist (world s')) in
    (int (card (active_ids after)) * nodes \<le> cap \<or> card (active_ids after) \<le> card (active_ids before)) \<and>
    completed_ids after = completed_ids before \<and>
    (int (card (completed_ids after) + card (active_ids after)) \<le> need \<or>
      card (active_ids after) \<le> card (active_ids before))"
proof -
  let ?b = "reading l (joblist (world s))" and ?a = "reading l (joblist (world s'))"
  obtain cs s1 n where g: "get_current_state env s = (Inr cs, s1)"
    and p: "plan_jobs (wfl s1) (card (completed_ids cs)) (card (active_ids cs)) = Inr n"
    and loop: "for_each [0..<n] (\<lambda>_. start_sequence env) s1 = (Inr (), s')"
    using assms(13) by (auto simp: new_jobs_def bind_Inr_iff lift_eval reads_def)
  have cs: "cs = ?b" using kube_reading(1) [OF assms(1) g] assms(7) by auto
  have W: "wfl s1 = wfl s" using get_current_state_sorts [OF g] by blast
  have J: "joblist (world s1) = joblist (world s)" by (rule kube_reading(2) [OF assms(1) g])
  have "keeps (mgr_ok ns) (get_current_state env)"
    unfolding mgr_ok_inv [of ns "\<lambda>_ _. True"] by (rule inv.get_current_state_frame)
  then have ok: "mgr_ok ns s1" using assms(3) g by (rule keepsD)
  obtain N where N: "finite N" "card N \<le> n" "\<forall>j \<in> N. kube_class j = Queued"
    "set (joblist (world s')) \<subseteq> set (joblist (world s)) \<union> N"
    using start_sequences_kube [OF assms(1,2) ok _ _ assms(6) loop] assms(4,5) by (auto simp: W J)
  note grows = reading_grows [OF assms(14) N(4,3), of l]
  have "card (active_ids ?a) \<le> card (active_ids ?b \<union> kube_jobid ` N)"
    by (rule card_mono) (use grows(2) N(1) reading_finite in auto)
  also have "\<dots> \<le> card (active_ids ?b) + card (kube_jobid ` N)" by (rule card_Un_le)
  also have "\<dots> \<le> card (active_ids ?b) + n" using card_image_le [OF N(1), of kube_jobid] N(2) by simp
  finally have le: "card (active_ids ?a) \<le> card (active_ids ?b) + n" .
  have "\<exists>n'. plan_jobs (wfl s) (card (completed_ids ?b)) (card (active_ids ?b)) = Inr n' \<and>
      (0 < n' \<longrightarrow> (int (card (active_ids ?b)) + int n') * nodes \<le> cap \<and>
        int (card (completed_ids ?b)) + int (card (active_ids ?b)) + int n' \<le> need)"
    using plan_fits [OF assms(8-12)] by blast
  then have fit: "0 < n \<longrightarrow> (int (card (active_ids ?b)) + int n) * nodes \<le> cap \<and>
      int (card (completed_ids ?b)) + int (card (active_ids ?b)) + int n \<le> need"
    using p by (auto simp: cs W)
  have "int (card (active_ids ?a)) * nodes \<le> (int (card (active_ids ?b)) + int n) * nodes"
    using le assms(11) by (intro mult_right_mono) auto
  then show ?thesis
    using fit le grows(1) by (cases "n = 0") (auto simp: Let_def)
qed

section \<open>The example cluster\<close>

lemma kube_env_cluster: "on_cluster cluster_api Kube_Examples.example_lib ''default'' snd kube_env"
proof -
  have "keeps (\<lambda>w. snd w = J) (e_draw kube_env)" "keeps (\<lambda>w. snd w = J) (e_clock kube_env)" for J
    by (rule keepsI, simp add: kube_env_def)+
  moreover have "\<forall>w. \<exists>w'. (\<lambda>(c, js). (Inr js, c, js)) w = (Inr (snd w) :: api_error + kube_job list, w') \<and> snd w' = snd w"
    by auto
  moreover have "e_ops kube_env = kube_ops cluster_api Kube_Examples.example_lib 2 (\<lambda>n v. Inl ValueError)
        (\<lambda>j. example_kube_job ''job_a'' None None None None) (\<lambda>(c, js). (Inr js, c, js))"
    by (simp add: kube_env_def)
  moreover have "transition_choice (lib_pick (e_lib kube_env))" by (simp add: kube_env_def example_pick)
  ultimately show ?thesis using cluster_server unfolding on_cluster_def by blast
qed

lemma kube_filled: "fst (new_jobs kube_env kube_mgr) = Inr ()"
  by code_simp

theorem cluster_not_overcommitted_witness:
  "\<exists>s'. new_jobs kube_env kube_mgr = (Inr (), s') \<and>
     card (active_ids (reading (PStr ''job_b'') (snd (world s')))) \<le> 4"
proof -
  obtain s' where s': "new_jobs kube_env kube_mgr = (Inr (), s')" using kube_filled by (metis prod.collapse)
  have W: "wfl kube_mgr = wfl example_mgr" by (simp add: kube_mgr_def example_mgr_def)
  have j: "jobs_ok (jobs (wfl kube_mgr))"
    by (auto simp: kube_mgr_def jobs_ok_def example_loaded_def job_named_def dict_at_def dict_keys_def split: if_splits)
  obtain d where d: "dict_get (jobs (wfl kube_mgr)) (hd example_steps) = Some d" "plain_step Kube_Examples.example_lib d"
    by (simp add: kube_mgr_def example_loaded_def example_steps_def plain_step_def property_def desc_properties_def
        py_in_def true_options_def)
  have "joblist = []" if "joblist = snd (world kube_mgr)" for joblist using that by (simp add: kube_mgr_def)
  then have "set (snd (world kube_mgr)) \<subseteq> set (snd (world s'))" "active_ids (reading (PStr ''job_b'') (snd (world kube_mgr))) = {}"
    by (simp_all add: kube_mgr_def reading_active set_eq_iff)
  with cluster_not_overcommitted [OF kube_env_cluster example_good kube_mgr_ok j d, of "PStr ''job_b''" 1 3 4 s']
    example_last example_sized s' show ?thesis
    by (auto simp: W Let_def)
qed

end
