(* ===== verification/Flux_Jobs.thy ===== *)
theory Flux_Jobs
  imports Tracker_Interface
begin

text \<open>
  Jobs in Flux: \<open>tracker/flux/job.py\<close>, \<open>tracker/flux/state.py\<close> and the event stream of
  \<open>tracker/flux/event.py\<close>. The Flux library is not part of the repository: the dictionary it
  keeps for a job (\<open>info_of\<close>, the dictionary \<open>get_job\<close> gives), the key-value entries of a job and the job ids it lists are
  arguments. The file shows which entries of that dictionary decide how a job is listed and how
  its event counts.
\<close>

section \<open>Job objects\<close>

text \<open>
  What the constructor of \<open>FluxJob\<close> is given: a mapping (\<open>fr_items\<close>, a listed job) or an
  event object with attributes (\<open>fr_attrs\<close>); one of them is empty.
\<close>

record flux_raw =
  fr_items :: "(string, pyval) dict"
  fr_attrs :: "(string, pyval) dict"

definition attr :: "flux_raw \<Rightarrow> string \<Rightarrow> pyval res" where
  "attr r k = (case dict_get (fr_attrs r) k of None \<Rightarrow> Inl AttributeError | Some v \<Rightarrow> Inr v)"

record flux_job =
  fj_jobspec :: pyval
  fj_fluxid :: pyval

text \<open>\<open>job_kvs id\<close>: the key-value entries of a job.\<close>

definition flux_job_init :: "(pyval \<Rightarrow> pyval res) \<Rightarrow> flux_raw \<Rightarrow> flux_job res" where
  "flux_job_init job_kvs r =
     (if dict_in ''kvs'' (fr_items r) then
        rbind (rbind (dict_at (fr_items r) ''kvs'') (\<lambda>k. py_item k ''jobspec'')) (\<lambda>spec.
        rbind (dict_at (fr_items r) ''id'') (\<lambda>i.
        Inr \<lparr>fj_jobspec = spec, fj_fluxid = i\<rparr>))
      else if dict_in ''jobspec'' (fr_attrs r) \<and> dict_get (fr_attrs r) ''jobspec'' \<noteq> Some PNone then
        rbind (attr r ''jobspec'') (\<lambda>spec.
        rbind (attr r ''jobid'') (\<lambda>i.
        Inr \<lparr>fj_jobspec = spec, fj_fluxid = i\<rparr>))
      else
        rbind (attr r ''jobid'') (\<lambda>i.
        rbind (job_kvs i) (\<lambda>kvs.
        rbind (py_get kvs ''jobspec'' PNone) (\<lambda>spec.
        Inr \<lparr>fj_jobspec = spec, fj_fluxid = i\<rparr>))))"

definition user_entry :: "flux_job \<Rightarrow> string \<Rightarrow> pyval res" where
  "user_entry j k =
     rbind (py_item (fj_jobspec j) ''attributes'') (\<lambda>a.
     rbind (py_item a ''user'') (\<lambda>u. py_get u k PNone))"

definition flux_jobid :: "flux_job \<Rightarrow> pyval res" where
  "flux_jobid j = user_entry j ''jobname''"

definition flux_step_name :: "flux_job \<Rightarrow> pyval res" where
  "flux_step_name j = user_entry j ''app''"

text \<open>
  The state of a job is read anew for every question; \<open>st\<close> is the dictionary one such read
  gives. \<open>is_failed\<close> and \<open>is_succeeded\<close> name the method \<open>is_completed\<close> without calling it;
  a method is true, so only the return code is looked at.
\<close>

definition flux_is_active :: "pyval \<Rightarrow> bool res" where
  "flux_is_active st = rbind (py_item st ''state'') (\<lambda>s. Inr (\<not> py_eq s (PStr ''INACTIVE'')))"

definition flux_is_completed :: "pyval \<Rightarrow> bool res" where
  "flux_is_completed st =
     rbind (py_item st ''status'') (\<lambda>s. Inr (py_in s [PStr ''COMPLETED'', PStr ''FAILED'']))"

definition flux_is_failed :: "pyval \<Rightarrow> bool res" where
  "flux_is_failed st = rbind (py_item st ''returncode'') (\<lambda>c. Inr (\<not> py_eq c (PInt 0)))"

definition flux_is_succeeded :: "pyval \<Rightarrow> bool res" where
  "flux_is_succeeded st = rbind (py_item st ''returncode'') (\<lambda>c. Inr (py_eq c (PInt 0)))"

text \<open>A job object while its state does not change, as the manager reads it.\<close>

definition opt_string :: "pyval \<Rightarrow> string option res" where
  "opt_string v = (case v of PNone \<Rightarrow> Inr None | PStr s \<Rightarrow> Inr (Some s) | _ \<Rightarrow> Inl TypeError)"

definition flux_view :: "flux_job \<Rightarrow> pyval \<Rightarrow> wjob res" where
  "flux_view j st =
     rbind (rbind (flux_jobid j) opt_string) (\<lambda>i.
     rbind (rbind (flux_step_name j) opt_string) (\<lambda>n.
     rbind (flux_is_active st) (\<lambda>act.
     rbind (flux_is_completed st) (\<lambda>done.
     rbind (flux_is_failed st) (\<lambda>bad.
     rbind (flux_is_succeeded st) (\<lambda>good.
     Inr \<lparr>jobid = i, step_name = n, always_succeed = base_always_succeed, is_active = act,
          is_completed = done, job_failed = bad, job_succeeded = good,
          duration = base_duration\<rparr>))))))"

section \<open>Listing jobs (tracker/flux/state.py)\<close>

text \<open>
  The first loop collects the information of every listed id; an id that cannot be read is
  dropped. Ids are numbers.
\<close>

definition with_default :: "string \<Rightarrow> pyval \<Rightarrow> pyval res" where
  "with_default k info =
     rbind (py_contains info k) (\<lambda>has. if has then Inr info else py_setitem info k (PStr []))"

text \<open>\<open>fi\<close> are the ids found so far, in order, and the information by id.\<close>

record found_infos =
  found_ids :: "pyval list"
  found :: "(pyval, pyval) dict"

definition job_info :: "(pyval \<Rightarrow> pyval res) \<Rightarrow> pyval \<Rightarrow> (found_infos, unit) act" where
  "job_info info_of job =
     bind (lift (rbind (py_item job ''id'') info_of)) (\<lambda>info.
     bind (lift (py_item info ''id'')) (\<lambda>fid.
     andthen (modify (\<lambda>fi. fi\<lparr>found_ids := found_ids fi @ [fid]\<rparr>))
       (bind (lift (rbind (with_default ''ranks'' info) (with_default ''expiration''))) (\<lambda>info'.
        modify (\<lambda>fi. fi\<lparr>found := dict_set fid info' (found fi)\<rparr>)))))"

definition collect_infos :: "(pyval \<Rightarrow> pyval res) \<Rightarrow> pyval list \<Rightarrow> (found_infos, unit) act" where
  "collect_infos info_of ids = for_each ids (\<lambda>job. attempt (job_info info_of job) (\<lambda>_. ret ()))"

text \<open>The second loop adds the key-value entries to the jobs that are still known.\<close>

fun attach_kvs :: "pyval list \<Rightarrow> (pyval, pyval) dict \<Rightarrow> (pyval, pyval) dict res" where
  "attach_kvs [] acc = Inr acc"
| "attach_kvs (job # rest) acc =
     rbind (py_item job ''id'') (\<lambda>i.
       case dict_get acc i of
         None \<Rightarrow> attach_kvs rest acc
       | Some info \<Rightarrow> rbind (py_setitem info ''kvs'' job) (\<lambda>info'. attach_kvs rest (dict_set i info' acc)))"

definition flux_list_jobs ::
  "(pyval \<Rightarrow> pyval res) \<Rightarrow> (pyval list \<Rightarrow> pyval list) \<Rightarrow> pyval list \<Rightarrow> pyval list res" where
  "flux_list_jobs info_of kvs_data ids =
     (case collect_infos info_of ids \<lparr>found_ids = [], found = []\<rparr> of
        (Inl e, fi) \<Rightarrow> Inl e
      | (Inr _, fi) \<Rightarrow>
          rbind (attach_kvs (kvs_data (found_ids fi)) (found fi)) (\<lambda>d. Inr (map snd d)))"

definition user_data :: "pyval \<Rightarrow> pyval res" where
  "user_data job =
     rbind (py_item job ''kvs'') (\<lambda>k.
     rbind (py_item k ''jobspec'') (\<lambda>spec.
     rbind (py_item spec ''attributes'') (\<lambda>a. py_get a ''user'' PNone)))"

fun filter_jobs :: "pyval list \<Rightarrow> string \<Rightarrow> pyval \<Rightarrow> pyval list res" where
  "filter_jobs [] k v = Inr []"
| "filter_jobs (job # rest) k v =
     rbind (user_data job) (\<lambda>u.
       if \<not> truthy u then filter_jobs rest k v
       else rbind (py_get u k PNone) (\<lambda>x.
         if \<not> py_eq x v then filter_jobs rest k v
         else rbind (filter_jobs rest k v) (\<lambda>js. Inr (job # js))))"

definition flux_class :: "pyval \<Rightarrow> job_class res" where
  "flux_class job =
     rbind (py_item job ''status'') (\<lambda>s.
       if py_eq s (PStr ''COMPLETED'') then Inr Success
       else if py_eq s (PStr ''FAILED'') then Inr Failed
       else rbind (py_item job ''state'') (\<lambda>t.
         if py_in t [PStr ''NEW'', PStr ''DEPEND'', PStr ''PRIORITY'', PStr ''SCHED''] then Inr Queued
         else if py_eq t (PStr ''RUN'') then Inr Running
         else Inr Unknown))"

definition raw_of :: "pyval \<Rightarrow> flux_raw" where
  "raw_of job = (case job of PDict d \<Rightarrow> \<lparr>fr_items = d, fr_attrs = []\<rparr>
     | _ \<Rightarrow> \<lparr>fr_items = [], fr_attrs = []\<rparr>)"

fun flux_sort :: "(pyval \<Rightarrow> pyval res) \<Rightarrow> pyval list \<Rightarrow> flux_job by_status \<Rightarrow> flux_job by_status res" where
  "flux_sort job_kvs [] s = Inr s"
| "flux_sort job_kvs (job # rest) s =
     rbind (flux_class job) (\<lambda>c.
     rbind (flux_job_init job_kvs (raw_of job)) (\<lambda>j.
     flux_sort job_kvs rest (add_job c j s)))"

definition flux_list_by_status ::
  "(pyval \<Rightarrow> pyval res) \<Rightarrow> (pyval list \<Rightarrow> pyval list) \<Rightarrow> (pyval \<Rightarrow> pyval res) \<Rightarrow> string option \<Rightarrow> string option \<Rightarrow>
   pyval list \<Rightarrow> flux_job by_status res" where
  "flux_list_by_status info_of kvs_data job_kvs name val ids =
     rbind (flux_list_jobs info_of kvs_data ids) (\<lambda>js.
     rbind (filter_jobs js ''workflow'' (PStr ''state-machine'')) (\<lambda>js1.
     rbind (case (name, val) of (Some n, Some v) \<Rightarrow> filter_jobs js1 n (PStr v) | _ \<Rightarrow> Inr js1) (\<lambda>js2.
     flux_sort job_kvs js2 no_jobs)))"

text \<open>
  \<open>queued_jobs\<close> and \<open>running_jobs\<close> are unfinished: they open an interactive shell (\<open>open_shell\<close>), list the
  jobs, and then ask the list for an attribute it does not have. The argument, a namespace, is not
  looked at.
\<close>

definition flux_list_act ::
  "('w \<Rightarrow> pyval \<Rightarrow> pyval res) \<Rightarrow> ('w \<Rightarrow> pyval list \<Rightarrow> pyval list) \<Rightarrow> ('w \<Rightarrow> pyval list) \<Rightarrow> ('w, pyval list) act" where
  "flux_list_act info_of kvs_data ids =
     bind (reads (\<lambda>w. flux_list_jobs (info_of w) (kvs_data w) (ids w))) lift"

definition flux_queued_jobs :: "('w, unit) act \<Rightarrow> ('w, pyval list) act \<Rightarrow> pyval \<Rightarrow> ('w, string list) act" where
  "flux_queued_jobs open_shell list_jobs namespace = andthen open_shell (bind list_jobs (\<lambda>js. throw AttributeError))"

definition flux_running_jobs :: "('w, unit) act \<Rightarrow> ('w, pyval list) act \<Rightarrow> pyval \<Rightarrow> ('w, string list) act" where
  "flux_running_jobs open_shell list_jobs namespace = andthen open_shell (bind list_jobs (\<lambda>js. throw AttributeError))"

section \<open>Streaming events (tracker/flux/event.py)\<close>

definition skip_events :: "string list" where
  "skip_events = [''submit'', ''validate'', ''depend'', ''priority'', ''annotations'', ''alloc'',
     ''release'', ''free'', ''finish'']"

definition flux_stream :: "(pyval \<Rightarrow> pyval res) \<Rightarrow> (string \<times> flux_raw) list \<Rightarrow> flux_job list res" where
  "flux_stream job_kvs evs =
     rmap (\<lambda>(_, r). flux_job_init job_kvs r) (filter (\<lambda>(n, _). n \<notin> set skip_events) evs)"

section \<open>The status methods\<close>

text \<open>The entries of the dictionary of a job that the status methods read.\<close>

record flux_info =
  fi_state :: string
  fi_status :: string
  fi_returncode :: pyval

definition info_dict :: "flux_info \<Rightarrow> pyval" where
  "info_dict i = PDict [(''state'', PStr (fi_state i)), (''status'', PStr (fi_status i)),
     (''returncode'', fi_returncode i)]"

lemma info_dict_status:
  "flux_is_active (info_dict i) = Inr (fi_state i \<noteq> ''INACTIVE'')"
  "flux_is_completed (info_dict i) = Inr (fi_status i \<in> {''COMPLETED'', ''FAILED''})"
  "flux_is_failed (info_dict i) = Inr (\<not> py_eq (fi_returncode i) (PInt 0))"
  "flux_is_succeeded (info_dict i) = Inr (py_eq (fi_returncode i) (PInt 0))"
  by (simp_all add: info_dict_def flux_is_active_def flux_is_completed_def flux_is_failed_def
      flux_is_succeeded_def dict_at_def py_in_def)

definition flux_completed :: "flux_info \<Rightarrow> bool" where
  "flux_completed i \<longleftrightarrow> flux_is_completed (info_dict i) = Inr True"

definition flux_failing :: "flux_info \<Rightarrow> bool" where
  "flux_failing i \<longleftrightarrow> flux_is_failed (info_dict i) = Inr True"

definition flux_succeeding :: "flux_info \<Rightarrow> bool" where
  "flux_succeeding i \<longleftrightarrow> flux_is_succeeded (info_dict i) = Inr True"

interpretation flux: job_status flux_completed flux_failing flux_succeeding
  by unfold_locales (auto simp: flux_completed_def flux_failing_def flux_succeeding_def info_dict_status)

text \<open>The event of a Flux job counts as failed or succeeded by its return code alone, whatever
  its state and status: always as exactly one of the two, also while the job is running and its
  return code is not known yet, and then as failed.\<close>

theorem flux_event_by_returncode:
  assumes "flux_view j (info_dict i) = Inr v"
  shows "(job_succeeded v \<longleftrightarrow> py_eq (fi_returncode i) (PInt 0)) \<and> (job_failed v \<longleftrightarrow> \<not> job_succeeded v) \<and>
    (fi_returncode i = PStr [] \<longrightarrow> job_failed v)"
  using assms by (auto simp: flux_view_def rbind_Inr_iff info_dict_status py_eq_def)

definition example_flux_job :: flux_job where
  "example_flux_job = \<lparr>fj_jobspec = PDict [(''attributes'', PDict [(''user'', PDict
       [(''workflow'', PStr ''state-machine''), (''app'', PStr ''job_a''), (''jobname'', PStr ''job_7'')])])],
     fj_fluxid = PInt 11\<rparr>"

definition example_flux_running :: flux_info where
  "example_flux_running = \<lparr>fi_state = ''RUN'', fi_status = ''RUN'', fi_returncode = PStr []\<rparr>"

theorem flux_event_by_returncode_witness:
  "\<exists>v. flux_view example_flux_job (info_dict example_flux_running) = Inr v \<and> job_failed v \<and> \<not> is_completed v"
proof -
  obtain v where v: "flux_view example_flux_job (info_dict example_flux_running) = Inr v" "\<not> is_completed v"
    by (simp add: flux_view_def info_dict_status flux_jobid_def flux_step_name_def user_entry_def
        example_flux_job_def example_flux_running_def dict_at_def opt_string_def)
  with flux_event_by_returncode [OF v(1)] show ?thesis
    by (auto simp: example_flux_running_def)
qed

section \<open>The listing\<close>

lemma filter_jobs_eq:
  "filter_jobs js k v = Inr js' \<Longrightarrow>
   js' = filter (\<lambda>j. \<exists>u x. user_data j = Inr u \<and> truthy u \<and> py_get u k PNone = Inr x \<and> py_eq x v) js"
proof (induction js arbitrary: js')
  case Nil
  then show ?case by simp
next
  case (Cons j js)
  then show ?case by (fastforce simp: rbind_Inr_iff split: if_splits)
qed

lemma flux_sort_jobs_of:
  assumes "flux_sort job_kvs js s = Inr s'"
  shows "\<exists>ws. jobs_of c s' = jobs_of c s @ ws \<and>
    map Inr ws = map (\<lambda>j. flux_job_init job_kvs (raw_of j)) (filter (\<lambda>j. flux_class j = Inr c) js)"
  using assms
proof (induction js arbitrary: s)
  case Nil
  then show ?case by simp
next
  case (Cons j js)
  from Cons.prems obtain c' w where
    w: "flux_class j = Inr c'" "flux_job_init job_kvs (raw_of j) = Inr w"
       "flux_sort job_kvs js (add_job c' w s) = Inr s'"
    by (auto simp: rbind_Inr_iff)
  obtain ws where ws: "jobs_of c s' = jobs_of c (add_job c' w s) @ ws"
    "map Inr ws = map (\<lambda>j. flux_job_init job_kvs (raw_of j)) (filter (\<lambda>j. flux_class j = Inr c) js)"
    using Cons.IH [OF w(3)] by blast
  show ?case
    using w(1,2) ws by (cases "c' = c") (auto simp: jobs_of_add intro: exI [of _ "w # ws"])
qed

text \<open>A listing that comes back holds jobs of this workflow only, and each list holds, in the
  order they were listed, exactly the workflow's jobs of its class.\<close>

theorem flux_listing_classes:
  assumes "flux_list_by_status info_of kvs_data job_kvs None None ids = Inr s"
    and "flux_list_jobs info_of kvs_data ids = Inr js"
  shows "\<exists>ws. jobs_of c s = ws \<and> map Inr ws = map (\<lambda>j. flux_job_init job_kvs (raw_of j))
    (filter (\<lambda>j. flux_class j = Inr c \<and> (\<exists>u x. user_data j = Inr u \<and> truthy u \<and>
       py_get u ''workflow'' PNone = Inr x \<and> py_eq x (PStr ''state-machine''))) js)"
proof -
  obtain js1 where js1: "filter_jobs js ''workflow'' (PStr ''state-machine'') = Inr js1"
    "flux_sort job_kvs js1 no_jobs = Inr s"
    using assms by (auto simp: flux_list_by_status_def rbind_Inr_iff)
  show ?thesis
    using flux_sort_jobs_of [OF js1(2), of c] by (simp add: filter_jobs_eq [OF js1(1)] conj_commute)
qed

definition example_flux_listed :: "string \<Rightarrow> pyval" where
  "example_flux_listed st = PDict [(''id'', PInt 11), (''status'', PStr st), (''state'', PStr st)]"

definition example_flux_kvs :: pyval where
  "example_flux_kvs = PDict [(''id'', PInt 11), (''jobspec'', fj_jobspec example_flux_job)]"

lemma example_flux_list_jobs:
  "flux_list_jobs (\<lambda>_. Inr (example_flux_listed ''RUN'')) (\<lambda>_. [example_flux_kvs]) [PDict [(''id'', PInt 11)]] =
   Inr [PDict [(''id'', PInt 11), (''status'', PStr ''RUN''), (''state'', PStr ''RUN''),
     (''ranks'', PStr []), (''expiration'', PStr []), (''kvs'', example_flux_kvs)]]"
  by (simp add: flux_list_jobs_def collect_infos_def job_info_def attempt_def py_eval with_default_def
      example_flux_listed_def dict_at_def dict_in_def example_flux_kvs_def)

lemma example_flux_listing:
  "flux_list_by_status (\<lambda>_. Inr (example_flux_listed ''RUN'')) (\<lambda>_. [example_flux_kvs]) (\<lambda>_. Inl TypeError)
     None None [PDict [(''id'', PInt 11)]] = Inr (no_jobs\<lparr>running := [example_flux_job]\<rparr>)"
  unfolding flux_list_by_status_def example_flux_list_jobs
  by (simp add: user_data_def dict_at_def example_flux_kvs_def example_flux_job_def flux_class_def
      py_in_def flux_job_init_def raw_of_def dict_in_def no_jobs_def)

theorem flux_listing_classes_witness:
  "map Inr (jobs_of Running (no_jobs\<lparr>running := [example_flux_job]\<rparr>)) =
   map (\<lambda>j. flux_job_init (\<lambda>_. Inl TypeError) (raw_of j))
     [PDict [(''id'', PInt 11), (''status'', PStr ''RUN''), (''state'', PStr ''RUN''),
     (''ranks'', PStr []), (''expiration'', PStr []), (''kvs'', example_flux_kvs)]]"
  using flux_listing_classes [OF example_flux_listing example_flux_list_jobs, of Running]
  by (simp add: user_data_def dict_at_def example_flux_kvs_def example_flux_job_def flux_class_def py_in_def)

end
