(* ===== verification/Flux_Tracker.thy ===== *)
theory Flux_Tracker
  imports Kube_Tracker Flux_Jobs
begin

text \<open>
  Submission to Flux: \<open>tracker/flux/tracker.py\<close> with the shared handle of
  \<open>tracker/flux/handle.py\<close>. A step writes its script to a directory of its own, unless one is
  there already, and hands a job specification to the scheduler. The calls of the Flux library,
  the file system and the template engine are parameters.
\<close>

section \<open>Surroundings\<close>

text \<open>The job specification: what \<open>from_command\<close> is given, and the attributes set afterwards.\<close>

record jobspec =
  js_command :: "string list"
  js_nodes :: int
  js_tasks :: pyval
  js_cores :: int
  js_gpus :: int
  js_exclusive :: bool
  js_user :: "(string \<times> pyval) list"
  js_job_name :: string
  js_cwd :: "string option"
  js_duration :: pyval

text \<open>
  \<open>f_submit\<close> and \<open>f_cancel\<close> are \<open>flux.job.submit\<close> and \<open>flux.job.cancel\<close> on the handle,
  \<open>f_from_command\<close> says whether \<open>from_command\<close> accepts its arguments; then the file system.
\<close>

record 'w flux_api =
  f_from_command :: "jobspec \<Rightarrow> unit res"
  f_submit :: "jobspec \<Rightarrow> ('w, pyval) act"
  f_cancel :: "string \<Rightarrow> ('w, unit) act"
  f_exists :: "string \<Rightarrow> 'w \<Rightarrow> bool"
  f_makedirs :: "string \<Rightarrow> ('w, unit) act"
  f_write :: "pyval \<Rightarrow> string \<Rightarrow> ('w, unit) act"

text \<open>\<open>get_handle\<close>: one handle for the process, opened at its first use.\<close>

definition get_handle :: "'h res \<Rightarrow> 'h option \<Rightarrow> 'h res \<times> 'h option" where
  "get_handle opened global = (case global of
      Some h \<Rightarrow> (Inr h, global)
    | None \<Rightarrow> (case opened of Inl e \<Rightarrow> (Inl e, None) | Inr h \<Rightarrow> (Inr h, Some h)))"

section \<open>Steps\<close>

text \<open>A directory for the sequence and its step, under the job's or the workflow's own.\<close>

definition flux_workdir :: "workflow \<Rightarrow> pyval \<Rightarrow> string option \<Rightarrow> string res" where
  "flux_workdir W d oid =
     rbind (py_get d ''workdir'' PNone) (\<lambda>own.
     rbind (if truthy own then Inr own else filesystem W) (\<lambda>base.
     rbind (desc_name d) (\<lambda>name.
     rbind (string_of base) (\<lambda>b. case oid of
        None \<Rightarrow> Inl TypeError
      | Some jid \<Rightarrow> Inr (path_join (path_join b jid) name)))))"

text \<open>
  \<open>"\n".join(["  " + x for x in s.split("\n")]).strip("  ")\<close>: every line is indented, then the
  blanks at both ends go.
\<close>

definition newline :: char where
  "newline = CHR 0x0A"

definition strip_blanks :: "string \<Rightarrow> string" where
  "strip_blanks s = rev (dropWhile (\<lambda>c. c = CHR '' '') (rev (dropWhile (\<lambda>c. c = CHR '' '') s)))"

definition indent_script :: "string \<Rightarrow> string" where
  "indent_script s = strip_blanks (join_char newline (map (\<lambda>x. ''  '' @ x) (split_char newline s)))"

definition flux_render_args :: "workflow \<Rightarrow> pyval \<Rightarrow> string \<Rightarrow> string \<Rightarrow> string \<Rightarrow> (string \<times> pyval) list res" where
  "flux_render_args W d jid wdir text =
     rbind (desc_config d) (\<lambda>c.
     rbind (tracker_pull_from d) (\<lambda>pull.
     rbind (tracker_push_to d) (\<lambda>push.
     rbind (filesystem W) (\<lambda>fs.
     rbind (if truthy fs then Inr PNone else tracker_registry_host W d) (\<lambda>host.
     rbind (tracker_plain_http W d) (\<lambda>plain.
     Inr [(''jobids'', PList [PStr jid]), (''jobid'', PStr jid), (''configfile'', PStr (path_join wdir ''app-config'')),
       (''workdir'', PStr wdir), (''config'', c), (''pull'', pull), (''push'', push), (''registry'', host),
       (''plain_http'', plain), (''script'', PStr text)]))))))"

definition flux_script ::
  "((string \<times> pyval) list \<Rightarrow> string res) \<Rightarrow> workflow \<Rightarrow> pyval \<Rightarrow> string \<Rightarrow> string \<Rightarrow> pyval res" where
  "flux_script render W d jid wdir =
     rbind (py_contains d ''script'') (\<lambda>present.
       if \<not> present then Inr PNone
       else
         rbind (py_item d ''script'') (\<lambda>t.
         rbind (case t of PStr s \<Rightarrow> Inr s | _ \<Rightarrow> Inl AttributeError) (\<lambda>s.
         rbind (flux_render_args W d jid wdir (indent_script s)) (\<lambda>args.
         rbind (render args) (\<lambda>r. Inr (PStr r))))))"

definition flux_create_step ::
  "((string \<times> pyval) list \<Rightarrow> string res) \<Rightarrow> workflow \<Rightarrow> pyval \<Rightarrow> string option \<Rightarrow> job_setup res" where
  "flux_create_step render W d oid =
     rbind (desc_name d) (\<lambda>_.
     rbind (flux_workdir W d oid) (\<lambda>wdir.
     rbind (case oid of None \<Rightarrow> Inl TypeError | Some jid \<Rightarrow> Inr jid) (\<lambda>jid.
     rbind (nnodes d) (\<lambda>nodes.
     rbind (ncores d) (\<lambda>cores.
     rbind (ngpus d) (\<lambda>devices.
     rbind (flux_script render W d jid wdir) (\<lambda>text.
     rbind (config_entry d ''walltime'' PNone) (\<lambda>wall.
     Inr \<lparr>setup_name = jid, setup_nodes = nodes, cores_per_task = cores, script = text, tasks = PNone,
       walltime = wall, gpus = devices, setup_workdir = PStr wdir\<rparr>))))))))"

section \<open>Submission\<close>

definition flux_command :: "pyval \<Rightarrow> string \<Rightarrow> string list res" where
  "flux_command d entrypoint =
     rbind (config_entry d ''command'' PNone) (\<lambda>c.
       case py_or c (PStr (''/bin/bash '' @ entrypoint)) of PStr s \<Rightarrow> shlex_split s | _ \<Rightarrow> Inl AttributeError)"

text \<open>\<open>max(1, self.config.get("tasks") or 1)\<close>.\<close>

definition flux_tasks :: "pyval \<Rightarrow> pyval res" where
  "flux_tasks d = rbind (config_entry d ''tasks'' PNone) (\<lambda>t. py_max (PInt 1) (py_or t (PInt 1)))"

text \<open>The directory and the script of the step, each made only when it is not there.\<close>

definition write_entrypoint :: "'w flux_api \<Rightarrow> pyval \<Rightarrow> string \<Rightarrow> ('w, unit) act" where
  "write_entrypoint api text entrypoint =
     bind (reads (f_exists api (dirname entrypoint))) (\<lambda>d.
     andthen (if d then ret () else f_makedirs api (dirname entrypoint))
     (bind (reads (f_exists api entrypoint)) (\<lambda>there.
        if there then ret () else f_write api text entrypoint)))"

definition fmt_value :: "kube_lib \<Rightarrow> pyval \<Rightarrow> string" where
  "fmt_value L v = py_str L v"

definition flux_spec :: "pyval \<Rightarrow> job_setup \<Rightarrow> string option \<Rightarrow> pyval \<Rightarrow> string list \<Rightarrow> string \<Rightarrow> jobspec res" where
  "flux_spec d step jid wall command app =
     rbind (config_entry d ''exclusive'' PNone) (\<lambda>ex.
     rbind (flux_tasks d) (\<lambda>n.
     Inr \<lparr>js_command = command, js_nodes = setup_nodes step, js_tasks = n, js_cores = cores_per_task step,
       js_gpus = gpus step, js_exclusive = py_in ex true_values,
       js_user = [(''workflow'', PStr ''state-machine''), (''app'', PStr app), (''jobname'', opt_str jid)],
       js_job_name = app,
       js_cwd = (case setup_workdir step of PStr w \<Rightarrow> if w = [] then None else Some w | _ \<Rightarrow> None),
       js_duration = wall\<rparr>))"

definition generate_flux_job ::
  "'w flux_api \<Rightarrow> kube_lib \<Rightarrow> pyval \<Rightarrow> job_setup \<Rightarrow> string option \<Rightarrow> ('w, jobspec) act" where
  "generate_flux_job api L d step jid =
     bind (lift (desc_name d)) (\<lambda>name.
     bind (lift (step_walltime step)) (\<lambda>wall.
     andthen
       (if (if cores_per_task step = 0 then 1 else cores_per_task step) * setup_nodes step \<le> 0
        then throw ValueError else ret ())
     (let entrypoint = fmt_value L (setup_workdir step) @ ''/entrypoint.sh'' in
      bind (lift (flux_command d entrypoint)) (\<lambda>command.
      andthen (write_entrypoint api (script step) entrypoint)
     (bind (lift (flux_spec d step jid wall command (replace_char (CHR ''-'') (CHR ''_'') name))) (\<lambda>spec.
      bind (lift (f_from_command api spec)) (\<lambda>_. ret spec)))))))"

definition flux_submit ::
  "'w flux_api \<Rightarrow> kube_lib \<Rightarrow> pyval \<Rightarrow> job_setup \<Rightarrow> string option \<Rightarrow> bool \<Rightarrow> ('w, job_submission) act" where
  "flux_submit api L d step jid again =
     bind (generate_flux_job api L d step jid) (\<lambda>spec.
     bind (f_submit api spec) (\<lambda>fid.
     ret (if fid \<noteq> PNone then submission SubmitOK 0 else submission SubmitERROR (- 1))))"

definition flux_tracker ::
  "'h res \<Rightarrow> (string \<Rightarrow> pyval \<Rightarrow> 'm res) \<Rightarrow> workflow \<Rightarrow> string \<Rightarrow> 'h option \<Rightarrow> (pyval \<times> 'h \<times> 'm option) res \<times> 'h option" where
  "flux_tracker opened import_script W name global = (case base_tracker W name of
      Inl e \<Rightarrow> (Inl e, global)
    | Inr d \<Rightarrow> (case get_handle opened global of
        (Inl e, g) \<Rightarrow> (Inl e, g)
      | (Inr h, g) \<Rightarrow> (rbind (load_custom_events import_script d) (\<lambda>m. Inr (d, h, m)), g)))"

text \<open>\<open>cleanup\<close> hands the name of the step to the scheduler, which is the identifier of the sequence.\<close>

definition flux_cleanup :: "'w flux_api \<Rightarrow> string \<Rightarrow> ('w, unit) act" where
  "flux_cleanup api jid = f_cancel api jid"

definition flux_submit_job ::
  "'w flux_api \<Rightarrow> kube_lib \<Rightarrow> ((string \<times> pyval) list \<Rightarrow> string res) \<Rightarrow> workflow \<Rightarrow> pyval \<Rightarrow> string option \<Rightarrow> bool \<Rightarrow>
   ('w, job_submission) act" where
  "flux_submit_job api L render W d =
     submit_job (flux_create_step render W d) (flux_submit api L d) (flux_cleanup api)"

end
