(* ===== verification/Flux_Template.thy ===== *)
theory Flux_Template
  imports Flux_Tracker Kube_Examples
begin

text \<open>
  The job script of Flux: the template of \<open>tracker/template.py\<close> as a tree of pieces, the part of the
  template engine that it uses (\<open>render_pieces\<close>), and what the arguments of the Flux tracker make of
  it. The engine is not part of the repository; the semantics here is the documented one: a name
  that is not given and an entry that is not there are undefined, which is false and prints as
  nothing, an entry of an undefined name raises, blanks are kept, and one line end at the end of
  the template is dropped.
\<close>

section \<open>Templates\<close>

text \<open>\<open>registry["host"]\<close> is \<open>Entry ''registry'' ''host''\<close>; the keys of the templates name no attribute of a value.\<close>

datatype texpr = Name string | Entry string string

datatype piece = Txt string | Val texpr | Cond texpr "piece list" "piece list"

type_synonym targs = "(string \<times> pyval) list"

text \<open>The value of an expression, \<open>None\<close> when it is undefined.\<close>

fun texpr_value :: "targs \<Rightarrow> texpr \<Rightarrow> pyval option res" where
  "texpr_value args (Name n) = Inr (dict_get args n)"
| "texpr_value args (Entry n k) = (case dict_get args n of
      None \<Rightarrow> Inl (OtherError ''UndefinedError'')
    | Some (PDict d) \<Rightarrow> Inr (dict_get d k)
    | Some _ \<Rightarrow> Inr None)"

definition holds :: "pyval option \<Rightarrow> bool" where
  "holds v = (case v of None \<Rightarrow> False | Some x \<Rightarrow> truthy x)"

definition printed :: "kube_lib \<Rightarrow> pyval option \<Rightarrow> string" where
  "printed L v = (case v of None \<Rightarrow> [] | Some x \<Rightarrow> py_str L x)"

fun render_pieces :: "kube_lib \<Rightarrow> targs \<Rightarrow> piece list \<Rightarrow> string res" where
  "render_pieces L args [] = Inr []"
| "render_pieces L args (Txt s # ps) = rbind (render_pieces L args ps) (\<lambda>r. Inr (s @ r))"
| "render_pieces L args (Val e # ps) =
     rbind (texpr_value args e) (\<lambda>v. rbind (render_pieces L args ps) (\<lambda>r. Inr (printed L v @ r)))"
| "render_pieces L args (Cond e yes no # ps) =
     rbind (texpr_value args e) (\<lambda>v.
     rbind (render_pieces L args (if holds v then yes else no)) (\<lambda>s.
     rbind (render_pieces L args ps) (\<lambda>r. Inr (s @ r))))"

lemma render_pieces_append:
  "render_pieces L args (ps @ qs) =
     rbind (render_pieces L args ps) (\<lambda>s. rbind (render_pieces L args qs) (\<lambda>r. Inr (s @ r)))"
proof (induction ps)
  case Nil
  then show ?case by (cases "render_pieces L args qs") simp_all
next
  case (Cons p ps)
  then show ?case by (cases p) (simp_all add: rbind_assoc)
qed

text \<open>A template without the line end that the engine drops.\<close>

abbreviation nl :: piece where
  "nl \<equiv> Txt [newline]"

definition chomp :: "piece list \<Rightarrow> piece list" where
  "chomp ps = (if ps \<noteq> [] \<and> last ps = nl then butlast ps else ps)"

section \<open>The templates of the repository\<close>

definition job_script :: "piece list" where
  "job_script = [nl,
     Txt ''  '', Cond (Name ''registry'') [Txt ''which oras || (echo \"Oras is required to use a registry\" && exit 1)''] [], nl,
     Txt ''  jobid=\"'', Val (Name ''jobid''), Txt ''\"'', nl,
     Txt ''  outpath=\"'', Val (Name ''workdir''), Txt ''\"'', nl,
     Txt ''  '', Cond (Name ''registry'') [nl,
       Txt ''  registry=\"'', Val (Entry ''registry'' ''host''), Txt ''\"'', nl,
       Txt ''  '', Cond (Entry ''registry'' ''pull'') [Txt ''pull_tag='', Val (Entry ''registry'' ''pull'')] [], nl,
       Txt ''  '', Cond (Entry ''registry'' ''push'') [Txt ''push_tag='', Val (Entry ''registry'' ''push'')] [], nl,
       Txt ''  ''] [], nl,
     nl,
     Txt ''  echo \">> jobid        = $jobid\"'', nl,
     Txt ''  echo \">> outpath      = $outpath\"'', nl,
     Txt ''  '', Cond (Name ''registry'') [Txt ''echo \">> registry     = $registry\"''] [], nl,
     Txt ''  echo \">> hostname     = \"$(hostname)'', nl,
     Txt ''  mkdir -p -v $outpath; cd $outpath'', nl,
     nl,
     Txt ''  '', Cond (Name ''pull'') [nl,
       Txt ''  echo \"Looking for $jobid with oras repo list\"'', nl,
       Txt ''  oras repo list $registry '', Cond (Name ''plain_http'') [Txt ''--plain-http''] [], Txt '' | grep ${jobid}'', nl,
       Txt ''  echo \"Pulling oras artifact to $locpath\"'', nl,
       Txt ''  oras pull $registry/${jobid}:'', Val (Name ''pull''), Txt '' '', Cond (Name ''plain_http'') [Txt ''--plain-http''] [], nl,
       Txt ''  ''] [], nl,
     nl,
     Txt ''  '', Val (Name ''script''), nl,
     nl,
     Txt ''  '', Cond (Name ''push'') [nl,
       Txt ''  retval=$?'', nl,
       Txt ''  if [ $retval -eq 0 ];'', nl,
       Txt ''  then'', nl,
       Txt ''      cd $outpath'', nl,
       Txt ''      echo \"Job was successful, pushing result to $registry/${jobid}:'', Val (Name ''push''), Txt ''\"'', nl,
       Txt ''      oras push '', Cond (Name ''plain_http'') [Txt ''--plain-http''] [], Txt '' $registry/${jobid}:'', Val (Name ''push''), Txt '' .'', nl,
       Txt ''  else'', nl,
       Txt ''    echo \"Job was not successful\"'', nl,
       Txt ''    exit 1'', nl,
       Txt ''  fi'', nl,
       Txt ''  ''] [], nl]"

text \<open>Nothing uses the second template.\<close>

definition job_config :: "piece list" where
  "job_config = [nl,
     Txt ''config:'', nl,
     Txt ''  nnodes:           '', Cond (Entry ''config'' ''nodes'') [Val (Entry ''config'' ''nodes'')] [Txt ''1''], nl,
     Txt ''  cores_per_task:   '', Cond (Entry ''config'' ''coresPerTask'') [Val (Entry ''config'' ''coresPerTask'')] [Txt ''6''], nl,
     Txt ''  ngpus:            '', Cond (Entry ''config'' ''gpus'') [Val (Entry ''config'' ''gpus'')] [Txt ''0''], nl,
     Txt ''  '', Cond (Entry ''config'' ''walltime'') [Txt (''walltime:         '' @ [CHR 0x27]), Val (Entry ''config'' ''walltime''), Txt [CHR 0x27]] [], nl,
     Txt ''  retry_failure:    '', Cond (Entry ''config'' ''retryFailure'') [Txt ''true''] [Txt ''false''], nl,
     Txt ''  '', Cond (Entry ''config'' ''command'') [Txt ''command: '', Val (Entry ''config'' ''command'')] [], nl,
     nl,
     Txt ''workdir:  '', Val (Name ''workdir''), nl,
     nl,
     Cond (Name ''registry'') [nl,
       Txt ''registry:'', nl,
       Txt ''  '', Cond (Entry ''registry'' ''push'') [Txt ''push: '', Val (Entry ''registry'' ''push'')] [], nl,
       Txt ''  '', Cond (Entry ''registry'' ''pull'') [Txt ''pull: '', Val (Entry ''registry'' ''pull'')] [], nl,
       Txt ''  '', Cond (Entry ''registry'' ''host'') [Txt ''host: '', Val (Entry ''registry'' ''host'')] [], nl] [], nl,
     nl,
     Txt ''# This will need testing to determine a good format.'', nl,
     Cond (Name ''appconfig'') [nl,
       Txt ''app-config: |'', nl,
       Txt ''  '', Val (Name ''appconfig''), nl] [], nl,
     nl,
     Cond (Name ''script'') (nl # Txt ''script: |'' # job_script @ [nl]) [], nl]"

text \<open>\<open>Template(job_script).render(**kwargs)\<close>.\<close>

definition render_job_script :: "kube_lib \<Rightarrow> targs \<Rightarrow> string res" where
  "render_job_script L args = render_pieces L args (chomp job_script)"

section \<open>The script of a job, line by line\<close>

lemma split_lines_prefix: "newline \<notin> set x \<Longrightarrow> split_char newline (x @ s) =
    (x @ hd (split_char newline s)) # tl (split_char newline s)"
proof (induction x)
  case Nil
  then show ?case by (simp add: split_char_nonempty)
next
  case (Cons c x)
  then show ?case by (cases "split_char newline (x @ s)") auto
qed

lemma split_snoc: "split_char c (s @ [c]) = split_char c s @ [[]]"
  by (induction s) (auto split: list.splits)

text \<open>The text with two blanks after every line end.\<close>

fun shifted :: "string \<Rightarrow> string" where
  "shifted [] = []"
| "shifted (c # s) = (if c = newline then newline # ''  '' @ shifted s else c # shifted s)"

lemma shifted_append: "shifted (s @ t) = shifted s @ shifted t"
  by (induction s) simp_all

lemma shifted_blanks: "list_all (\<lambda>c. c = CHR '' '') s \<Longrightarrow> shifted s = s"
  by (induction s) (simp_all add: newline_def)

lemma shifted_hd [simp]: "s \<noteq> [] \<Longrightarrow> hd (shifted s) = hd s" "shifted s = [] \<longleftrightarrow> s = []"
  by (cases s; simp)+

lemma join_shifted: "join_char newline (map (\<lambda>x. ''  '' @ x) (split_char newline s)) = ''  '' @ shifted s"
proof (induction s)
  case (Cons c s)
  obtain w ws where "split_char newline s = w # ws" by (cases "split_char newline s") auto
  with Cons.IH show ?case by (cases ws) auto
qed simp

lemma split_shifted:
  "split_char newline (shifted s) =
     hd (split_char newline s) # map (\<lambda>x. ''  '' @ x) (tl (split_char newline s))"
proof (induction s)
  case (Cons c s)
  have n: "newline \<notin> set ''  ''" by (simp add: newline_def)
  obtain w ws where "split_char newline s = w # ws" by (cases "split_char newline s") auto
  with Cons.IH show ?case using split_lines_prefix [OF n, of "shifted s"] by simp
qed simp

lemma split_indented: "split_char newline (''  '' @ shifted s) = map (\<lambda>x. ''  '' @ x) (split_char newline s)"
proof -
  have n: "newline \<notin> set ''  ''" by (simp add: newline_def)
  show ?thesis
    unfolding split_lines_prefix [OF n] split_shifted by (cases "split_char newline s") simp_all
qed

text \<open>Blanks taken off both ends.\<close>

lemma dropWhile_id: "s = [] \<or> \<not> P (hd s) \<Longrightarrow> dropWhile P s = s"
  by (cases s) simp_all

lemma dropWhile_all: "list_all P x \<Longrightarrow> dropWhile P (x @ z) = dropWhile P z"
  by (induction x) simp_all

lemma strip_outer:
  assumes "list_all (\<lambda>c. c = CHR '' '') x" and "list_all (\<lambda>c. c = CHR '' '') y"
  shows "strip_blanks (x @ u @ y) = strip_blanks u"
proof (cases "list_all (\<lambda>c. c = CHR '' '') u")
  case True
  have "dropWhile (\<lambda>c. c = CHR '' '') z = []" if "list_all (\<lambda>c. c = CHR '' '') z" for z
    using dropWhile_all [OF that, of "[]"] by simp
  note none = this [OF True] this [OF assms(2)]
  show ?thesis unfolding strip_blanks_def dropWhile_all [OF assms(1)] dropWhile_all [OF True] none by simp
next
  case False
  then have "dropWhile (\<lambda>c. c = CHR '' '') (u @ y) = dropWhile (\<lambda>c. c = CHR '' '') u @ y"
    by (auto simp: list_all_iff)
  moreover have "list_all (\<lambda>c. c = CHR '' '') (rev y)" using assms(2) by (simp add: list_all_iff)
  ultimately show ?thesis using assms(1) by (simp add: strip_blanks_def dropWhile_all)
qed

lemma strip_core: "u = [] \<or> (hd u \<noteq> CHR '' '' \<and> last u \<noteq> CHR '' '') \<Longrightarrow> strip_blanks u = u"
  by (cases "u = []") (simp_all add: strip_blanks_def dropWhile_id hd_rev)

lemma strip_parts:
  obtains x y where "s = x @ strip_blanks s @ y" "list_all (\<lambda>c. c = CHR '' '') x" "list_all (\<lambda>c. c = CHR '' '') y"
    "strip_blanks s = [] \<or> (hd (strip_blanks s) \<noteq> CHR '' '' \<and> last (strip_blanks s) \<noteq> CHR '' '')"
proof -
  let ?b = "\<lambda>c. c = CHR '' ''"
  define d where "d = dropWhile ?b s"
  define y where "y = rev (takeWhile ?b (rev d))"
  have r: "strip_blanks s = rev (dropWhile ?b (rev d))" by (simp add: strip_blanks_def d_def)
  have d: "d = strip_blanks s @ y"
    unfolding r y_def by (metis rev_append rev_rev_ident takeWhile_dropWhile_id)
  have s: "s = takeWhile ?b s @ strip_blanks s @ y"
    using takeWhile_dropWhile_id [of ?b s] unfolding d [symmetric] d_def by simp
  have hl: "hd (strip_blanks s) \<noteq> CHR '' '' \<and> last (strip_blanks s) \<noteq> CHR '' ''" if ne: "strip_blanks s \<noteq> []"
  proof
    have "d \<noteq> []" using d ne by auto
    then have "hd d \<noteq> CHR '' ''" using hd_dropWhile [of ?b s] by (simp add: d_def)
    then show "hd (strip_blanks s) \<noteq> CHR '' ''" using d ne by (metis hd_append2)
    have "dropWhile ?b (rev d) \<noteq> []" using ne r by simp
    from hd_dropWhile [OF this] show "last (strip_blanks s) \<noteq> CHR '' ''"
      using ne by (simp add: r last_rev)
  qed
  show ?thesis
    by (rule that [OF s]) (use hl in \<open>auto simp: y_def list_all_iff dest: set_takeWhileD\<close>)
qed

text \<open>
  What is written in front of the script and the script give the lines of the script without the blanks at its
  ends, each two blanks further in; but the empty last line of a script that ends in a line end stays
  as it is.
\<close>

lemma indented_lines:
  "split_char newline (''  '' @ indent_script s) =
     (if strip_blanks s \<noteq> [] \<and> last (strip_blanks s) = newline
      then map (\<lambda>x. ''  '' @ x) (split_char newline (butlast (strip_blanks s))) @ [[]]
      else map (\<lambda>x. ''  '' @ x) (split_char newline (strip_blanks s)))"
proof -
  define u where "u = strip_blanks s"
  obtain x y where s: "s = x @ u @ y" and b: "list_all (\<lambda>c. c = CHR '' '') x" "list_all (\<lambda>c. c = CHR '' '') y"
    and e: "u = [] \<or> (hd u \<noteq> CHR '' '' \<and> last u \<noteq> CHR '' '')"
    using strip_parts [of s] by (auto simp: u_def)
  have nb: "newline \<noteq> CHR '' ''" by (simp add: newline_def)
  have two: "list_all (\<lambda>c. c = CHR '' '') ''  ''" by simp
  have "indent_script s = strip_blanks ((''  '' @ x) @ shifted u @ y)"
    using b by (simp only: indent_script_def join_shifted s shifted_append shifted_blanks append_assoc)
  also have "\<dots> = strip_blanks (shifted u)" by (rule strip_outer) (use b in simp_all)
  finally have i: "indent_script s = strip_blanks (shifted u)" .
  consider "u = []" | v where "u = v @ [newline]" | v c where "u = v @ [c]" "c \<noteq> newline"
    by (cases u rule: rev_cases) auto
  then show ?thesis
  proof cases
    case 1
    then show ?thesis by (simp add: i u_def [symmetric] strip_core newline_def)
  next
    case 2
    have "strip_blanks (shifted u) = strip_blanks ([] @ (shifted v @ [newline]) @ ''  '')"
      by (simp add: 2 shifted_append)
    also have "\<dots> = strip_blanks (shifted v @ [newline])" by (rule strip_outer) (simp_all add: two)
    also have "\<dots> = shifted v @ [newline]"
      by (rule strip_core) (use e nb 2 in \<open>cases v; auto simp: hd_append\<close>)
    finally have "''  '' @ indent_script s = (''  '' @ shifted v) @ [newline]" by (simp add: i)
    then show ?thesis
      unfolding u_def [symmetric] by (simp only: split_snoc split_indented) (simp add: 2)
  next
    case 3
    have "strip_blanks (shifted u) = shifted u"
      by (rule strip_core) (use e 3 in \<open>cases v; auto simp: shifted_append\<close>)
    then show ?thesis
      unfolding u_def [symmetric] i by (simp only: split_indented) (simp add: 3)
  qed
qed

lemma indented_drop:
  "map (drop 2) (split_char newline (''  '' @ indent_script s)) = split_char newline (strip_blanks s)"
proof (cases "strip_blanks s \<noteq> [] \<and> last (strip_blanks s) = newline")
  case True
  then have "split_char newline (strip_blanks s) = split_char newline (butlast (strip_blanks s)) @ [[]]"
    using split_snoc [of newline "butlast (strip_blanks s)"] by (metis append_butlast_last_id)
  with True show ?thesis unfolding indented_lines by (simp add: comp_def)
next
  case False
  then show ?thesis unfolding indented_lines by (auto simp: comp_def)
qed

section \<open>What is rendered\<close>

abbreviation script_args ::
  "pyval \<Rightarrow> string \<Rightarrow> pyval \<Rightarrow> string \<Rightarrow> pyval \<Rightarrow> pyval \<Rightarrow> pyval \<Rightarrow> pyval \<Rightarrow> pyval \<Rightarrow> string \<Rightarrow> targs" where
  "script_args js j cf w c pull push host plain t \<equiv>
     [(''jobids'', js), (''jobid'', PStr j), (''configfile'', cf), (''workdir'', PStr w), (''config'', c),
      (''pull'', pull), (''push'', push), (''registry'', host), (''plain_http'', plain), (''script'', PStr t)]"



lemma script_inside:
  assumes "render_job_script L (script_args js j cf w c pull push host plain t) = Inr r"
  shows "\<exists>a b. r = a @ newline # ''  '' @ t @ b \<and> (b = [] \<or> hd b = newline)"
proof -
  define pre where "pre = take 31 (chomp job_script)"
  define post where "post = drop 34 (chomp job_script)"
  have "chomp job_script = pre @ [nl, Txt ''  '', Val (Name ''script'')] @ post"
    by (simp add: pre_def post_def chomp_def job_script_def)
  then obtain x y where "render_pieces L (script_args js j cf w c pull push host plain t) post = Inr y"
    and "r = x @ newline # ''  '' @ t @ y"
    using assms by (auto simp: render_job_script_def render_pieces_append rbind_Inr_iff printed_def py_str_def)
  moreover have "post \<noteq> [] \<and> hd post = nl" by (simp add: post_def chomp_def job_script_def)
  then obtain ps where "post = nl # ps" by (cases post) auto
  ultimately show ?thesis by (intro exI [of _ x] exI [of _ y]) (auto simp: rbind_Inr_iff)
qed

lemma flux_script_args:
  assumes "flux_script render W d jid wdir = Inr (PStr r)"
  obtains s c pull push fs host plain where "py_item d ''script'' = Inr (PStr s)" and "filesystem W = Inr fs"
    and "(if truthy fs then Inr PNone else tracker_registry_host W d) = Inr host"
    and "render (script_args (PList [PStr jid]) jid (PStr (path_join wdir ''app-config'')) wdir c pull push host plain
      (indent_script s)) = Inr r"
  using assms
  by (auto simp: flux_script_def flux_render_args_def rbind_Inr_iff split: if_splits pyval.splits)


text \<open>C35. The script of a job is rendered line by line. What is written for a job contains, between line ends,
  a text whose lines are those of the job's script, blanks at the very beginning and end of the script
  apart, each two blanks further in; only the empty last line of a script that ends in a line end,
  as every block of a YAML file does, is left at the margin. So taking two blanks off each line gives
  the script back. A line that has to stand at the margin, such as the end of a here-document, does not.\<close>

theorem flux_script_lines:
  assumes "flux_script (render_job_script L) W d jid wdir = Inr (PStr r)"
    and "py_item d ''script'' = Inr (PStr s)"
  shows "\<exists>a t b. r = a @ newline # t @ b \<and> (b = [] \<or> hd b = newline) \<and>
    map (drop 2) (split_char newline t) = split_char newline (strip_blanks s) \<and>
    (\<forall>l \<in> set (butlast (split_char newline t)). take 2 l = ''  '') \<and>
    last (split_char newline t) =
      (if strip_blanks s \<noteq> [] \<and> last (strip_blanks s) = newline then []
       else ''  '' @ last (split_char newline (strip_blanks s)))"
proof -
  obtain c pull push host plain where "render_job_script L
      (script_args (PList [PStr jid]) jid (PStr (path_join wdir ''app-config'')) wdir c pull push host plain
        (indent_script s)) = Inr r"
    by (rule flux_script_args [OF assms(1)]) (use assms(2) in auto)
  from script_inside [OF this] obtain a b where "r = a @ newline # (''  '' @ indent_script s) @ b"
    "b = [] \<or> hd b = newline" by auto
  moreover have "\<forall>l \<in> set (butlast (split_char newline (''  '' @ indent_script s))). take 2 l = ''  ''"
    unfolding indented_lines by (auto simp: map_butlast [symmetric] dest: in_set_butlastD)
  moreover have "last (split_char newline (''  '' @ indent_script s)) =
      (if strip_blanks s \<noteq> [] \<and> last (strip_blanks s) = newline then []
       else ''  '' @ last (split_char newline (strip_blanks s)))"
    unfolding indented_lines by (simp add: last_map)
  ultimately show ?thesis using indented_drop [of s] by blast
qed

section \<open>An example\<close>

definition example_flux_job :: pyval where
  "example_flux_job = PDict [(''name'', PStr ''job_a''), (''config'', PDict [(''nnodes'', PInt 1)]),
     (''script'', PStr (''cat <<E'' @ newline # ''hello'' @ newline # ''E'' @ [newline]))]"

definition with_host :: "string \<Rightarrow> workflow" where
  "with_host h = (case set_registry (example_loaded []) (PStr h) (PBool False) of
     Inr W \<Rightarrow> W | Inl _ \<Rightarrow> example_loaded [])"



theorem flux_script_lines_witness:
  "\<exists>a t b. map (drop 2) (split_char newline t) = [''cat <<E'', ''hello'', ''E'', []] \<and>
     last (split_char newline t) = [] \<and>
     flux_script (render_job_script example_lib) (with_host ''reg:5000'') example_flux_job ''job_7'' ''/tmp/x'' =
       Inr (PStr (a @ newline # t @ b))"
proof -
  let ?s = "''cat <<E'' @ newline # ''hello'' @ newline # ''E'' @ [newline]"
  have s: "py_item example_flux_job ''script'' = Inr (PStr ?s)"
    by (simp add: example_flux_job_def dict_at_def)
  have "case flux_script (render_job_script example_lib) (with_host ''reg:5000'') example_flux_job ''job_7'' ''/tmp/x''
      of Inr (PStr r) \<Rightarrow> True | _ \<Rightarrow> False"
    by code_simp
  then obtain r where r: "flux_script (render_job_script example_lib) (with_host ''reg:5000'') example_flux_job
      ''job_7'' ''/tmp/x'' = Inr (PStr r)" by (auto split: sum.splits pyval.splits)
  have u: "strip_blanks ?s = ?s" by (rule strip_core) (simp add: newline_def)
  have l: "last ?s = newline" by simp
  from flux_script_lines [OF r s] obtain a t b where "r = a @ newline # t @ b"
    "map (drop 2) (split_char newline t) = split_char newline ?s" "last (split_char newline t) = []"
    unfolding u using l by auto
  moreover have "split_char newline ?s = [''cat <<E'', ''hello'', ''E'', []]" by (simp add: newline_def)
  ultimately show ?thesis using r by metis
qed

end
