(* ===== verification/Flux_Manager.thy ===== *)
theory Flux_Manager
  imports Manager_Refinement Flux_Template
begin

text \<open>
  The Flux tracker as the manager's tracker: the module \<open>tracker/flux\<close> provides the operations the
  machines and the manager call. The world of the manager has two parts here: the handle that the
  process shares, \<open>None\<close> before its first use, and what is outside the process. The file shows what
  starting a sequence puts into the queue of the scheduler.
\<close>

section \<open>The tracker module\<close>

text \<open>
  \<open>opened\<close> is what opening a handle gives, \<open>import_script\<close> the module of a job's event script,
  \<open>ids\<close> the ids the scheduler lists, \<open>info_of\<close>, \<open>kvs_data\<close> and \<open>job_kvs\<close> what it answers for them. The
  base class's \<open>cleanup\<close> and \<open>save_log\<close> do nothing. A listed job object reads its state anew
  when it is asked; here it is asked at the time of the listing.
\<close>

record 'w flux_queries =
  q_ids :: "'w \<Rightarrow> pyval list"
  q_info :: "'w \<Rightarrow> pyval \<Rightarrow> pyval res"
  q_data :: "'w \<Rightarrow> pyval list \<Rightarrow> pyval list"
  q_kvs :: "'w \<Rightarrow> pyval \<Rightarrow> pyval res"

definition view_listed :: "(pyval \<Rightarrow> pyval res) \<Rightarrow> flux_job by_status \<Rightarrow> wjob by_status res" where
  "view_listed info_of js =
     (let v = rmap (\<lambda>j. rbind (info_of (fj_fluxid j)) (flux_view j)) in
      rbind (v (success js)) (\<lambda>a. rbind (v (failed js)) (\<lambda>b. rbind (v (running js)) (\<lambda>c.
      rbind (v (queued js)) (\<lambda>d. rbind (v (unknown js)) (\<lambda>e.
        Inr \<lparr>success = a, failed = b, running = c, queued = d, unknown = e\<rparr>))))))"

definition outside :: "('w, 'a) act \<Rightarrow> ('h option \<times> 'w, 'a) act" where
  "outside a = (\<lambda>(g, w). case a w of (r, w') \<Rightarrow> (r, (g, w')))"

definition flux_ops ::
  "'w flux_api \<Rightarrow> kube_lib \<Rightarrow> 'h res \<Rightarrow> (string \<Rightarrow> pyval \<Rightarrow> unit res) \<Rightarrow>
   'w flux_queries \<Rightarrow> ('h option \<times> 'w) tracker_ops" where
  "flux_ops api L opened import_script q =
     \<lparr>op_new = (\<lambda>W n (g, w). case flux_tracker opened import_script W n g of
        (r, g') \<Rightarrow> (rbind r (\<lambda>_. Inr ()), (g', w))),
      op_submit = (\<lambda>W n jid again. outside (flux_submit_job api L (render_job_script L) W (get_job W n) jid again)),
      op_cleanup = (\<lambda>W n jid. ret ()),
      op_save_log = (\<lambda>W n j s. ((Inr (), []), s)),
      op_list = (\<lambda>(g, w). case get_handle opened g of
        (Inl e, g') \<Rightarrow> (Inl e, (g', w))
      | (Inr _, g') \<Rightarrow> (rbind (flux_list_by_status (q_info q w) (q_data q w) (q_kvs q w) (Some ''app'') None (q_ids q w))
          (view_listed (q_info q w)), (g', w)))\<rparr>"

section \<open>The queue of the scheduler\<close>

text \<open>
  The documented behaviour of the scheduler: a submission that gives an id puts the specification
  into the queue under it and any other leaves the queue alone, cancelling only removes jobs, and
  directories and files are no jobs. \<open>queue w\<close> are the specifications in the queue.
\<close>

definition flux_queue :: "'w flux_api \<Rightarrow> ('w \<Rightarrow> (pyval \<times> jobspec) list) \<Rightarrow> bool" where
  "flux_queue api queue \<longleftrightarrow>
     (\<forall>spec w fid w'. f_submit api spec w = (Inr fid, w') \<longrightarrow>
        queue w' = (if fid \<noteq> PNone then queue w @ [(fid, spec)] else queue w)) \<and>
     (\<forall>n w. set (queue (snd (f_cancel api n w))) \<subseteq> set (queue w)) \<and>
     (\<forall>p w. queue (snd (f_makedirs api p w)) = queue w) \<and>
     (\<forall>t p w. queue (snd (f_write api t p w)) = queue w)"

lemma flux_queueD:
  assumes "flux_queue api queue"
  shows "f_submit api spec w = (Inr fid, w') \<Longrightarrow> queue w' = (if fid \<noteq> PNone then queue w @ [(fid, spec)] else queue w)"
    and "set (queue (snd (f_cancel api n w))) \<subseteq> set (queue w)"
    and "keeps (\<lambda>w. queue w = Q) (f_makedirs api p)" and "keeps (\<lambda>w. queue w = Q) (f_write api t p)"
  using assms unfolding flux_queue_def keeps_def by metis+

lemma generate_flux_job_queue:
  assumes "flux_queue api queue"
  shows "keeps (\<lambda>w. queue w = Q) (generate_flux_job api L d step jid)"
proof -
  have "keeps (\<lambda>w. queue w = Q) (write_entrypoint api t p)" for t p
    unfolding write_entrypoint_def by (intro act_inv flux_queueD [OF assms])
  then show ?thesis unfolding generate_flux_job_def Let_def by (intro act_inv)
qed

text \<open>The job object that is made of a submitted specification, under the id the scheduler gave it.\<close>

definition submitted_job :: "jobspec \<Rightarrow> pyval \<Rightarrow> flux_job" where
  "submitted_job spec fid =
     \<lparr>fj_jobspec = PDict [(''attributes'', PDict [(''user'', PDict (js_user spec))])], fj_fluxid = fid\<rparr>"

lemma replace_char_same: "a \<noteq> b \<Longrightarrow> replace_char a b s = s \<longleftrightarrow> a \<notin> set s"
  by (induction s) (auto simp: replace_char_def)

lemma generated_user:
  assumes "generate_flux_job api L d step jid w = (Inr spec, w')" and "desc_name d = Inr name"
  shows "js_user spec = [(''workflow'', PStr ''state-machine''),
    (''app'', PStr (replace_char (CHR ''-'') (CHR ''_'') name)), (''jobname'', opt_str jid)]"
  using assms
  by (auto simp: generate_flux_job_def flux_spec_def bind_Inr_iff andthen_Inr_iff rbind_Inr_iff Let_def
      lift_eval ret_eval)

lemma submitted_view:
  assumes "generate_flux_job api L d step (Some jid) w = (Inr spec, w')" and "desc_name d = Inr name"
    and "flux_view (submitted_job spec fid) st = Inr v"
  shows "jobid v = Some jid" "step_name v = Some (replace_char (CHR ''-'') (CHR ''_'') name)"
  using assms(3) generated_user [OF assms(1,2)]
  by (auto simp: flux_view_def rbind_Inr_iff flux_jobid_def flux_step_name_def user_entry_def submitted_job_def
      dict_at_def opt_str_def opt_string_def)

lemma flux_submit_job_queue:
  assumes "flux_queue api queue" and "flux_submit_job api L render W d jid again w = (Inr rec, w')"
  shows "if status rec = SubmitOK
    then \<exists>step w0 w1 spec fid. generate_flux_job api L d step jid w0 = (Inr spec, w1) \<and> queue w' = queue w @ [(fid, spec)]
    else set (queue w') \<subseteq> set (queue w)"
proof -
  obtain step w2 where step: "flux_create_step render W d jid = Inr step"
    and sub: "flux_submit api L d step jid again w = (Inr rec, w2)"
    and tidy: "(if status rec = SubmitCONFLICT then ret ()
          else if status rec \<noteq> SubmitOK then flux_cleanup api (setup_name step) else ret ()) w2 = (Inr (), w')"
    using assms(2) by (auto simp: flux_submit_job_def submit_job_def bind_Inr_iff lift_eval andthen_Inr_iff ret_eval)
  obtain spec w1 fid where g: "generate_flux_job api L d step jid w = (Inr spec, w1)"
    and f: "f_submit api spec w1 = (Inr fid, w2)"
    and rec: "rec = (if fid \<noteq> PNone then submission SubmitOK 0 else submission SubmitERROR (- 1))"
    using sub by (auto simp: flux_submit_def bind_Inr_iff ret_eval)
  have q: "queue w1 = queue w" by (rule keepsD [OF generate_flux_job_queue [OF assms(1)] refl g])
  show ?thesis
  proof (cases "fid = PNone")
    case True
    then have "w' = snd (flux_cleanup api (setup_name step) w2)"
      using tidy rec by (simp add: submission_def)
    then show ?thesis
      using True rec flux_queueD(1) [OF assms(1) f] q flux_queueD(2) [OF assms(1), of "setup_name step" w2]
      by (simp add: submission_def flux_cleanup_def)
  next
    case False
    then have "w' = w2" using tidy rec by (simp add: submission_def ret_def)
    then show ?thesis using False rec flux_queueD(1) [OF assms(1) f] q g by (auto simp: submission_def)
  qed
qed

section \<open>Starting a sequence\<close>

text \<open>C20. A sequence that is started on Flux is tracked in the first step. When the submission succeeded
  the queue of the scheduler holds one new job, and however that job object is read later, it
  carries the identifier of the sequence, and the name of the first step if and only if that name
  has no dash. Otherwise the queue holds no new job, and the sequence is tracked all the same.\<close>

theorem flux_sequence_started:
  assumes "transition_choice (lib_pick (e_lib env))" and "good_steps ns" and "mgr_ok ns s"
    and "jobs_ok (jobs (wfl s))" and "e_ops env = flux_ops api L opened import_script q"
    and "flux_queue api queue" and "\<And>Q. keeps (\<lambda>w. queue (snd w) = Q) (e_draw env)"
    and "dict_get (jobs (wfl s)) (hd ns) = Some d" and "start_sequence env s = (Inr (), s')"
  shows "\<exists>jid w rec. \<not> dict_in (Some jid) (trackers s) \<and>
    running_sequences s' = (running_sequences s)(Some jid \<mapsto> hd ns) \<and> queue w = queue (snd (world s)) \<and>
    flux_submit_job api L (render_job_script L) (wfl s) d (Some jid) False w = (Inr rec, snd (world s')) \<and>
    (if status rec = SubmitOK
     then \<exists>fid spec. queue (snd (world s')) = queue (snd (world s)) @ [(fid, spec)] \<and>
       (\<forall>st v. flux_view (submitted_job spec fid) st = Inr v \<longrightarrow>
          jobid v = Some jid \<and> (step_name v = Some (hd ns) \<longleftrightarrow> CHR ''-'' \<notin> set (hd ns)))
     else set (queue (snd (world s'))) \<subseteq> set (queue (snd (world s))))"
proof -
  have d: "get_job (wfl s) (hd ns) = d" using assms(8) by (simp add: get_job_def)
  have name: "desc_name d = Inr (hd ns)"
    using assms(4,8) by (simp add: jobs_ok_def job_named_def desc_name_def)
  obtain jid gw rec where P: "\<forall>P. world_kept env P \<longrightarrow> P (world s) \<longrightarrow> P gw"
    and fresh: "\<not> dict_in (Some jid) (trackers s)"
    and run: "running_sequences s' = (running_sequences s)(Some jid \<mapsto> hd ns)"
    and op: "op_submit (e_ops env) (wfl s) (hd ns) (Some jid) False gw = (Inr rec, world s')"
    using start_sequence_running [OF assms(1-3,9)] by (elim exE conjE) (rule that; assumption)
  obtain g w where gw: "gw = (g, w)" by (cases gw)
  have sub: "flux_submit_job api L (render_job_script L) (wfl s) d (Some jid) False w = (Inr rec, snd (world s'))"
    using op by (cases "world s'") (auto simp: assms(5) flux_ops_def d outside_def gw split: prod.splits)
  have "world_kept env (\<lambda>w. queue (snd w) = queue (snd (world s)))"
    using assms(7) by (auto simp: world_kept_def assms(5) flux_ops_def intro!: keepsI split: prod.splits)
  from P [rule_format, OF this] have w: "queue w = queue (snd (world s))" by (simp add: gw)
  have v: "jobid v = Some jid \<and> (step_name v = Some (hd ns) \<longleftrightarrow> CHR ''-'' \<notin> set (hd ns))"
    if "generate_flux_job api L d step (Some jid) w0 = (Inr spec, w1)" "flux_view (submitted_job spec fid) st = Inr v"
    for step w0 spec w1 fid st v
    using submitted_view [OF that(1) name that(2)] replace_char_same [of "CHR ''-''" "CHR ''_''" "hd ns"] by simp
  have "if status rec = SubmitOK
     then \<exists>fid spec. queue (snd (world s')) = queue (snd (world s)) @ [(fid, spec)] \<and>
       (\<forall>st v. flux_view (submitted_job spec fid) st = Inr v \<longrightarrow>
          jobid v = Some jid \<and> (step_name v = Some (hd ns) \<longleftrightarrow> CHR ''-'' \<notin> set (hd ns)))
     else set (queue (snd (world s'))) \<subseteq> set (queue (snd (world s)))"
    using flux_submit_job_queue [OF assms(6) sub, unfolded w] v by (simp split: if_splits) blast
  with fresh run w sub show ?thesis by blast
qed

section \<open>A scheduler\<close>

text \<open>Files that were written, and a queue that numbers its jobs.\<close>

type_synonym flux_site = "string list \<times> (pyval \<times> jobspec) list"

definition site_api :: "flux_site flux_api" where
  "site_api = \<lparr>f_from_command = (\<lambda>_. Inr ()),
     f_submit = (\<lambda>spec (fs, js). (Inr (PInt (int (length js))), (fs, js @ [(PInt (int (length js)), spec)]))),
     f_cancel = (\<lambda>n. ret ()), f_exists = (\<lambda>p (fs, js). p \<in> set fs), f_makedirs = (\<lambda>p (fs, js). (Inr (), (p # fs, js))),
     f_write = (\<lambda>t p (fs, js). (Inr (), (p # fs, js)))\<rparr>"

definition site_queries :: "flux_site flux_queries" where
  "site_queries = \<lparr>q_ids = (\<lambda>_. []), q_info = (\<lambda>_ _. Inl ValueError), q_data = (\<lambda>_ _. []), q_kvs = (\<lambda>_ _. Inl ValueError)\<rparr>"

lemma site_queue: "flux_queue site_api snd"
  by (auto simp: flux_queue_def site_api_def ret_def)

definition flux_env :: "(unit option \<times> flux_site) env" where
  "flux_env = \<lparr>e_lib = Machine_Examples.example_lib,
     e_ops = flux_ops site_api Kube_Examples.example_lib (Inr ()) (\<lambda>n v. Inl ValueError) site_queries,
     e_stats = example_stats, e_clock = (\<lambda>w. (Inr 0, w)), e_draw = (\<lambda>w. (Inr (length (snd (snd w))), w)), e_depth = 3,
     e_start_watcher = empty_watcher_start, e_stop_watcher = empty_watcher_stop, e_save_watcher = empty_watcher_save,
     e_write_times = (\<lambda>d ss ts. ret ()), e_cwd = ret ''/'', e_mkdtemp = ret ''/tmp/x''\<rparr>"

definition flux_mgr :: "(unit option \<times> flux_site) mgr" where
  "flux_mgr = \<lparr>wfl = (case set_filesystem (example_loaded []) (PStr ''/tmp/x'') of Inr W \<Rightarrow> W | Inl _ \<Rightarrow> example_loaded []),
     id_prefix = PStr ''job_'', trackers = [],
     heap = [], store = new_metrics, stamps = [], timings = [], world = (None, ([], []))\<rparr>"

lemma flux_mgr_jobs: "jobs (wfl flux_mgr) = jobs (example_loaded [])"
  by code_simp

lemma flux_mgr_ok: "mgr_ok example_steps flux_mgr"
  using new_metrics_ok
  by (simp add: mgr_ok_def flux_mgr_jobs example_loaded_def dict_keys_def example_steps_def)
    (simp add: flux_mgr_def)

lemma flux_started: "fst (start_sequence flux_env flux_mgr) = Inr ()"
  by code_simp

theorem flux_sequence_started_witness:
  "\<exists>s' jid. start_sequence flux_env flux_mgr = (Inr (), s') \<and> running_sequences s' = [Some jid \<mapsto> ''job_a'']"
proof -
  obtain s' where s': "start_sequence flux_env flux_mgr = (Inr (), s')"
    using flux_started by (metis prod.collapse)
  have p: "transition_choice (lib_pick (e_lib flux_env))" by (simp add: flux_env_def example_pick)
  have j: "jobs_ok (jobs (wfl flux_mgr))"
    by (auto simp: flux_mgr_jobs jobs_ok_def example_loaded_def job_named_def dict_at_def dict_keys_def split: if_splits)
  have o: "e_ops flux_env =
      flux_ops site_api Kube_Examples.example_lib (Inr ()) (\<lambda>n v. Inl ValueError) site_queries"
    by (simp add: flux_env_def)
  have k: "keeps (\<lambda>w. snd (snd w) = Q) (e_draw flux_env)" for Q by (rule keepsI) (simp add: flux_env_def)
  obtain d where d: "dict_get (jobs (wfl flux_mgr)) (hd example_steps) = Some d"
    by (simp add: flux_mgr_jobs example_loaded_def example_steps_def)
  from flux_sequence_started [OF p example_good flux_mgr_ok j o site_queue k d s'] obtain jid where
    "running_sequences s' = (running_sequences flux_mgr)(Some jid \<mapsto> hd example_steps)"
    by (elim exE conjE) (rule that; assumption)
  moreover have "running_sequences flux_mgr = Map.empty" by (rule ext) (simp add: running_sequences_def flux_mgr_def)
  ultimately show ?thesis using s' by (auto simp: example_steps_def)
qed

end
