(* ===== verification/Manager_Progress.thy ===== *)
theory Manager_Progress
  imports Manager_Refinement
begin

text \<open>
  Progress. The refinement says that a sequence never skips a step or goes back; this theory says
  that it goes on: in a workflow without rules, every success event of a sequence moves its machine
  by exactly one step and submits the job of the step it enters, until the machine is complete. The
  preservation part is carried by \<open>stage\<close>: the machine is at a place of its route and nothing that
  lies ahead is marked. The progress part is one success (\<open>succeed_job_stage\<close>).
\<close>

section \<open>The route of a sequence\<close>

definition route :: "string list \<Rightarrow> string list" where
  "route ns = ns @ [''complete'']"

definition stage :: "string list \<Rightarrow> nat \<Rightarrow> machine \<Rightarrow> bool" where
  "stage ns p m \<longleftrightarrow> p \<le> length ns \<and> m_current m = route ns ! p \<and>
     (\<forall>q < length ns. (p \<le> q \<longrightarrow> \<not> flag m (repeat_flag (ns ! q))) \<and>
        (p < q \<longrightarrow> \<not> flag m (success_flag (ns ! q)) \<and> \<not> flag m (failure_flag (ns ! q))))"

lemma stage_blind: "blind (stage ns p)"
  by (simp add: blind_def stage_def flag_def)

lemma stage_start:
  assumes "good_steps ns" and "m_current m = hd ns" and "all_false (m_attrs m)"
  shows "stage ns 0 m"
proof -
  have "\<not> flag m a" for a using assms(3) by (auto simp: flag_def all_false_def) (metis rangeI)
  with assms show ?thesis by (auto simp: stage_def route_def nth_append good_steps_def hd_conv_nth)
qed

lemma next_on_route:
  "distinct ns \<Longrightarrow> p < length ns \<Longrightarrow> next_in ns (ns ! p) = route ns ! Suc p"
proof (induction ns arbitrary: p)
  case Nil
  then show ?case by simp
next
  case (Cons n ns)
  show ?case
  proof (cases p)
    case 0
    then show ?thesis by (cases ns) (simp_all add: route_def)
  next
    case (Suc q)
    with Cons.prems have "q < length ns" "n \<noteq> ns ! q" by auto
    with Suc Cons show ?thesis by (simp add: route_def)
  qed
qed

lemma route_nth: "p < length ns \<Longrightarrow> route ns ! p = ns ! p" "route ns ! length ns = ''complete''"
  by (simp_all add: route_def nth_append)

lemma stage_at_step:
  assumes "good_steps ns" and "stage ns p m"
  shows "m_current m = ''complete'' \<longleftrightarrow> p = length ns" and "m_current m \<noteq> ''start''"
proof -
  have "p < length ns \<Longrightarrow> ns ! p \<noteq> ''start'' \<and> ns ! p \<noteq> ''complete''"
    using assms(1) by (metis good_steps_def nth_mem)
  moreover have "p < length ns \<or> p = length ns" using assms(2) by (auto simp: stage_def)
  ultimately show "m_current m = ''complete'' \<longleftrightarrow> p = length ns" "m_current m \<noteq> ''start''"
    using assms(2) by (auto simp: stage_def route_nth)
qed

text \<open>Marking the current step a success leaves what lies ahead unmarked.\<close>

lemma stage_succeeded:
  assumes "good_steps ns" and "stage ns p m"
  shows "stage ns p (mark_succeeded None m)"
    and "p < length ns \<Longrightarrow> flag (mark_succeeded None m) (success_flag (ns ! p))"
proof -
  have "ns ! q \<noteq> m_current m" if "p < q" "q < length ns" for q
    using assms that by (auto simp: stage_def route_nth good_steps_def nth_eq_iff_index_eq)
  then show "stage ns p (mark_succeeded None m)"
    using assms(2) by (auto simp: stage_def mark_succeeded_def or_current_def Let_def flag_set_flag)
  show "flag (mark_succeeded None m) (success_flag (ns ! p))" if "p < length ns"
    using assms(2) that by (auto simp: stage_def mark_succeeded_def or_current_def Let_def flag_set_flag route_nth)
qed

text \<open>The event \<open>change\<close> of a machine whose step is marked: the next step of the route.\<close>

definition submits :: "'w tracker_ops \<Rightarrow> workflow \<Rightarrow> string \<Rightarrow> string option \<Rightarrow> 'w \<Rightarrow> 'w \<Rightarrow> bool" where
  "submits ops W n jid w w' \<longleftrightarrow>
     (if n = ''complete'' then w' = w else (\<exists>rec. op_submit ops W n jid False w = (Inr rec, w')))"

lemma change_stage:
  assumes "transition_choice (lib_pick L)" and "good_steps ns" and "machine_ok ns m" and "stage ns p m"
    and "p < length ns" and "flag m (success_flag (ns ! p))" and "change L ops W (m, w) = (Inr (), (m', w'))"
  shows "stage ns (Suc p) m' \<and> submits ops W (route ns ! Suc p) (m_jobid m) w w'"
proof -
  have d: "distinct ns" using assms(2) by (simp add: good_steps_def)
  have c: "m_current m = ns ! p" using assms(4,5) by (simp add: stage_def route_nth)
  have "m_current m \<noteq> ''complete''" "m_current m \<noteq> ''start''"
    using stage_at_step [OF assms(2,4)] assms(5) by auto
  moreover have "\<not> flag m (repeat_flag (ns ! p))" using assms(4,5) by (simp add: stage_def)
  ultimately have e: "entered ops W (route ns ! Suc p) (m, w) = (Inr (), (m', w'))"
    using change_ok [OF assms(1-3), of ops W w] assms(6,7) next_on_route [OF d assms(5)] by (simp add: c)
  show ?thesis
  proof (cases "Suc p < length ns")
    case True
    then have "ns ! Suc p \<in> set ns" by simp
    then have n: "ns ! Suc p \<noteq> ''complete''" using assms(2) by (auto simp: good_steps_def)
    have f: "\<not> flag m (repeat_flag (ns ! Suc p))" "\<not> flag m (success_flag (ns ! Suc p))"
      "\<not> flag m (failure_flag (ns ! Suc p))"
      using assms(4) True by (simp_all add: stage_def)
    with e n True have "m' = m\<lparr>m_current := ns ! Suc p\<rparr>"
      "\<exists>rec. op_submit ops W (ns ! Suc p) (m_jobid m) False w = (Inr rec, w')"
      by (auto simp: entered_def route_nth Let_def split: prod.splits sum.splits)
    then show ?thesis using assms(4) True n by (auto simp: stage_def flag_move route_nth submits_def)
  next
    case False
    then have l: "Suc p = length ns" using assms(5) by simp
    with e have "m' = m\<lparr>m_current := ''complete''\<rparr>" "w' = w"
      by (simp_all add: entered_def route_nth Let_def)
    then show ?thesis using l assms(4) by (auto simp: stage_def flag_move route_nth submits_def)
  qed
qed

section \<open>A workflow without rules\<close>

definition no_rules :: "'w mgr \<Rightarrow> bool" where
  "no_rules s \<longleftrightarrow> rules (wfl s) = []"

lemma check_no_rules: "no_rules s \<Longrightarrow> check_rules env names j i s = (Inr (), s)"
  by (simp add: check_rules_def no_rules_def bind_def reads_def ret_def)

interpretation still: manager_steady env no_rules "\<lambda>i. True" for env
  by unfold_locales (auto simp: no_rules_def on_obj_def intro!: keepsI split: prod.splits)

lemma on_obj_no_rules [act_inv]: "keeps no_rules (on_obj i a)"
  by (rule keepsI) (auto simp: no_rules_def on_obj_def split: prod.splits)

lemma modify_no_rules: "(\<And>s. wfl (f s) = wfl s) \<Longrightarrow> keeps no_rules (modify f)"
  by (rule keeps_modify) (simp add: no_rules_def)

lemma check_rules_no_rules [act_inv]: "keeps no_rules (check_rules env names j i)"
  by (rule keepsI) (simp add: check_no_rules)

lemma obj_change_no_rules [act_inv]: "keeps no_rules (obj_change env i)"
  unfolding obj_change_def by (intro act_inv)

lemma start_sequence_no_rules [act_inv]: "keeps no_rules (start_sequence env)"
  unfolding start_sequence_def new_machine_def set_tracker_def by (intro act_inv modify_no_rules) simp_all

lemma succeed_job_no_rules [act_inv]: "keeps no_rules (succeed_job env j i)"
  unfolding succeed_job_def obj_mark_def by (intro act_inv)

lemma fail_job_no_rules [act_inv]: "keeps no_rules (fail_job env j i)"
  unfolding fail_job_def obj_mark_def drop_tracker_def by (intro act_inv modify_no_rules) simp

lemma handle_event_no_rules [act_inv]: "keeps no_rules (handle_event env j)"
  unfolding handle_event_def handle_finished_def check_state_machine_metrics_def check_workflow_metrics_def
  by (intro act_inv still.update_metrics_frame still.new_jobs_frame) simp_all

section \<open>One success\<close>

lemma succeed_job_steps:
  assumes "succeed_job env j i s = (Inr (), s')" and "i < length (heap s)"
  obtains w m where "m = mark_succeeded None (heap s ! i)"
    and "w = world (snd (add_timestamp env (job_label j @ ''_succeeded'') s))" and "if job_succeeded j \<and> m_current m \<noteq> ''complete''
      then \<exists>m' w'. change (e_lib env) (e_ops env) (wfl s) (m, w) = (Inr (), (m', w')) \<and>
        heap s' ! i = m' \<and> world s' = w'
      else heap s' ! i = m"
proof -
  define m where "m = mark_succeeded None (heap s ! i)"
  obtain s1 where ts: "add_timestamp env (job_label j @ ''_succeeded'') s = (Inr (), s1)"
    and rest: "andthen (obj_mark i (mark_succeeded None)) (bind (obj_get i m_current) (\<lambda>cur.
       if job_succeeded j \<and> cur \<noteq> ''complete'' then obj_change env i else ret ())) s1 = (Inr (), s')"
    using assms(1) by (auto simp: succeed_job_def andthen_Inr_iff)
  note f1 = add_timestamp_frame [OF ts]
  have "if job_succeeded j \<and> m_current m \<noteq> ''complete''
      then \<exists>m' w'. change (e_lib env) (e_ops env) (wfl s) (m, world s1) = (Inr (), (m', w')) \<and>
        heap s' ! i = m' \<and> world s' = w'
      else heap s' ! i = m"
    using rest f1 assms(2)
    by (cases "change (e_lib env) (e_ops env) (wfl s) (m, world s1)")
      (auto simp: andthen_def bind_def obj_mark_def on_obj_def on_machine_def modify_def obj_get_def
        reads_def ret_def obj_change_def m_def [symmetric] split: if_splits)
  with that [OF m_def, of "world s1"] show ?thesis by (simp add: ts)
qed

lemma succeed_job_stage:
  assumes "transition_choice (lib_pick (e_lib env))" and "good_steps ns" and "mgr_ok ns s"
    and "i < length (heap s)" and "stage ns p (heap s ! i)" and "succeed_job env j i s = (Inr (), s')"
  shows "stage ns (if job_succeeded j then min (Suc p) (length ns) else p) (heap s' ! i) \<and>
    (job_succeeded j \<longrightarrow> p < length ns \<longrightarrow>
      submits (e_ops env) (wfl s) (route ns ! Suc p) (m_jobid (heap s ! i))
        (world (snd (add_timestamp env (job_label j @ ''_succeeded'') s))) (world s'))"
proof -
  obtain w m where m: "m = mark_succeeded None (heap s ! i)"
    and w: "w = world (snd (add_timestamp env (job_label j @ ''_succeeded'') s))"
    and r: "if job_succeeded j \<and> m_current m \<noteq> ''complete''
      then \<exists>m' w'. change (e_lib env) (e_ops env) (wfl s) (m, w) = (Inr (), (m', w')) \<and>
        heap s' ! i = m' \<and> world s' = w'
      else heap s' ! i = m"
    by (rule succeed_job_steps [OF assms(6,4)])
  have ok: "machine_ok ns m" using assms(3,4) by (auto simp: m mgr_ok_def)
  note st = stage_succeeded [OF assms(2,5), folded m]
  note at = stage_at_step [OF assms(2) st(1)]
  have id: "m_jobid m = m_jobid (heap s ! i)"
    unfolding m by (rule closed_marks(1) [OF jobid_closed(1)]) (rule refl)
  consider "job_succeeded j" "p < length ns" | "job_succeeded j" "p = length ns" | "\<not> job_succeeded j"
    using assms(5) le_neq_implies_less [of p "length ns"] unfolding stage_def by blast
  then show ?thesis
  proof cases
    case 1
    with r at obtain m' w' where "change (e_lib env) (e_ops env) (wfl s) (m, w) = (Inr (), (m', w'))"
      "heap s' ! i = m'" "world s' = w'" by auto
    moreover from change_stage [OF assms(1,2) ok st(1) 1(2) st(2) [OF 1(2)] this(1)]
    have "stage ns (Suc p) m'" "submits (e_ops env) (wfl s) (route ns ! Suc p) (m_jobid (heap s ! i)) w w'"
      by (simp_all add: id)
    ultimately show ?thesis using 1 by (auto simp: min_def Suc_le_eq w)
  qed (use r st(1) at in auto)
qed

section \<open>The events of a run\<close>

text \<open>
  The events that move the sequence \<open>k\<close>, and those that end it: a failure that is neither a
  success nor excused by \<open>always-succeed\<close>.
\<close>

definition advances :: "string option \<Rightarrow> wjob \<Rightarrow> bool" where
  "advances k j \<longleftrightarrow> jobid j = k \<and> str_truthy k \<and> str_truthy (step_name j) \<and>
     (is_active j \<longrightarrow> is_completed j) \<and> job_succeeded j"

definition breaks_off :: "string option \<Rightarrow> wjob \<Rightarrow> bool" where
  "breaks_off k j \<longleftrightarrow> jobid j = k \<and> job_failed j \<and> \<not> always_succeed j \<and> \<not> job_succeeded j"

definition at_stage :: "string list \<Rightarrow> nat \<Rightarrow> nat \<Rightarrow> nat \<Rightarrow> machine \<Rightarrow> bool" where
  "at_stage ns p i x m \<longleftrightarrow> (x = i \<longrightarrow> stage ns p m)"

definition on_course :: "string list \<Rightarrow> string option \<Rightarrow> nat \<Rightarrow> nat \<Rightarrow> 'w mgr \<Rightarrow> bool" where
  "on_course ns k i p s \<longleftrightarrow> mgr_inv ns (Suc i) (at_stage ns p i) [k \<mapsto> i] s \<and> no_rules s"

lemma on_course_iff:
  "on_course ns k i p s \<longleftrightarrow> mgr_ok ns s \<and> no_rules s \<and> dict_get (trackers s) k = Some i \<and> stage ns p (heap s ! i)"
  by (auto simp: on_course_def mgr_inv_def mgr_ok_def at_stage_def Suc_le_eq split: if_splits)

interpretation steady: manager_steady env "mgr_inv ns n0 R K" "\<lambda>i. i < n0 \<longrightarrow> blind (R i)"
  for env ns n0 R K
proof
  fix i and a :: "('a, unit) mact"
  assume "i < n0 \<longrightarrow> blind (R i)" and "\<And>ns. keeps (ok_world ns) a" and "\<And>Q. blind Q \<Longrightarrow> keeps (on_fst Q) a"
  then show "keeps (mgr_inv ns n0 R K) (on_obj i a)" by (intro on_obj_inv) (auto dest: closed_blind)
next
  fix i
  assume "i < n0 \<longrightarrow> blind (R i)"
  then show "keeps (mgr_inv ns n0 R K) (on_obj i metrics)"
    by (intro on_obj_inv metrics_keeps metrics_fst) (auto dest: closed_blind)
qed (simp add: mgr_inv_def)

lemma at_stage_blind: "blind (at_stage ns p i x)"
  by (simp add: blind_def at_stage_def stage_def flag_def)

lemma on_course_keeps:
  "keeps (mgr_inv ns (Suc i) (at_stage ns p i) [k \<mapsto> i]) m \<Longrightarrow> keeps no_rules m \<Longrightarrow> keeps (on_course ns k i p) m"
  unfolding on_course_def by (rule keeps_conj)

lemma check_rules_on_course: "keeps (on_course ns k i p) (check_rules env names j x)"
  by (rule keepsI) (simp add: on_course_def check_no_rules)

lemma hoare_settled: "keeps P m \<Longrightarrow> hoare P m (\<lambda>_. P) (\<lambda>_. True)"
  by (rule hoareI) (auto dest: keepsD)

lemma outcome_on_course:
  assumes "transition_choice (lib_pick (e_lib env))" and "good_steps ns" and "\<not> breaks_off (jobid j) j"
  shows "hoare (on_course ns k i p)
    (if job_failed j \<and> always_succeed j then succeed_job env j i
     else if job_succeeded j then succeed_job env j i
     else if job_failed j then fail_job env j i else ret ())
    (\<lambda>_. on_course ns k i (if job_succeeded j then min (Suc p) (length ns) else p)) (\<lambda>_. True)"
proof -
  have "hoare (on_course ns k i p) (succeed_job env j i)
    (\<lambda>_. on_course ns k i (if job_succeeded j then min (Suc p) (length ns) else p)) (\<lambda>_. True)"
  proof (rule hoareI)
    fix s x s'
    assume s: "on_course ns k i p s" and r: "succeed_job env j i s = (Inr x, s')"
    let ?inv = "mgr_inv ns (Suc i) (\<lambda>_ _. True) [k \<mapsto> i] :: 'a mgr \<Rightarrow> bool"
    have "keeps ?inv (succeed_job env j i)"
      by (intro inv.succeed_job_frame obj_change_inv assms(1,2)) (auto simp: closed_def movable_def)
    moreover have "?inv s" using s by (simp add: on_course_def mgr_inv_def)
    ultimately have i': "?inv s'" using r by (rule keepsD)
    have "no_rules s'" by (rule keepsD [OF succeed_job_no_rules _ r]) (use s in \<open>simp add: on_course_def\<close>)
    moreover have "i < length (heap s)" using s by (simp add: on_course_def mgr_inv_def)
    ultimately show "on_course ns k i (if job_succeeded j then min (Suc p) (length ns) else p) s'"
      using i' succeed_job_stage [OF assms(1,2), of s i p j s'] s r
      by (auto simp: on_course_iff) (auto simp: mgr_inv_def mgr_ok_def)
  qed simp
  then show ?thesis using assms(3) by (auto simp: breaks_off_def intro: hoare_ret)
qed

lemma handle_finished_on_course:
  assumes "transition_choice (lib_pick (e_lib env))" and "good_steps ns" and "\<not> breaks_off (jobid j) j"
  shows "hoare (on_course ns k i p) (handle_finished env j i)
    (\<lambda>_. on_course ns k i (if job_succeeded j then min (Suc p) (length ns) else p)) (\<lambda>_. True)"
proof -
  have k: "keeps (on_course ns k i q) (update_metrics env j i)" "keeps (on_course ns k i q) (check_complete env)"
    "keeps (on_course ns k i q) (new_jobs env)" "keeps (on_course ns k i q) (obj_get i is_repeating)" for q
    by (intro on_course_keeps steady.update_metrics_frame still.update_metrics_frame steady.check_complete_frame
        still.check_complete_frame steady.new_jobs_frame still.new_jobs_frame steady.obj_get_frame
        still.obj_get_frame start_sequence_inv start_sequence_no_rules assms(1,2) TrueI impI at_stage_blind)+
  show ?thesis
    unfolding handle_finished_def check_state_machine_metrics_def check_workflow_metrics_def
    by (intro hoare_andthen [OF hoare_settled [OF k(1)]] hoare_andthen [OF hoare_settled [OF check_rules_on_course]]
        hoare_bind [OF hoare_settled [OF k(4)]] hoare_andthen [OF outcome_on_course [OF assms]]
        hoare_settled keeps_andthen k check_rules_on_course keeps_if keeps_ret)
qed

lemma handle_event_on_course:
  assumes "transition_choice (lib_pick (e_lib env))" and "good_steps ns" and "\<not> breaks_off k j"
    and "on_course ns k i p s" and "handle_event env j s = (Inr (), s')"
  shows "on_course ns k i (if advances k j then min (Suc p) (length ns) else p) s'"
proof (cases "jobid j = k")
  case True
  have t: "dict_get (trackers s) (jobid j) = Some i" using assms(4) True by (simp add: on_course_iff)
  have f: "keeps (on_course ns k i p) (add_timestamp_first_seen env (job_label j))"
    by (intro on_course_keeps steady.first_seen_frame still.first_seen_frame)
  show ?thesis
  proof (cases "str_truthy (jobid j) \<and> str_truthy (step_name j)")
    case tr: True
    then have e: "andthen (add_timestamp_first_seen env (job_label j))
        (if is_active j \<and> \<not> is_completed j then ret () else handle_finished env j i) s = (Inr (), s')"
      using assms(5) by (simp add: handle_event_tracked [OF t])
    then obtain s1 where s1: "add_timestamp_first_seen env (job_label j) s = (Inr (), s1)"
      and r: "(if is_active j \<and> \<not> is_completed j then ret () else handle_finished env j i) s1 = (Inr (), s')"
      by (auto simp: andthen_Inr_iff)
    have c: "on_course ns k i p s1" by (rule keepsD [OF f assms(4) s1])
    show ?thesis
    proof (cases "is_active j \<and> \<not> is_completed j")
      case True
      with r c show ?thesis by (simp add: advances_def ret_def)
    next
      case False
      with r have "handle_finished env j i s1 = (Inr (), s')" by simp
      from hoare_Inr [OF handle_finished_on_course [OF assms(1,2)] c this] assms(3) True tr False
      show ?thesis by (simp add: advances_def)
    qed
  next
    case False
    then have "s' = s" using assms(5) by (auto simp: handle_event_tracked [OF t])
    with False True assms(4) show ?thesis by (auto simp: advances_def)
  qed
next
  case False
  have s: "mgr_ok ns s" "dict_get (trackers s) k = Some i" "stage ns p (heap s ! i)" "no_rules s"
    using assms(4) by (simp_all add: on_course_iff)
  then have i: "i < length (heap s)" "m_jobid (heap s ! i) = k" by (auto simp: mgr_ok_def)
  then have "dict_get (trackers s) (jobid j) \<noteq> Some i" using s(1) False by (auto simp: mgr_ok_def)
  then have "heap s' ! i = heap s ! i" "dict_get (trackers s') k = Some i"
    using handle_event_others [OF assms(1,2) s(1) i(1), of j] s(2) False assms(5) by auto
  moreover have "mgr_ok ns s'"
    using keepsD [OF handle_event_ok [OF assms(1,2)] s(1) assms(5)] .
  moreover have "no_rules s'" using keepsD [OF handle_event_no_rules s(4) assms(5)] .
  ultimately show ?thesis using s(3) False by (simp add: on_course_iff advances_def)
qed

lemma watch_on_course:
  assumes "transition_choice (lib_pick (e_lib env))" and "good_steps ns" and "\<forall>j \<in> set js. \<not> breaks_off k j"
    and "on_course ns k i p s" and "watch env js s = (Inr (), s')"
  shows "on_course ns k i (min (p + length (filter (advances k) js)) (length ns)) s'"
  using assms(3-5) unfolding watch_def
proof (induction js arbitrary: p s)
  case Nil
  then show ?case by (simp add: on_course_iff stage_def ret_def)
next
  case (Cons j js)
  then obtain s1 where s1: "handle_event env j s = (Inr (), s1)" "for_each js (handle_event env) s1 = (Inr (), s')"
    by (auto split: prod.splits sum.splits)
  have "on_course ns k i (if advances k j then min (Suc p) (length ns) else p) s1"
    using handle_event_on_course [OF assms(1,2) _ Cons.prems(2) s1(1)] Cons.prems(1) by simp
  from Cons.IH [OF _ this s1(2)] Cons.prems(1) show ?case by (auto simp: min_def split: if_splits)
qed

section \<open>Progress\<close>

text \<open>C3. Every sequence goes on: in a workflow without rules, whatever the events of other sequences
  are, in a run that raises no exception the machine of a tracked sequence moves on by one step of
  its route for each success event of the sequence, as long as none of its events ends it, and
  rests in \<open>complete\<close> after the last; the sequence stays tracked. Events of active jobs, repeated
  failures of a job that is marked \<open>always-succeed\<close> and events without a step name do not count.\<close>

theorem sequences_make_progress:
  assumes "transition_choice (lib_pick (e_lib env))" and "good_steps ns" and "mgr_ok ns s"
    and "rules (wfl s) = []" and "dict_get (trackers s) k = Some i" and "stage ns p (heap s ! i)"
    and "\<forall>j \<in> set js. \<not> breaks_off k j" and "watch env js s = (Inr (), s')"
  shows "dict_get (trackers s') k = Some i \<and>
    m_current (heap s' ! i) = route ns ! min (p + length (filter (advances k) js)) (length ns)"
proof -
  have "on_course ns k i p s" using assms(3-6) by (simp add: on_course_iff no_rules_def)
  from watch_on_course [OF assms(1,2,7) this assms(8)] show ?thesis
    by (simp add: on_course_iff stage_def)
qed

text \<open>C12. The success that takes a machine to its next step submits the job of that step, once, as a
  fresh submission under the identifier of the sequence, and touches nothing else outside the
  process but the clock; the success of the last step submits nothing.\<close>

theorem success_submits_next:
  assumes "transition_choice (lib_pick (e_lib env))" and "good_steps ns" and "mgr_ok ns s"
    and "i < length (heap s)" and "stage ns p (heap s ! i)" and "p < length ns" and "job_succeeded j"
    and "succeed_job env j i s = (Inr (), s')"
  shows "stage ns (Suc p) (heap s' ! i) \<and>
    (let w = world (snd (add_timestamp env (job_label j @ ''_succeeded'') s)) in
     if Suc p = length ns then world s' = w
     else \<exists>rec. op_submit (e_ops env) (wfl s) (ns ! Suc p) (m_jobid (heap s ! i)) False w = (Inr rec, world s'))"
proof -
  have "ns ! Suc p \<noteq> ''complete''" if "Suc p \<noteq> length ns"
    using that assms(2,6) by (metis Suc_lessI good_steps_def nth_mem)
  with succeed_job_stage [OF assms(1-5,8)] assms(6,7) show ?thesis
    by (auto simp: submits_def route_def nth_append min_def split: if_splits)
qed

text \<open>A sequence that was just started is at the beginning of its route.\<close>

lemma started_on_course:
  assumes "transition_choice (lib_pick (e_lib env))" and "good_steps ns" and "mgr_ok ns s" and "no_rules s"
    and "start_sequence env s = (Inr (), s')"
  shows "\<exists>jid i. \<not> dict_in (Some jid) (trackers s) \<and> on_course ns (Some jid) i 0 s'"
proof -
  have k: "dict_keys (jobs (wfl s)) = ns" using assms(3) by (simp add: mgr_ok_def)
  obtain jid m w where fresh: "\<not> dict_in (Some jid) (trackers s)"
    and s': "s' = s\<lparr>trackers := dict_set (Some jid) (length (heap s)) (trackers s), heap := heap s @ [m], world := w\<rparr>"
    and m: "m_current m = hd ns" "all_false (m_attrs m)"
    using sequence_started [OF assms(1) _ assms(5)] assms(2) unfolding k by blast
  have "mgr_ok ns s'" using keepsD [OF start_sequence_ok [OF assms(1,2)] assms(3,5)] .
  moreover have "no_rules s'" by (rule keepsD [OF start_sequence_no_rules assms(4,5)])
  ultimately have "on_course ns (Some jid) (length (heap s)) 0 s'"
    using stage_start [OF assms(2) m] by (simp add: on_course_iff s')
  with fresh show ?thesis by blast
qed

text \<open>C4. The life of a sequence from its start to its end: a sequence that is started in a workflow
  without rules has, after any later events, run as many steps as there were successes of its
  jobs, and is complete once there is one success for each step, provided that nothing raises and
  no event ends it.\<close>

theorem started_sequence_completes:
  assumes "transition_choice (lib_pick (e_lib env))" and "good_steps ns" and "mgr_ok ns s"
    and "rules (wfl s) = []" and "start_sequence env s = (Inr (), s1)"
  shows "\<exists>jid i. \<not> dict_in (Some jid) (trackers s) \<and> dict_get (trackers s1) (Some jid) = Some i \<and>
    (\<forall>js s'. watch env js s1 = (Inr (), s') \<longrightarrow> (\<forall>j \<in> set js. \<not> breaks_off (Some jid) j) \<longrightarrow>
      m_current (heap s' ! i) = (ns @ [''complete'']) ! min (length (filter (advances (Some jid)) js)) (length ns))"
proof -
  obtain jid i where c: "\<not> dict_in (Some jid) (trackers s)" "on_course ns (Some jid) i 0 s1"
    using started_on_course [OF assms(1-3) _ assms(5)] assms(4) by (auto simp: no_rules_def)
  then show ?thesis
    using watch_on_course [OF assms(1,2) _ c(2)]
    by (intro exI [of _ jid] exI [of _ i]) (auto simp: on_course_iff stage_def route_def)
qed

section \<open>A sequence of two steps\<close>

definition example_successes :: "wjob list" where
  "example_successes = [example_wjob ''job_7'' ''job_a'' True False False,
     example_wjob ''job_8'' ''job_a'' False False False, example_wjob ''job_7'' ''job_b'' True False False]"

lemma example_going_stage: "stage example_steps 0 (heap example_going ! 0)"
proof (rule stage_start [OF example_good])
  show "m_current (heap example_going ! 0) = hd example_steps"
    by (simp add: example_going_def example_steps_def)
  show "all_false (m_attrs (heap example_going ! 0))"
    using example_machine_ok(4) by (simp add: example_going_def)
qed

lemma example_going_rules: "rules (wfl example_going) = []"
  by code_simp

theorem sequences_make_progress_witness:
  "\<exists>s'. watch example_listing_env example_successes example_going = (Inr (), s') \<and>
     m_current (heap s' ! 0) = ''complete''"
proof -
  have "fst (watch example_listing_env example_successes example_going) = Inr ()"
    by code_simp
  then obtain s' where s': "watch example_listing_env example_successes example_going = (Inr (), s')"
    by (metis prod.collapse)
  have "dict_get (trackers example_going) (Some ''job_7'') = Some 0"
    by (simp add: example_going_def example_two_def)
  from sequences_make_progress [OF example_env_pick example_good example_going_ok example_going_rules this
      example_going_stage _ s'] s' show ?thesis
    by (simp add: example_successes_def breaks_off_def advances_def str_truthy_def example_wjob_def
        route_def example_steps_def)
qed

theorem success_submits_next_witness:
  "\<exists>s' rec w. succeed_job example_listing_env (example_wjob ''job_7'' ''job_a'' True False False) 0 example_going
     = (Inr (), s') \<and>
   op_submit (e_ops example_listing_env) (wfl example_going) ''job_b'' (Some ''job_7'') False w = (Inr rec, world s')"
proof -
  have "fst (succeed_job example_listing_env (example_wjob ''job_7'' ''job_a'' True False False) 0 example_going)
      = Inr ()"
    by code_simp
  then obtain s' where s': "succeed_job example_listing_env
      (example_wjob ''job_7'' ''job_a'' True False False) 0 example_going = (Inr (), s')"
    by (metis prod.collapse)
  have h: "length (heap example_going) = 2" "m_jobid (heap example_going ! 0) = Some ''job_7''"
    using example_machine_ok(3) by (simp_all add: example_going_def)
  show ?thesis
    using success_submits_next [OF example_env_pick example_good example_going_ok _ example_going_stage _ _ s'] s' h
    by (auto simp: example_steps_def example_wjob_def Let_def)
qed

theorem started_sequence_completes_witness:
  "\<exists>s1 jid i. start_sequence example_draw example_mgr = (Inr (), s1) \<and>
     dict_get (trackers s1) (Some jid) = Some i \<and> m_current (heap s1 ! i) = ''job_a''"
proof -
  have p: "transition_choice (lib_pick (e_lib example_draw))"
    by (simp add: example_draw_def example_env_def example_pick)
  have ok: "mgr_ok example_steps example_mgr"
    using example_two_ok example_machine_ok(3) by (auto simp: mgr_ok_def example_two_def example_mgr_def)
  have r: "rules (wfl example_mgr) = []" by code_simp
  have "fst (start_sequence example_draw example_mgr) = Inr ()" by code_simp
  then obtain s1 where s1: "start_sequence example_draw example_mgr = (Inr (), s1)"
    by (metis prod.collapse)
  from started_sequence_completes [OF p example_good ok r s1] obtain jid i where
    "dict_get (trackers s1) (Some jid) = Some i"
    and c: "\<forall>js s'. watch example_draw js s1 = (Inr (), s') \<longrightarrow> (\<forall>j \<in> set js. \<not> breaks_off (Some jid) j) \<longrightarrow>
      m_current (heap s' ! i) =
        (example_steps @ [''complete'']) ! min (length (filter (advances (Some jid)) js)) (length example_steps)"
    by blast
  moreover have "m_current (heap s1 ! i) = ''job_a''"
    using c [rule_format, of "[]" s1] by (simp add: watch_def ret_def example_steps_def)
  ultimately show ?thesis using s1 by blast
qed

end
