(* ===== verification/Kube_Nodes.thy ===== *)
theory Kube_Nodes
  imports Tracker_Interface
begin

text \<open>
  The watcher of the cluster's nodes: the class \<open>Watcher\<close> of \<open>tracker/kubernetes/event.py\<close>. Its
  thread records for each node when it was created and deleted and every change of its
  readiness. The node objects and their stream come from the client library and are arguments,
  the clock is a parameter. The file shows what the records look like at every moment, whatever
  the stream delivers and wherever an event raises.
\<close>

section \<open>Nodes of the client library\<close>

text \<open>Times are seconds since the epoch as \<open>timestamp()\<close> gives them.\<close>

record condition =
  cn_type :: string
  cn_status :: string
  cn_transition :: "rat option"
  cn_reason :: pyval
  cn_message :: pyval

record node =
  nd_name :: string
  nd_created :: "rat option"
  nd_deleted :: "rat option"
  nd_labels :: pyval
  nd_conditions :: "condition list option"

section \<open>Records\<close>

text \<open>A condition as it is kept: without the heartbeat, with the time it was recorded at.\<close>

record ready_record =
  rr_transition :: rat
  rr_message :: pyval
  rr_reason :: pyval
  rr_status :: bool
  rr_type :: string
  rr_recorded :: rat

record node_entry =
  ne_created :: rat
  ne_labels :: pyval
  ne_conditions :: "ready_record list"
  ne_ready :: bool
  ne_deleted :: "rat option"

record 'w node_watch =
  nw_nodes :: "(string, node_entry) dict"
  nw_world :: 'w

definition new_watcher :: "'w \<Rightarrow> 'w node_watch" where
  "new_watcher w = \<lparr>nw_nodes = [], nw_world = w\<rparr>"

text \<open>\<open>find_condition\<close>; a state that is asked for must match too.\<close>

definition find_condition :: "node \<Rightarrow> string \<Rightarrow> string option \<Rightarrow> condition option res" where
  "find_condition n name state = (case nd_conditions n of
      None \<Rightarrow> Inl TypeError
    | Some cs \<Rightarrow> Inr (find (\<lambda>c. cn_type c = name \<and> (case state of None \<Rightarrow> True | Some s \<Rightarrow> cn_status c = s)) cs))"

text \<open>\<open>t.timestamp()\<close> of a time that may be missing.\<close>

definition timestamp :: "rat option \<Rightarrow> rat res" where
  "timestamp t = (case t of None \<Rightarrow> Inl AttributeError | Some x \<Rightarrow> Inr x)"

definition clock_now :: "('w, rat) act \<Rightarrow> ('w node_watch, rat) act" where
  "clock_now clock s = (case clock (nw_world s) of (r, w) \<Rightarrow> (r, s\<lparr>nw_world := w\<rparr>))"

definition find_ready_condition :: "('w, rat) act \<Rightarrow> node \<Rightarrow> ('w node_watch, ready_record option) act" where
  "find_ready_condition clock n =
     bind (lift (find_condition n ''Ready'' None)) (\<lambda>c. case c of
        None \<Rightarrow> ret None
      | Some c \<Rightarrow>
          bind (lift (timestamp (cn_transition c))) (\<lambda>t.
          bind (clock_now clock) (\<lambda>now.
          ret (Some \<lparr>rr_transition = t, rr_message = cn_message c, rr_reason = cn_reason c,
            rr_status = (cn_status c = ''True''), rr_type = cn_type c, rr_recorded = now\<rparr>))))"

text \<open>Subscripting a condition that was not found raises.\<close>

definition found :: "ready_record option \<Rightarrow> ready_record res" where
  "found r = (case r of None \<Rightarrow> Inl TypeError | Some c \<Rightarrow> Inr c)"

text \<open>
  \<open>new_node_event\<close> looks the condition up twice, so the clock is read twice; a node without one
  raises when its status is read.
\<close>

definition new_node_event :: "('w, rat) act \<Rightarrow> node \<Rightarrow> ('w node_watch, node_entry) act" where
  "new_node_event clock n =
     bind (find_ready_condition clock n) (\<lambda>ready.
     bind (lift (timestamp (nd_created n))) (\<lambda>created.
     bind (find_ready_condition clock n) (\<lambda>first.
     bind (lift (found ready)) (\<lambda>r.
     bind (lift (found first)) (\<lambda>c.
     ret \<lparr>ne_created = created, ne_labels = nd_labels n, ne_conditions = [c], ne_ready = rr_status r,
       ne_deleted = None\<rparr>)))))"

definition set_node :: "string \<Rightarrow> node_entry \<Rightarrow> ('w node_watch, unit) act" where
  "set_node k e = modify (\<lambda>s. s\<lparr>nw_nodes := dict_set k e (nw_nodes s)\<rparr>)"

definition get_node :: "string \<Rightarrow> ('w node_watch, node_entry) act" where
  "get_node k s = (case dict_get (nw_nodes s) k of None \<Rightarrow> (Inl (KeyError k), s) | Some e \<Rightarrow> (Inr e, s))"

definition node_seen :: "('w, rat) act \<Rightarrow> node \<Rightarrow> ('w node_watch, unit) act" where
  "node_seen clock n =
     bind (reads nw_nodes) (\<lambda>ns.
       if dict_in (nd_name n) ns then ret ()
       else bind (new_node_event clock n) (set_node (nd_name n)))"

definition node_deleted :: "node \<Rightarrow> ('w node_watch, unit) act" where
  "node_deleted n = (case nd_deleted n of
      None \<Rightarrow> ret ()
    | Some t \<Rightarrow> bind (get_node (nd_name n)) (\<lambda>e. set_node (nd_name n) (e\<lparr>ne_deleted := Some t\<rparr>)))"

definition node_readiness :: "('w, rat) act \<Rightarrow> node \<Rightarrow> ('w node_watch, unit) act" where
  "node_readiness clock n =
     bind (find_ready_condition clock n) (\<lambda>ready.
     bind (get_node (nd_name n)) (\<lambda>e.
     bind (lift (found ready)) (\<lambda>r.
       if ne_ready e \<noteq> rr_status r
       then set_node (nd_name n) (e\<lparr>ne_conditions := ne_conditions e @ [r], ne_ready := rr_status r\<rparr>)
       else ret ())))"

definition parse_node_event :: "('w, rat) act \<Rightarrow> node \<Rightarrow> ('w node_watch, unit) act" where
  "parse_node_event clock n =
     andthen (node_seen clock n) (andthen (node_deleted n) (node_readiness clock n))"

text \<open>
  \<open>watch_nodes\<close>: first the nodes of the cluster, where an exception ends the thread, then the
  events of the stream, where an exception is logged. Each event comes with whether the watcher
  has been stopped by then.
\<close>

fun node_events :: "('w, rat) act \<Rightarrow> (node \<times> bool) list \<Rightarrow> ('w node_watch, unit) act" where
  "node_events clock [] = ret ()"
| "node_events clock ((n, stopped) # es) =
     andthen (attempt (parse_node_event clock n) (\<lambda>_. ret ()))
       (if stopped then ret () else node_events clock es)"

definition watch_nodes :: "('w, rat) act \<Rightarrow> node list \<Rightarrow> (node \<times> bool) list \<Rightarrow> ('w node_watch, unit) act" where
  "watch_nodes clock listed es =
     andthen (for_each listed (\<lambda>n. bind (new_node_event clock n) (set_node (nd_name n))))
       (node_events clock es)"

section \<open>The records as JSON\<close>

text \<open>What \<open>results\<close> hands out and \<open>save\<close> writes to \<open>cluster-nodes.json\<close>.\<close>

definition ready_json :: "ready_record \<Rightarrow> pyval" where
  "ready_json r = PDict [(''last_transition_time'', PFloat (rr_transition r)), (''message'', rr_message r),
     (''reason'', rr_reason r), (''status'', PBool (rr_status r)), (''type'', PStr (rr_type r)),
     (''recorded_at'', PFloat (rr_recorded r))]"

definition entry_json :: "node_entry \<Rightarrow> pyval" where
  "entry_json e = PDict ([(''created'', PFloat (ne_created e)), (''labels'', ne_labels e),
     (''conditions'', PList (map ready_json (ne_conditions e))), (''is_ready'', PBool (ne_ready e))] @
     (case ne_deleted e of None \<Rightarrow> [] | Some t \<Rightarrow> [(''deleted'', PFloat t)]))"

definition nodes_json :: "'w node_watch \<Rightarrow> pyval" where
  "nodes_json s = PDict (map (\<lambda>(k, e). (k, entry_json e)) (nw_nodes s))"

section \<open>What the records look like\<close>

text \<open>
  Consecutive conditions differ in their status, the last one is the current state, and all are
  conditions of readiness.
\<close>

definition entry_ok :: "node_entry \<Rightarrow> bool" where
  "entry_ok e \<longleftrightarrow> ne_conditions e \<noteq> [] \<and> ne_ready e = rr_status (last (ne_conditions e)) \<and>
     successively (\<lambda>a b. rr_status a \<noteq> rr_status b) (ne_conditions e) \<and>
     list_all (\<lambda>r. rr_type r = ''Ready'') (ne_conditions e)"

definition nodes_ok :: "'w node_watch \<Rightarrow> bool" where
  "nodes_ok s \<longleftrightarrow> distinct (dict_keys (nw_nodes s)) \<and> (\<forall>e \<in> snd ` set (nw_nodes s). entry_ok e)"

lemma dict_get_in: "dict_get d k = Some v \<Longrightarrow> v \<in> snd ` set d"
  by (metis map_of_SomeD snd_conv image_eqI)

lemma dict_set_values: "snd ` set (dict_set k v d) \<subseteq> insert v (snd ` set d)"
  by (induction d) auto

lemma set_node_ok: "entry_ok e \<Longrightarrow> keeps nodes_ok (set_node k e)"
  unfolding set_node_def
  by (rule keeps_modify) (use dict_set_values in \<open>fastforce simp: nodes_ok_def dict_keys_def distinct_update\<close>)

lemma clock_now_ok [act_inv]: "keeps nodes_ok (clock_now clock)"
  by (rule keepsI) (auto simp: clock_now_def nodes_ok_def split: prod.splits)

lemma find_ready_ok [act_inv]: "keeps nodes_ok (find_ready_condition clock n)"
  unfolding find_ready_condition_def by (auto intro!: act_inv split: option.split)

lemma find_ready_result:
  "find_ready_condition clock n s = (Inr (Some r), s') \<Longrightarrow>
   rr_type r = ''Ready'' \<and> (\<exists>c. find_condition n ''Ready'' None = Inr (Some c) \<and> rr_status r = (cn_status c = ''True''))"
  by (auto simp: find_ready_condition_def find_condition_def bind_def lift_def ret_def clock_now_def find_Some_iff
      split: option.splits prod.splits sum.splits)

lemma new_node_result:
  "new_node_event clock n s = (Inr e, s') \<Longrightarrow> entry_ok e \<and> ne_deleted e = None \<and> ne_labels e = nd_labels n"
proof -
  assume "new_node_event clock n s = (Inr e, s')"
  then obtain ready t first s1 s2 r c where
    r: "find_ready_condition clock n s = (Inr ready, s1)" "find_ready_condition clock n s2 = (Inr first, s')"
    and f: "found ready = Inr r" "found first = Inr c"
    and e: "e = \<lparr>ne_created = t, ne_labels = nd_labels n, ne_conditions = [c], ne_ready = rr_status r, ne_deleted = None\<rparr>"
    unfolding new_node_event_def bind_Inr_iff lift_def ret_def by auto
  have "ready = Some r" "first = Some c" using f by (auto simp: found_def split: option.splits)
  with r find_ready_result [of clock n s r s1] find_ready_result [of clock n s2 c s']
  have "rr_type c = ''Ready''" "rr_status r = rr_status c" by auto
  then show ?thesis by (simp add: e entry_ok_def)
qed

lemma new_node_keeps [act_inv]: "keeps nodes_ok (new_node_event clock n)"
  unfolding new_node_event_def by (intro act_inv)

text \<open>A computation whose result is fit to be stored, and what is done with it.\<close>

lemma keeps_bind_result:
  assumes "keeps P m" and "\<And>x s s'. P s \<Longrightarrow> m s = (Inr x, s') \<Longrightarrow> keeps P (f x)"
  shows "keeps P (bind m f)"
proof (rule keepsI)
  fix s
  assume s: "P s"
  obtain r t where r: "m s = (r, t)" by (cases "m s")
  have t: "P t" by (rule keepsD [OF assms(1) s r])
  show "P (snd (bind m f s))"
    using assms(2) [OF s] r t by (cases r) (auto simp: bind_def keeps_def)
qed

lemma store_new_node: "keeps nodes_ok (bind (new_node_event clock n) (set_node k))"
  by (rule keeps_bind_result [OF new_node_keeps]) (use new_node_result set_node_ok in blast)

lemma get_node_keeps [act_inv]: "keeps nodes_ok (get_node k)"
  by (rule keepsI) (simp add: get_node_def split: option.split)

lemma get_node_ok: "nodes_ok s \<Longrightarrow> get_node k s = (Inr e, s') \<Longrightarrow> entry_ok e"
  by (auto simp: get_node_def nodes_ok_def dest: dict_get_in split: option.splits)

lemma node_deleted_ok: "keeps nodes_ok (node_deleted n)"
proof -
  have "entry_ok e \<Longrightarrow> entry_ok (e\<lparr>ne_deleted := d\<rparr>)" for e d by (simp add: entry_ok_def)
  then show ?thesis
    unfolding node_deleted_def
    by (auto intro!: act_inv keeps_bind_result [OF get_node_keeps] set_node_ok dest: get_node_ok split: option.split)
qed

lemma entry_ok_append:
  "entry_ok e \<Longrightarrow> ne_ready e \<noteq> rr_status r \<Longrightarrow> rr_type r = ''Ready'' \<Longrightarrow>
   entry_ok (e\<lparr>ne_conditions := ne_conditions e @ [r], ne_ready := rr_status r\<rparr>)"
  by (auto simp: entry_ok_def successively_append_iff)

lemma node_readiness_ok: "keeps nodes_ok (node_readiness clock n)"
proof -
  have k: "keeps nodes_ok (bind (lift (found ready)) (\<lambda>r.
       if ne_ready e \<noteq> rr_status r
       then set_node (nd_name n) (e\<lparr>ne_conditions := ne_conditions e @ [r], ne_ready := rr_status r\<rparr>)
       else ret ()))" if "entry_ok e" and "\<And>r. ready = Some r \<Longrightarrow> rr_type r = ''Ready''" for ready e
    by (rule keeps_bind_result [OF keeps_lift])
      (use that in \<open>auto simp: lift_def found_def intro!: act_inv set_node_ok entry_ok_append split: option.splits\<close>)
  show ?thesis
    unfolding node_readiness_def
    by (rule keeps_bind_result [OF find_ready_ok], rule keeps_bind_result [OF get_node_keeps])
      (blast intro: k dest: get_node_ok find_ready_result)
qed

lemma parse_node_ok [act_inv]: "keeps nodes_ok (parse_node_event clock n)"
  unfolding parse_node_event_def node_seen_def
  by (intro act_inv store_new_node node_deleted_ok node_readiness_ok)

lemma node_events_ok [act_inv]: "keeps nodes_ok (node_events clock es)"
  by (induction es rule: node_events.induct) (auto intro!: act_inv)

text \<open>C22. Whatever nodes the cluster lists and whatever events follow, also when some raise, every record
  of a node has at least one condition, all are readiness conditions whose status alternates, and
  the node's readiness is the status of the last one; no node has two records.\<close>

theorem watched_nodes_ok: "nodes_ok (snd (watch_nodes clock listed es (new_watcher w)))"
proof -
  have "keeps nodes_ok (watch_nodes clock listed es)"
    unfolding watch_nodes_def by (intro act_inv store_new_node)
  moreover have "nodes_ok (new_watcher w)" by (simp add: nodes_ok_def new_watcher_def dict_keys_def)
  ultimately show ?thesis by (simp add: keeps_def)
qed

section \<open>What an event records\<close>

text \<open>A readable node: its times are there and its first condition of readiness says \<open>b\<close>.\<close>

definition readable :: "node \<Rightarrow> bool \<Rightarrow> bool" where
  "readable n b \<longleftrightarrow> nd_created n \<noteq> None \<and>
     (\<exists>c. find_condition n ''Ready'' None = Inr (Some c) \<and> cn_transition c \<noteq> None \<and> (cn_status c = ''True'') = b)"

definition clock_runs :: "('w, rat) act \<Rightarrow> bool" where
  "clock_runs clock \<longleftrightarrow> (\<forall>w. \<exists>t w'. clock w = (Inr t, w'))"

lemma readable_find:
  assumes "readable n b" and "clock_runs clock"
  shows "\<exists>r w'. find_ready_condition clock n s = (Inr (Some r), s\<lparr>nw_world := w'\<rparr>) \<and> rr_status r = b"
proof -
  obtain c x where c: "find_condition n ''Ready'' None = Inr (Some c)" "cn_transition c = Some x"
      "(cn_status c = ''True'') = b"
    using assms(1) by (auto simp: readable_def)
  obtain t w' where "clock (nw_world s) = (Inr t, w')" using assms(2) unfolding clock_runs_def by blast
  with c show ?thesis
    by (auto simp: find_ready_condition_def bind_def lift_def ret_def timestamp_def clock_now_def)
qed

text \<open>The event of a readable node never raises. Afterwards the node is recorded with the readiness the
  event reports and with the deletion time when the event has one; its conditions are those
  recorded before, plus one when the readiness changed; every other node is as before.\<close>

theorem node_event_recorded:
  assumes "readable n b" and "clock_runs clock" and "dict_get (nw_nodes s) (nd_name n) = Some e"
  shows "\<exists>e' s' extra. parse_node_event clock n s = (Inr (), s') \<and>
    dict_get (nw_nodes s') = (dict_get (nw_nodes s))(nd_name n \<mapsto> e') \<and>
    ne_ready e' = b \<and> ne_created e' = ne_created e \<and> ne_conditions e' = ne_conditions e @ extra \<and>
    length extra = (if ne_ready e = b then 0 else 1) \<and>
    ne_deleted e' = (if nd_deleted n = None then ne_deleted e else nd_deleted n)"
proof -
  define e1 where "e1 = (case nd_deleted n of None \<Rightarrow> e | Some t \<Rightarrow> e\<lparr>ne_deleted := Some t\<rparr>)"
  define s1 where "s1 = (case nd_deleted n of None \<Rightarrow> s | Some t \<Rightarrow> s\<lparr>nw_nodes := dict_set (nd_name n) e1 (nw_nodes s)\<rparr>)"
  have seen: "node_seen clock n s = (Inr (), s)"
    using assms(3) by (simp add: node_seen_def bind_def reads_def dict_in_def ret_def)
  have del: "node_deleted n s = (Inr (), s1)"
    using assms(3) by (simp add: node_deleted_def s1_def e1_def ret_def bind_def get_node_def set_node_def modify_def
        split: option.split)
  have g1: "dict_get (nw_nodes s1) = (dict_get (nw_nodes s))(nd_name n \<mapsto> e1)"
    using assms(3) by (auto simp: s1_def e1_def update_conv' fun_upd_idem split: option.split)
  have e1: "ne_ready e1 = ne_ready e" "ne_created e1 = ne_created e" "ne_conditions e1 = ne_conditions e"
    "ne_deleted e1 = (if nd_deleted n = None then ne_deleted e else nd_deleted n)"
    by (simp_all add: e1_def split: option.split)
  obtain r w' where r: "find_ready_condition clock n s1 = (Inr (Some r), s1\<lparr>nw_world := w'\<rparr>)" "rr_status r = b"
    using readable_find [OF assms(1,2)] by blast
  note eval = parse_node_event_def andthen_def bind_def node_readiness_def get_node_def lift_def found_def ret_def
    set_node_def modify_def seen del
  show ?thesis
  proof (cases "ne_ready e = b")
    case True
    then show ?thesis
      using g1 e1 r
      by (intro exI [of _ e1] exI [of _ "s1\<lparr>nw_world := w'\<rparr>"] exI [of _ "[]"]) (simp add: eval fun_upd_def)
  next
    case False
    define e2 where "e2 = e1\<lparr>ne_conditions := ne_conditions e1 @ [r], ne_ready := b\<rparr>"
    have "parse_node_event clock n s = (Inr (), s1\<lparr>nw_world := w', nw_nodes := dict_set (nd_name n) e2 (nw_nodes s1)\<rparr>)"
      using False g1 e1 r by (simp add: eval e2_def)
    then show ?thesis
      using False g1 e1
      by (intro exI [of _ e2] exI [of _ "s1\<lparr>nw_world := w', nw_nodes := dict_set (nd_name n) e2 (nw_nodes s1)\<rparr>"]
          exI [of _ "[r]"]) (auto simp: e2_def update_conv' fun_upd_def)
  qed
qed

text \<open>A node and a clock for the witnesses.\<close>

definition example_clock :: "(rat, rat) act" where
  "example_clock w = (Inr w, w + 1)"

definition example_node :: "string \<Rightarrow> bool \<Rightarrow> rat \<Rightarrow> node" where
  "example_node name ready t = \<lparr>nd_name = name, nd_created = Some 100, nd_deleted = None, nd_labels = PDict [],
     nd_conditions = Some [\<lparr>cn_type = ''Ready'', cn_status = (if ready then ''True'' else ''False''),
       cn_transition = Some t, cn_reason = PStr [], cn_message = PStr []\<rparr>]\<rparr>"

definition example_ready :: "rat \<Rightarrow> bool \<Rightarrow> rat \<Rightarrow> ready_record" where
  "example_ready t b now = \<lparr>rr_transition = t, rr_message = PStr [], rr_reason = PStr [], rr_status = b,
     rr_type = ''Ready'', rr_recorded = now\<rparr>"

definition example_entry :: "ready_record list \<Rightarrow> bool \<Rightarrow> node_entry" where
  "example_entry cs b = \<lparr>ne_created = 100, ne_labels = PDict [], ne_conditions = cs, ne_ready = b, ne_deleted = None\<rparr>"

definition example_watch :: "rat node_watch" where
  "example_watch = \<lparr>nw_nodes = [(''node-1'', example_entry [example_ready 120 True 200] True)], nw_world = 201\<rparr>"

lemma example_readable: "readable (example_node name b t) b"
  by (simp add: readable_def example_node_def find_condition_def)

lemma example_clock_runs: "clock_runs example_clock"
  by (simp add: clock_runs_def example_clock_def)

theorem node_event_recorded_witness:
  "\<exists>e s'. parse_node_event example_clock (example_node ''node-1'' False 150) example_watch = (Inr (), s') \<and>
     dict_get (nw_nodes s') ''node-1'' = Some e \<and> length (ne_conditions e) = 2"
  using node_event_recorded [OF example_readable [of "''node-1''" False 150] example_clock_runs, of example_watch]
  by (fastforce simp: example_watch_def example_node_def example_entry_def)

end
