(* ===== verification/Times_Analysis.thy ===== *)
theory Times_Analysis
  imports Kube_Nodes
begin

text \<open>
  The analysis of recorded times: \<open>analysis/manager.py\<close>. One parser reads the node records that
  the watcher saved, the other the timestamps that the manager saved; both collect the rows of a
  table. The plots of the file are left out, the table of the data frame library is the list of
  its rows. The file shows what the parsers make of the files that the watcher and the manager
  really write.
\<close>

section \<open>Node times\<close>

record node_row =
  nr_instance :: string
  nr_experiment :: string
  nr_iteration :: int
  nr_start :: pyval
  nr_down :: pyval
  nr_uptime :: pyval
  nr_workflow_start :: pyval
  nr_workflow_end :: pyval

record node_times =
  nt_total :: "(string, (int, pyval list) dict) dict"
  nt_filter :: "pyval list option"
  nt_label :: string
  nt_rows :: "node_row list"

definition new_node_times :: "pyval list option \<Rightarrow> string \<Rightarrow> node_times" where
  "new_node_times node_filter label_name =
     \<lparr>nt_total = [], nt_filter = node_filter, nt_label = label_name, nt_rows = []\<rparr>"

text \<open>\<open>update_times_inventory\<close>: an entry that exists is kept.\<close>

definition dict_default :: "'k \<Rightarrow> 'v \<Rightarrow> ('k, 'v) dict \<Rightarrow> ('k, 'v) dict" where
  "dict_default k v d = (if dict_in k d then d else dict_set k v d)"

definition inner :: "('k, ('i, 'v) dict) dict \<Rightarrow> 'k \<Rightarrow> ('i, 'v) dict" where
  "inner d k = (case dict_get d k of None \<Rightarrow> [] | Some x \<Rightarrow> x)"

definition inventory :: "string \<Rightarrow> int \<Rightarrow> 'v \<Rightarrow> (string, (int, 'v) dict) dict \<Rightarrow> (string, (int, 'v) dict) dict" where
  "inventory experiment iteration v d =
     (let d1 = dict_default experiment [] d in
      dict_set experiment (dict_default iteration v (inner d1 experiment)) d1)"

definition record_uptime :: "string \<Rightarrow> int \<Rightarrow> pyval \<Rightarrow> (string, (int, pyval list) dict) dict \<Rightarrow> (string, (int, pyval list) dict) dict" where
  "record_uptime experiment iteration u d =
     (let x = inner d experiment in
      dict_set experiment (dict_set iteration ((case dict_get x iteration of None \<Rightarrow> [] | Some l \<Rightarrow> l) @ [u]) x) d)"

text \<open>\<open>l[0]\<close> and \<open>l[-1]\<close>.\<close>

definition list_end :: "(pyval list \<Rightarrow> pyval) \<Rightarrow> pyval \<Rightarrow> pyval res" where
  "list_end pick v = (case v of PList xs \<Rightarrow> (if xs = [] then Inl IndexError else Inr (pick xs)) | _ \<Rightarrow> Inl TypeError)"

definition node_skipped :: "node_times \<Rightarrow> pyval \<Rightarrow> bool res" where
  "node_skipped nt meta = (case nt_filter nt of
      None \<Rightarrow> Inr False
    | Some wanted \<Rightarrow>
        rbind (py_item meta ''labels'') (\<lambda>labels.
        rbind (py_contains labels (nt_label nt)) (\<lambda>present.
          if \<not> present then Inr False
          else rbind (py_item labels (nt_label nt)) (\<lambda>v. Inr (\<not> py_in v wanted)))))"

text \<open>
  The body of the loop of \<open>add_nodes\<close>. The state is the parser together with the variable
  \<open>workflow_end\<close>, which the body assigns when the node went away.
\<close>

definition node_start :: "pyval \<Rightarrow> pyval \<Rightarrow> pyval res" where
  "node_start workflow_start meta =
     rbind (py_item meta ''conditions'') (\<lambda>cs.
     rbind (list_end hd cs) (\<lambda>c.
     rbind (py_item c ''last_transition_time'') (\<lambda>first.
     rbind (py_lt workflow_start first) (\<lambda>later. Inr (if later then first else workflow_start)))))"

definition gone_at :: "pyval \<Rightarrow> pyval \<Rightarrow> (pyval \<times> bool) res" where
  "gone_at workflow_end meta =
     rbind (py_item meta ''is_ready'') (\<lambda>ready.
       if truthy ready then Inr (workflow_end, True)
       else
         rbind (py_item meta ''conditions'') (\<lambda>cs.
         rbind (list_end last cs) (\<lambda>c.
         rbind (py_item c ''last_transition_time'') (\<lambda>t.
         rbind (py_item c ''type'') (\<lambda>ty.
         rbind (if py_eq ty (PStr ''Ready'') then py_item c ''status'' else Inr PNone) (\<lambda>st.
         Inr (t, py_eq ty (PStr ''Ready'') \<and> st = PBool False)))))))"

definition add_node ::
  "string \<Rightarrow> int \<Rightarrow> pyval \<Rightarrow> string \<times> pyval \<Rightarrow> (node_times \<times> pyval, unit) act" where
  "add_node experiment iteration workflow_start = (\<lambda>(name, meta).
     bind (reads id) (\<lambda>(nt, node_end).
     bind (lift (node_skipped nt meta)) (\<lambda>skip.
       if skip then ret ()
       else
         bind (lift (node_start workflow_start meta)) (\<lambda>start.
         bind (lift (gone_at node_end meta)) (\<lambda>(workflow_end, sane).
         andthen (modify (\<lambda>(nt, _). (nt, workflow_end)))
        (if \<not> sane then throw AssertionError
         else
           bind (lift (py_sub node_end start)) (\<lambda>uptime.
           modify (\<lambda>(nt, we). (nt\<lparr>nt_total := record_uptime experiment iteration uptime (nt_total nt),
             nt_rows := nt_rows nt @ [\<lparr>nr_instance = name, nr_experiment = experiment, nr_iteration = iteration,
               nr_start = start, nr_down = node_end, nr_uptime = uptime,
               nr_workflow_start = workflow_start, nr_workflow_end = we\<rparr>]\<rparr>, we)))))))))"

definition add_nodes ::
  "pyval \<Rightarrow> pyval \<Rightarrow> pyval \<Rightarrow> string \<Rightarrow> int \<Rightarrow> node_times \<Rightarrow> unit res \<times> node_times" where
  "add_nodes content workflow_start workflow_end experiment iteration nt =
     (let nt1 = nt\<lparr>nt_total := inventory experiment iteration [] (nt_total nt)\<rparr> in
      case content of
        PDict nodes \<Rightarrow>
          (case for_each nodes (add_node experiment iteration workflow_start) (nt1, workflow_end) of
             (r, (nt2, _)) \<Rightarrow> (r, nt2))
      | _ \<Rightarrow> (Inl AttributeError, nt1))"

subsection \<open>Reading what the watcher wrote\<close>

definition came_up :: "rat \<Rightarrow> node_entry \<Rightarrow> rat" where
  "came_up a e = max a (rr_transition (hd (ne_conditions e)))"

definition went_away :: "rat \<Rightarrow> node_entry \<Rightarrow> rat" where
  "went_away b e = (if ne_ready e then b else rr_transition (last (ne_conditions e)))"

definition row_of :: "string \<Rightarrow> int \<Rightarrow> rat \<Rightarrow> rat \<Rightarrow> string \<times> node_entry \<Rightarrow> node_row" where
  "row_of ex it a b = (\<lambda>(k, e). \<lparr>nr_instance = k, nr_experiment = ex, nr_iteration = it,
     nr_start = PFloat (came_up a e), nr_down = PFloat b, nr_uptime = PFloat (to_double (b - came_up a e)),
     nr_workflow_start = PFloat a, nr_workflow_end = PFloat (went_away b e)\<rparr>)"

fun rows_of :: "string \<Rightarrow> int \<Rightarrow> rat \<Rightarrow> rat \<Rightarrow> (string \<times> node_entry) list \<Rightarrow> node_row list" where
  "rows_of ex it a b [] = []"
| "rows_of ex it a b (x # xs) = row_of ex it a b x # rows_of ex it a (went_away b (snd x)) xs"

lemma entry_items:
  "py_item (entry_json e) ''labels'' = Inr (ne_labels e)"
  "py_item (entry_json e) ''conditions'' = Inr (PList (map ready_json (ne_conditions e)))"
  "py_item (entry_json e) ''is_ready'' = Inr (PBool (ne_ready e))"
  by (simp_all add: entry_json_def dict_at_def split: option.split)

lemma ready_items:
  "py_item (ready_json r) ''last_transition_time'' = Inr (PFloat (rr_transition r))"
  "py_item (ready_json r) ''type'' = Inr (PStr (rr_type r))"
  "py_item (ready_json r) ''status'' = Inr (PBool (rr_status r))"
  by (simp_all add: ready_json_def dict_at_def)

lemma node_start_watched:
  "ne_conditions e \<noteq> [] \<Longrightarrow> node_start (PFloat a) (entry_json e) = Inr (PFloat (came_up a e))"
  by (auto simp: node_start_def entry_items list_end_def hd_map ready_items came_up_def max_def)

lemma gone_at_watched:
  assumes "entry_ok e"
  shows "gone_at (PFloat b) (entry_json e) = Inr (PFloat (went_away b e), True)"
proof -
  have "rr_type (last (ne_conditions e)) = ''Ready''" "ne_conditions e \<noteq> []"
    "rr_status (last (ne_conditions e)) = ne_ready e"
    using assms by (auto simp: entry_ok_def list_all_iff)
  then show ?thesis
    by (simp add: gone_at_def entry_items list_end_def last_map ready_items went_away_def)
qed

lemma add_node_watched:
  assumes "entry_ok e" and "nt_filter nt = None"
  shows "\<exists>tt. add_node ex it (PFloat a) (k, entry_json e) (nt, PFloat b) =
    (Inr (), (nt\<lparr>nt_total := tt, nt_rows := nt_rows nt @ [row_of ex it a b (k, e)]\<rparr>, PFloat (went_away b e)))"
proof -
  have "ne_conditions e \<noteq> []" using assms(1) by (simp add: entry_ok_def)
  then show ?thesis
    by (intro exI) (simp add: add_node_def bind_def reads_def lift_def node_skipped_def assms(2)
        node_start_watched gone_at_watched [OF assms(1)] andthen_def modify_def row_of_def)
qed

lemma add_nodes_loop:
  assumes "\<forall>x \<in> set xs. entry_ok (snd x)" and "nt_filter nt = None"
  shows "\<exists>tt we. for_each (map (\<lambda>(k, e). (k, entry_json e)) xs) (add_node ex it (PFloat a)) (nt, PFloat b) =
    (Inr (), (nt\<lparr>nt_total := tt, nt_rows := nt_rows nt @ rows_of ex it a b xs\<rparr>, we))"
  using assms
proof (induction xs arbitrary: nt b)
  case Nil
  then show ?case by (intro exI [of _ "nt_total nt"] exI) simp
next
  case (Cons x xs)
  obtain k e where x: "x = (k, e)" by (cases x)
  from Cons.prems x have e: "entry_ok e" by simp
  obtain tt where tt: "add_node ex it (PFloat a) (k, entry_json e) (nt, PFloat b) =
      (Inr (), (nt\<lparr>nt_total := tt, nt_rows := nt_rows nt @ [row_of ex it a b (k, e)]\<rparr>, PFloat (went_away b e)))"
    using add_node_watched [OF e Cons.prems(2)] by blast
  from Cons.IH [of "nt\<lparr>nt_total := tt, nt_rows := nt_rows nt @ [row_of ex it a b (k, e)]\<rparr>" "went_away b e"]
  show ?case using Cons.prems by (simp add: x tt)
qed

lemma rows_of_length [simp]: "length (rows_of ex it a b xs) = length xs"
  by (induction xs arbitrary: b) simp_all

lemma rows_of_ready:
  "\<forall>x \<in> set xs. ne_ready (snd x) \<Longrightarrow> rows_of ex it a b xs = map (row_of ex it a b) xs"
  by (induction xs) (simp_all add: went_away_def)


text \<open>C36. The node records that the watcher saves can always be analysed: for times of a run and without
  a filter no check fails and nothing raises, and each node gets one row. As long as every node
  stayed ready, a row starts when the run or the node started, whichever is later, ends with the
  run, and its uptime is the difference.\<close>

theorem watched_nodes_analysed:
  assumes "nodes_ok s" and "nt_filter nt = None"
    and "add_nodes (nodes_json s) (PFloat a) (PFloat b) ex it nt = (r, nt')"
  shows "r = Inr () \<and> length (nt_rows nt') = length (nt_rows nt) + length (nw_nodes s) \<and>
    ((\<forall>x \<in> set (nw_nodes s). ne_ready (snd x)) \<longrightarrow>
      nt_rows nt' = nt_rows nt @ map (row_of ex it a b) (nw_nodes s))"
proof -
  let ?nt = "nt\<lparr>nt_total := inventory ex it [] (nt_total nt)\<rparr>"
  have "\<forall>x \<in> set (nw_nodes s). entry_ok (snd x)" using assms(1) by (auto simp: nodes_ok_def)
  from add_nodes_loop [OF this, of ?nt ex it a b] assms(2,3) show ?thesis
    by (auto simp: add_nodes_def nodes_json_def Let_def rows_of_ready)
qed


section \<open>Workflow times\<close>

record flow_row =
  fr_experiment :: string
  fr_jobid :: "string option"
  fr_step :: string
  fr_duration :: pyval
  fr_event :: string
  fr_iteration :: int

record flow_times =
  ft_starts :: "(string, (int, pyval) dict) dict"
  ft_ends :: "(string, (int, pyval) dict) dict"
  ft_rows :: "flow_row list"

definition new_flow_times :: flow_times where
  "new_flow_times = \<lparr>ft_starts = [], ft_ends = [], ft_rows = []\<rparr>"

text \<open>\<open>event.rsplit("_", 1)\<close> taken apart into two parts, which raises when there is only one.\<close>

definition rsplit_two :: "string \<Rightarrow> (string \<times> string) res" where
  "rsplit_two s =
     (if CHR ''_'' \<notin> set s then Inl ValueError
      else Inr (rev (tl (dropWhile (\<lambda>c. c \<noteq> CHR ''_'') (rev s))), rev (takeWhile (\<lambda>c. c \<noteq> CHR ''_'') (rev s))))"

definition set_inner :: "string \<Rightarrow> int \<Rightarrow> 'v \<Rightarrow> (string, (int, 'v) dict) dict \<Rightarrow> (string, (int, 'v) dict) dict" where
  "set_inner experiment iteration v d = dict_set experiment (dict_set iteration v (inner d experiment)) d"

definition add_row :: "flow_row \<Rightarrow> (flow_times, unit) act" where
  "add_row r = modify (\<lambda>f. f\<lparr>ft_rows := ft_rows f @ [r]\<rparr>)"

definition workflow_stamp :: "string \<Rightarrow> int \<Rightarrow> pyval \<Rightarrow> string \<times> pyval \<Rightarrow> (flow_times, unit) act" where
  "workflow_stamp experiment iteration stamps = (\<lambda>(name, t).
     andthen (modify (\<lambda>f. f\<lparr>ft_starts := set_inner experiment iteration t (ft_starts f)\<rparr>))
       (bind (lift (py_item stamps ''workflow_complete'')) (\<lambda>e.
        andthen (modify (\<lambda>f. f\<lparr>ft_ends := set_inner experiment iteration e (ft_ends f)\<rparr>))
       (bind (lift (py_sub e t)) (\<lambda>dur.
        add_row \<lparr>fr_experiment = experiment, fr_jobid = None, fr_step = name, fr_duration = dur,
          fr_event = ''workflow_complete'', fr_iteration = iteration\<rparr>)))))"

text \<open>A start is matched with the success of the same label, else with its failure, else dropped.\<close>

definition job_stamp :: "string \<Rightarrow> int \<Rightarrow> pyval \<Rightarrow> string \<times> pyval \<Rightarrow> (flow_times, unit) act" where
  "job_stamp experiment iteration stamps = (\<lambda>(name, t).
     let event = remove_sub ''_start'' name in
     bind (lift (rsplit_two event)) (\<lambda>(jid, step).
     bind (lift (py_contains stamps (event @ ''_succeeded''))) (\<lambda>ok.
     bind (lift (py_contains stamps (event @ ''_failed''))) (\<lambda>bad.
       let row = (\<lambda>dur outcome. \<lparr>fr_experiment = experiment, fr_jobid = Some jid, fr_step = step,
         fr_duration = dur, fr_event = step @ outcome, fr_iteration = iteration\<rparr>) in
       if ok then
         bind (lift (rbind (py_item stamps (event @ ''_succeeded'')) (\<lambda>e. py_sub e t))) (\<lambda>dur.
         add_row (row dur ''_success''))
       else if bad then
         bind (lift (rbind (py_item stamps (event @ ''_failed'')) (\<lambda>e. py_sub e t))) (\<lambda>dur.
         add_row (row dur ''_failure''))
       else ret ()))))"

definition add_stamp :: "string \<Rightarrow> int \<Rightarrow> pyval \<Rightarrow> string \<times> pyval \<Rightarrow> (flow_times, unit) act" where
  "add_stamp experiment iteration stamps x =
     (if substring ''workflow_start'' (fst x) then workflow_stamp experiment iteration stamps x
      else if \<not> substring ''_start'' (fst x) then ret ()
      else job_stamp experiment iteration stamps x)"

text \<open>\<open>update_times_inventory\<close> of the workflow times.\<close>

definition flow_inventory :: "string \<Rightarrow> int \<Rightarrow> flow_times \<Rightarrow> flow_times" where
  "flow_inventory experiment iteration f =
     f\<lparr>ft_starts := inventory experiment iteration (PDict []) (ft_starts f),
       ft_ends := inventory experiment iteration (PDict []) (ft_ends f)\<rparr>"

definition add_experiment :: "pyval \<Rightarrow> string \<Rightarrow> int \<Rightarrow> (flow_times, unit) act" where
  "add_experiment content experiment iteration =
     andthen (modify (flow_inventory experiment iteration))
       (bind (lift (py_item content ''timestamps'')) (\<lambda>stamps. case stamps of
          PDict kvs \<Rightarrow> for_each kvs (add_stamp experiment iteration stamps)
        | _ \<Rightarrow> throw AttributeError))"

subsection \<open>Reading what the manager wrote\<close>

lemma substring_iff: "substring k s \<longleftrightarrow> (\<exists>i. take (length k) (drop i s) = k)"
proof
  assume "\<exists>i. take (length k) (drop i s) = k"
  then obtain i where i: "take (length k) (drop i s) = k" by blast
  then have "take (length k) (drop (min i (length s)) s) = k" by (cases "i \<le> length s") simp_all
  moreover have "min i (length s) \<in> set [0..<Suc (length s)]" by auto
  ultimately show "substring k s" unfolding substring_def list_ex_iff by blast
qed (auto simp: substring_def list_ex_iff)

lemma substring_Cons: "\<not> substring k (c # cs) \<Longrightarrow> \<not> substring k cs"
  unfolding substring_iff by (metis drop_Suc_Cons)

lemma start_straddles:
  assumes "take (length ''_start'') (s @ ''_start'') = ''_start''" and "s \<noteq> []"
  shows "substring ''_start'' s"
proof (cases "length ''_start'' \<le> length s")
  case True
  then have "take (length ''_start'') (drop 0 s) = ''_start''" using assms(1) by (simp only: take_append drop_0) simp
  then show ?thesis unfolding substring_iff by blast
next
  case False
  then have l: "length s < 6" by simp
  have "take (length ''_start'') (s @ ''_start'') ! length s = CHR ''_''"
    using l by (simp add: nth_append)
  then have u: "''_start'' ! length s = CHR ''_''" by (simp only: assms(1))
  have "length s = 1 \<or> length s = 2 \<or> length s = 3 \<or> length s = 4 \<or> length s = 5"
    using l assms(2) length_greater_0_conv [of s] by linarith
  with u show ?thesis by (elim disjE) (simp_all add: numeral_eq_Suc)
qed

lemma remove_start: "\<not> substring ''_start'' s \<Longrightarrow> remove_sub ''_start'' (s @ ''_start'') = s"
proof (induction s)
  case Nil
  show ?case by simp
next
  case (Cons c s)
  then have "take (length ''_start'') ((c # s) @ ''_start'') \<noteq> ''_start''" using start_straddles by blast
  then have "remove_sub ''_start'' ((c # s) @ ''_start'') = c # remove_sub ''_start'' (s @ ''_start'')"
    unfolding append.simps by (subst remove_sub.simps) (simp only: simp_thms if_False)
  then show ?case using Cons.IH substring_Cons [OF Cons.prems] by simp
qed

lemma rsplit_two_result:
  assumes "CHR ''_'' \<notin> set q"
  shows "rsplit_two (p @ CHR ''_'' # q) = Inr (p, q)"
proof -
  have "takeWhile (\<lambda>c. c \<noteq> CHR ''_'') (rev q @ CHR ''_'' # rev p) = rev q"
    using assms by (subst takeWhile_append2) auto
  moreover have "dropWhile (\<lambda>c. c \<noteq> CHR ''_'') (rev q @ CHR ''_'' # rev p) = CHR ''_'' # rev p"
    using assms by (subst dropWhile_append2) auto
  ultimately show ?thesis by (simp add: rsplit_two_def)
qed

lemma last_underscore:
  assumes "CHR ''_'' \<in> set s"
  obtains p q where "s = p @ CHR ''_'' # q" and "CHR ''_'' \<notin> set q"
  using split_list_last [OF assms] by blast

text \<open>C38. The manager stores the times of a job under its label, the identifier and the step joined by an
  underscore, and the analysis takes the label apart again. A started job whose success was stored
  gets exactly one row, with the difference of the two times; the row names the job and its step
  exactly when the step has no underscore in its name, and otherwise attributes a part of the
  step's name to the job.\<close>

theorem job_times_parsed:
  assumes "jobid j = Some jid" and "step_name j = Some st"
    and "\<not> substring ''_start'' (job_label j)" and "\<not> substring ''workflow_start'' (job_label j @ ''_start'')"
    and "dict_get stamps (job_label j @ ''_succeeded'') = Some (PFloat t1)"
  shows "\<exists>row p. add_stamp ex it (PDict stamps) (job_label j @ ''_start'', PFloat t0) f =
      (Inr (), f\<lparr>ft_rows := ft_rows f @ [row]\<rparr>) \<and>
    fr_jobid row = Some p \<and> p @ ''_'' @ fr_step row = job_label j \<and>
    fr_duration row = PFloat (to_double (t1 - t0)) \<and> fr_event row = fr_step row @ ''_success'' \<and>
    ((p, fr_step row) = (jid, st) \<longleftrightarrow> CHR ''_'' \<notin> set st)"
proof -
  have label: "job_label j = jid @ CHR ''_'' # st" using assms(1,2) by (simp add: job_label_def fmt_def)
  then have "CHR ''_'' \<in> set (job_label j)" by simp
  then obtain p q where pq: "job_label j = p @ CHR ''_'' # q" "CHR ''_'' \<notin> set q" by (rule last_underscore)
  have start: "substring ''_start'' (job_label j @ ''_start'')"
    unfolding substring_iff by (rule exI [of _ "length (job_label j)"]) simp
  have split: "rsplit_two (remove_sub ''_start'' (job_label j @ ''_start'')) = Inr (p, q)"
    unfolding remove_start [OF assms(3)] unfolding pq(1) by (rule rsplit_two_result [OF pq(2)])
  have iff: "(p, q) = (jid, st) \<longleftrightarrow> CHR ''_'' \<notin> set st"
  proof
    assume "CHR ''_'' \<notin> set st"
    then have "rsplit_two (job_label j) = Inr (jid, st)" by (simp add: label rsplit_two_result)
    then show "(p, q) = (jid, st)" using rsplit_two_result [OF pq(2)] pq(1) by simp
  qed (use pq(2) in simp)
  have "add_stamp ex it (PDict stamps) (job_label j @ ''_start'', PFloat t0) f =
      (Inr (), f\<lparr>ft_rows := ft_rows f @ [\<lparr>fr_experiment = ex, fr_jobid = Some p, fr_step = q,
         fr_duration = PFloat (to_double (t1 - t0)), fr_event = q @ ''_success'', fr_iteration = it\<rparr>]\<rparr>)"
    using assms(4,5) start split
    by (simp add: add_stamp_def job_stamp_def Let_def remove_start [OF assms(3)] bind_def lift_def dict_in_def
        dict_at_def add_row_def modify_def)
  moreover have "p @ ''_'' @ q = job_label j" by (simp add: pq(1))
  ultimately show ?thesis using iff by fastforce
qed

section \<open>Examples\<close>

text \<open>Two nodes of which the first went away at 300, in a run from 110 to 500.\<close>

definition example_records :: "rat node_watch" where
  "example_records = \<lparr>nw_nodes =
     [(''node-1'', example_entry [example_ready 120 True 200, example_ready 300 False 301] False),
      (''node-2'', example_entry [example_ready 100 True 200] True)], nw_world = 302\<rparr>"

lemma example_records_ok: "nodes_ok example_records" "nodes_ok example_watch"
  by (simp_all add: nodes_ok_def example_records_def example_watch_def dict_keys_def entry_ok_def example_entry_def
      example_ready_def)

definition example_times :: node_times where
  "example_times = new_node_times None ''node.kubernetes.io/instance-type''"

theorem watched_nodes_analysed_witness:
  "fst (add_nodes (nodes_json example_watch) (PFloat 110) (PFloat 500) ''default'' 0 example_times) = Inr ()"
  using watched_nodes_analysed [OF example_records_ok(2), of example_times 110 500 "''default''" 0]
  by (cases "add_nodes (nodes_json example_watch) (PFloat 110) (PFloat 500) ''default'' 0 example_times")
    (simp add: example_times_def new_node_times_def)


definition analysed_job :: wjob where
  "analysed_job = \<lparr>jobid = Some ''job_7'', step_name = Some ''job_a'', always_succeed = False, is_active = False,
     is_completed = True, job_failed = False, job_succeeded = True, duration = None\<rparr>"

theorem job_times_parsed_witness:
  "\<exists>row. add_stamp ''default'' 0 (PDict [(''job_7_job_a_succeeded'', PFloat 9)]) (''job_7_job_a_start'', PFloat 2) new_flow_times
     = (Inr (), new_flow_times\<lparr>ft_rows := [row]\<rparr>) \<and> fr_jobid row \<noteq> Some ''job_7''"
proof -
  have j: "jobid analysed_job = Some ''job_7''" "step_name analysed_job = Some ''job_a''"
    "job_label analysed_job = ''job_7_job_a''"
    by (simp_all add: analysed_job_def job_label_def fmt_def)
  have s: "\<not> substring ''_start'' (job_label analysed_job)" "\<not> substring ''workflow_start'' (job_label analysed_job @ ''_start'')"
    unfolding j(3) by code_simp+
  from job_times_parsed [OF j(1,2) s, of "[(''job_7_job_a_succeeded'', PFloat 9)]" 9 "''default''" 0 2 new_flow_times]
  show ?thesis by (auto simp: j(3) new_flow_times_def)
qed

end
