(* ===== verification/Gantt.thy ===== *)
theory Gantt
  imports Times_Analysis Kube_Tracker "HOL-Library.Multiset"
begin

text \<open>
  The chart of node uptimes: \<open>generate_colors\<close> and \<open>to_gantt\<close> of \<open>analysis/manager.py\<close>. What is
  modelled is what is drawn where: the bars of every plot with their place, width and colour, the
  common limit of the axes and the titles. The plotting library is left out but for two facts it
  documents: it makes no figure of no plots, and it hands out one plot by itself and only several
  plots as an array.
\<close>

section \<open>Colours\<close>

text \<open>\<open>palette n\<close> are the hex codes of a palette of \<open>n\<close> colours.\<close>

fun assign_colors :: "string list \<Rightarrow> string list \<Rightarrow> (string, string) dict \<Rightarrow> (string, string) dict res" where
  "assign_colors [] cs acc = Inr acc"
| "assign_colors (x # xs) [] acc = Inl IndexError"
| "assign_colors (x # xs) (c # cs) acc = assign_colors xs cs (dict_set x c acc)"

definition generate_colors :: "(nat \<Rightarrow> string list) \<Rightarrow> string list \<Rightarrow> (string, string) dict res" where
  "generate_colors palette items = assign_colors items (palette (length items)) []"

section \<open>Plots\<close>

record bar =
  b_y :: string
  b_width :: pyval
  b_left :: pyval
  b_color :: string

record plot =
  p_title :: string
  p_limit :: pyval
  p_bars :: "bar list"

text \<open>\<open>unique()\<close>: the values of a column in the order of their first occurrence.\<close>

definition uniques :: "'a list \<Rightarrow> 'a list" where
  "uniques xs = rev (remdups (rev xs))"

definition experiments :: "node_row list \<Rightarrow> string list" where
  "experiments rows = uniques (map nr_experiment rows)"

definition iterations :: "node_row list \<Rightarrow> string \<Rightarrow> int list" where
  "iterations rows e = uniques (map nr_iteration (filter (\<lambda>r. nr_experiment r = e) rows))"

text \<open>The first pair of loops counts the plots, the second goes through them.\<close>

definition number_plots :: "node_row list \<Rightarrow> nat" where
  "number_plots rows = sum_list (map (\<lambda>e. length (iterations rows e)) (experiments rows))"

definition sheets :: "node_row list \<Rightarrow> (string \<times> int) list" where
  "sheets rows = concat (map (\<lambda>e. map (Pair e) (sort (iterations rows e))) (experiments rows))"

definition normalized :: "(node_row \<Rightarrow> pyval) \<Rightarrow> node_row list \<Rightarrow> pyval list res" where
  "normalized col rows = rmap (\<lambda>r. py_sub (col r) (nr_workflow_start r)) rows"

text \<open>\<open>max()\<close> of a column, no number for an empty one.\<close>

fun column_max :: "pyval list \<Rightarrow> pyval res" where
  "column_max [] = Inr PNone"
| "column_max [x] = Inr x"
| "column_max (x # y # ys) = rbind (py_max x y) (\<lambda>z. column_max (z # ys))"

definition upper_char :: "char \<Rightarrow> char" where
  "upper_char c = (let n = of_char c :: nat in if 97 \<le> n \<and> n \<le> 122 then char_of (n - 32) else c)"

definition capitalize :: "string \<Rightarrow> string" where
  "capitalize s = (case s of [] \<Rightarrow> [] | c # cs \<Rightarrow> upper_char c # lower cs)"

definition draw_bar :: "(string, string) dict \<Rightarrow> node_row \<times> pyval \<Rightarrow> bar res" where
  "draw_bar colors = (\<lambda>(r, left).
     rbind (dict_at colors (nr_experiment r)) (\<lambda>c.
     Inr \<lparr>b_y = nr_instance r, b_width = nr_uptime r, b_left = left, b_color = c\<rparr>))"

definition draw_plot :: "(string, string) dict \<Rightarrow> pyval \<Rightarrow> (node_row \<times> pyval) list \<Rightarrow> string \<times> int \<Rightarrow> plot res" where
  "draw_plot colors limit rows = (\<lambda>(e, i).
     rbind (rmap (draw_bar colors) (filter (\<lambda>(r, _). nr_experiment r = e \<and> nr_iteration r = i) rows)) (\<lambda>bs.
     Inr \<lparr>p_title = capitalize e @ '' cluster iteration '' @ show_int i, p_limit = limit, p_bars = bs\<rparr>))"

definition to_gantt :: "(nat \<Rightarrow> string list) \<Rightarrow> (string, string) dict \<Rightarrow> node_row list \<Rightarrow> plot list res" where
  "to_gantt palette given rows =
     rbind (normalized nr_start rows) (\<lambda>lefts.
     rbind (normalized nr_down rows) (\<lambda>ends.
     rbind (column_max ends) (\<lambda>limit.
     rbind (if given \<noteq> [] then Inr given else generate_colors palette (experiments rows)) (\<lambda>colors.
       if number_plots rows = 0 then Inl ValueError
       else if number_plots rows = 1 then Inl TypeError
       else rmap (draw_plot colors limit (zip rows lefts)) (sheets rows)))))"

section \<open>Every row is drawn once\<close>

lemma uniques_set [simp]: "set (uniques xs) = set xs" "distinct (uniques xs)"
  by (simp_all add: uniques_def)

lemma sheets_length: "length (sheets rows) = number_plots rows"
  by (simp add: sheets_def number_plots_def length_concat comp_def)

lemma sheets_set: "set (sheets rows) = (\<lambda>r. (nr_experiment r, nr_iteration r)) ` set rows"
proof -
  have "(e, i) \<in> set (sheets rows) \<longleftrightarrow> (e, i) \<in> (\<lambda>r. (nr_experiment r, nr_iteration r)) ` set rows" for e i
    by (simp add: sheets_def experiments_def iterations_def image_iff) metis
  then show ?thesis by auto
qed

lemma distinct_pairs: "distinct es \<Longrightarrow> (\<And>e. distinct (f e)) \<Longrightarrow> distinct (concat (map (\<lambda>e. map (Pair e) (f e)) es))"
  by (induction es) (auto simp: distinct_map inj_on_def)

lemma sheets_distinct: "distinct (sheets rows)"
  unfolding sheets_def by (rule distinct_pairs) (simp_all add: experiments_def iterations_def)

lemma grouped:
  assumes "distinct ks" and "\<forall>x \<in> set xs. f x \<in> set ks"
  shows "mset (concat (map (\<lambda>k. filter (\<lambda>x. f x = k) xs) ks)) = mset xs"
  using assms(2)
proof (induction xs)
  case Nil
  then show ?case by (induction ks) simp_all
next
  case (Cons x xs)
  have "mset (concat (map (\<lambda>k. filter (\<lambda>y. f y = k) (x # xs)) ks)) =
      (if f x \<in> set ks then {#x#} else {#}) + mset (concat (map (\<lambda>k. filter (\<lambda>y. f y = k) xs) ks))"
    using assms(1) by (induction ks) auto
  with Cons show ?case by simp
qed

lemma rmap_map: "rmap f xs = Inr ys \<Longrightarrow> (\<And>x y. f x = Inr y \<Longrightarrow> g y = h x) \<Longrightarrow> map g ys = map h xs"
  by (induction xs arbitrary: ys) (auto simp: rbind_Inr_iff)

definition bar_of :: "node_row \<Rightarrow> string \<times> pyval" where
  "bar_of r = (nr_instance r, nr_uptime r)"

lemma draw_plot_bars:
  assumes "draw_plot colors limit rows k = Inr p"
  shows "map (\<lambda>b. (b_y b, b_width b)) (p_bars p) =
    map (bar_of \<circ> fst) (filter (\<lambda>x. (nr_experiment (fst x), nr_iteration (fst x)) = k) rows)"
proof -
  obtain e i where k: "k = (e, i)" by (cases k)
  obtain bs where r: "rmap (draw_bar colors) (filter (\<lambda>(r, _). nr_experiment r = e \<and> nr_iteration r = i) rows) = Inr bs"
    and p: "p_bars p = bs"
    using assms by (auto simp: draw_plot_def k rbind_Inr_iff)
  have "(b_y y, b_width y) = (bar_of \<circ> fst) x" if "draw_bar colors x = Inr y" for x y
    using that by (cases x) (auto simp: draw_bar_def rbind_Inr_iff bar_of_def)
  from rmap_map [OF r, of "\<lambda>b. (b_y b, b_width b)" "bar_of \<circ> fst", OF this] show ?thesis
    by (simp add: p k case_prod_unfold)
qed

text \<open>A chart that is drawn shows every row of the table exactly once, as a bar of its node and its uptime in the plot of
  its experiment and iteration, and it has a plot for each of them. A chart of a single experiment and iteration is
  never drawn, because one plot alone cannot be indexed.\<close>

theorem gantt_complete:
  assumes "to_gantt palette given rows = Inr ps"
  shows "2 \<le> length ps \<and> length ps = card ((\<lambda>r. (nr_experiment r, nr_iteration r)) ` set rows) \<and>
    mset (map (\<lambda>b. (b_y b, b_width b)) (concat (map p_bars ps))) = mset (map (\<lambda>r. (nr_instance r, nr_uptime r)) rows)"
proof -
  obtain lefts limit colors where l: "normalized nr_start rows = Inr lefts"
    and n: "number_plots rows \<noteq> 0" "number_plots rows \<noteq> 1"
    and ps: "rmap (draw_plot colors limit (zip rows lefts)) (sheets rows) = Inr ps"
    using assms by (auto simp: to_gantt_def rbind_Inr_iff split: if_splits)
  have len: "length lefts = length rows" using rmap_length l by (auto simp: normalized_def)
  have "length ps = length (sheets rows)" by (rule rmap_length [OF ps])
  moreover have "length (sheets rows) = card (set (sheets rows))"
    using sheets_distinct by (simp add: distinct_card)
  ultimately have c: "length ps = card ((\<lambda>r. (nr_experiment r, nr_iteration r)) ` set rows)" "length ps = number_plots rows"
    by (simp_all add: sheets_set sheets_length)
  have "2 \<le> length ps" using n unfolding c(2) by linarith
  let ?key = "\<lambda>x :: node_row \<times> pyval. (nr_experiment (fst x), nr_iteration (fst x))"
  have "map (\<lambda>p. map (\<lambda>b. (b_y b, b_width b)) (p_bars p)) ps =
      map (\<lambda>k. map (bar_of \<circ> fst) (filter (\<lambda>x. ?key x = k) (zip rows lefts))) (sheets rows)"
    by (rule rmap_map [OF ps]) (rule draw_plot_bars)
  then have "map (\<lambda>b. (b_y b, b_width b)) (concat (map p_bars ps)) =
      map (bar_of \<circ> fst) (concat (map (\<lambda>k. filter (\<lambda>x. ?key x = k) (zip rows lefts)) (sheets rows)))"
    by (simp add: map_concat comp_def)
  then have "mset (map (\<lambda>b. (b_y b, b_width b)) (concat (map p_bars ps))) =
      image_mset (bar_of \<circ> fst) (mset (concat (map (\<lambda>k. filter (\<lambda>x. ?key x = k) (zip rows lefts)) (sheets rows))))"
    by simp
  also have "mset (concat (map (\<lambda>k. filter (\<lambda>x. ?key x = k) (zip rows lefts)) (sheets rows))) = mset (zip rows lefts)"
    by (rule grouped [OF sheets_distinct]) (auto simp: sheets_set dest: set_zip_leftD)
  also have "image_mset (bar_of \<circ> fst) (mset (zip rows lefts)) = mset (map bar_of rows)"
    using len by (simp flip: mset_map) (simp flip: map_map)
  finally show ?thesis using c(1) \<open>2 \<le> length ps\<close> by (simp add: bar_of_def [abs_def])
qed

definition gantt_row :: "string \<Rightarrow> string \<Rightarrow> int \<Rightarrow> int \<Rightarrow> node_row" where
  "gantt_row n e i up = \<lparr>nr_instance = n, nr_experiment = e, nr_iteration = i, nr_start = PInt 0, nr_down = PInt up,
     nr_uptime = PInt up, nr_workflow_start = PInt 0, nr_workflow_end = PInt up\<rparr>"

theorem gantt_complete_witness:
  "\<exists>ps. to_gantt (\<lambda>n. replicate n ''#4878d0'') [] [gantt_row ''n1'' ''static'' 0 5, gantt_row ''n1'' ''static'' 1 7,
       gantt_row ''n2'' ''static'' 1 6] = Inr ps \<and> length ps = 2"
proof -
  let ?rows = "[gantt_row ''n1'' ''static'' 0 5, gantt_row ''n1'' ''static'' 1 7, gantt_row ''n2'' ''static'' 1 6]"
  let ?g = "to_gantt (\<lambda>n. replicate n ''#4878d0'') [] ?rows"
  have "case ?g of Inl _ \<Rightarrow> False | Inr _ \<Rightarrow> True" by code_simp
  then obtain ps where ps: "?g = Inr ps" by (auto split: sum.splits)
  from gantt_complete [OF ps] have "length ps = card {(''static'', 0::int), (''static'', 1)}"
    by (simp add: gantt_row_def)
  with ps show ?thesis by simp
qed

end
