(* ===== verification/Kube_Events.thy ===== *)
theory Kube_Events
  imports Kube_Tracker
begin

text \<open>
  Custom metrics as events of the cluster: \<open>send_kubernetes_event\<close> of
  \<open>tracker/kubernetes/tracker.py\<close> makes an event of the metrics that were read from a log, and
  \<open>receive_metrics\<close> of \<open>tracker/kubernetes/event.py\<close> collects the messages of such events. Nothing
  starts either of them at this commit; they are the two ends of one channel.
\<close>

section \<open>Events\<close>

record job_reference =
  jr_namespace :: string
  jr_name :: string
  jr_uid :: string

record kube_event =
  ev_generate_name :: string
  ev_involved :: job_reference
  ev_reason :: string
  ev_message :: "string option"
  ev_first :: string
  ev_last :: string
  ev_type :: string
  ev_component :: string

text \<open>
  \<open>utcnow\<close> is the formatted time, \<open>create\<close> the call of the server. What the call raises is printed
  and dropped; the labels are read before it and not guarded.
\<close>

definition metric_event :: "kube_lib \<Rightarrow> string \<Rightarrow> pod \<Rightarrow> pyval \<Rightarrow> kube_event res" where
  "metric_event L now p metrics =
     rbind (dict_at (pod_labels p) ''job-name'') (\<lambda>job_name.
     rbind (dict_at (pod_labels p) ''controller-uid'') (\<lambda>job_uid.
     Inr \<lparr>ev_generate_name = job_name,
       ev_involved = \<lparr>jr_namespace = pod_namespace p, jr_name = job_name, jr_uid = job_uid\<rparr>,
       ev_reason = ''CustomMetric'', ev_message = Some (l_dumps L metrics), ev_first = now, ev_last = now,
       ev_type = ''Normal'', ev_component = ''state-machine''\<rparr>))"

definition send_kubernetes_event ::
  "kube_lib \<Rightarrow> ('w, string) act \<Rightarrow> (string \<Rightarrow> kube_event \<Rightarrow> ('w, unit) api) \<Rightarrow> pod \<Rightarrow> pyval \<Rightarrow> ('w, pyval) act" where
  "send_kubernetes_event L utcnow create p metrics =
     bind utcnow (\<lambda>now.
     bind (lift (metric_event L now p metrics)) (\<lambda>ev.
     andthen (api_try (create (pod_namespace p) ev) (\<lambda>_. ret ()))
       (ret metrics)))"

text \<open>One event of the stream, on the queue \<open>self.metrics\<close> of the watcher; the stream is what was delivered so far.\<close>

definition receive_event :: "string option list \<Rightarrow> kube_event \<Rightarrow> string option list" where
  "receive_event queue ev = (if ev_reason ev = ''CustomMetric'' then queue @ [ev_message ev] else queue)"

definition receive_metrics :: "kube_event list \<Rightarrow> string option list \<Rightarrow> string option list" where
  "receive_metrics stream queue = foldl receive_event queue stream"

section \<open>From the log to the manager\<close>

text \<open>The documented behaviour of the server: an event that is accepted joins the events of its
  namespace, a refused one does not.\<close>

definition event_server :: "(string \<Rightarrow> kube_event \<Rightarrow> ('w, unit) api) \<Rightarrow> (string \<Rightarrow> 'w \<Rightarrow> kube_event list) \<Rightarrow> bool" where
  "event_server create events \<longleftrightarrow> (\<forall>ns ev w r w'. create ns ev w = (r, w') \<longrightarrow>
     (\<forall>n. events n w' = events n w @ (if r = Inr () \<and> n = ns then [ev] else [])))"

lemma api_try_dropped: "api_try m (\<lambda>_. ret ()) w = (Inr (), snd (m w))"
  by (simp add: api_try_def ret_def split: prod.split sum.split)

lemma receive_metrics_append: "receive_metrics (es @ fs) q = receive_metrics fs (receive_metrics es q)"
  by (simp add: receive_metrics_def)

lemma receive_metrics_queue:
  "receive_metrics es q = q @ map ev_message (filter (\<lambda>e. ev_reason e = ''CustomMetric'') es)"
  by (induction es arbitrary: q) (auto simp: receive_metrics_def receive_event_def)

text \<open>What is sent is received: after sending the metrics of a pod, the watcher of the pod's namespace
  finds, besides the messages it would have found anyway, the text of the metrics, once, when the
  server accepted the event, and nothing when it did not; a watcher of any other namespace finds
  nothing new. The metrics come back to the caller in either case. The text is that of the metrics
  alone: it names neither the job nor its step.\<close>

theorem sent_metrics_received:
  assumes "event_server create events" and "\<And>n es. keeps (\<lambda>w. events n w = es) utcnow"
    and "send_kubernetes_event L utcnow create p metrics w = (Inr v, w')"
  shows "v = metrics \<and> (\<exists>ok. \<forall>n. receive_metrics (events n w') [] = receive_metrics (events n w) [] @
    (if ok \<and> n = pod_namespace p then [Some (l_dumps L metrics)] else []))"
proof -
  obtain now w1 ev where now: "utcnow w = (Inr now, w1)" and ev: "metric_event L now p metrics = Inr ev"
    and v: "v = metrics" and w': "w' = snd (create (pod_namespace p) ev w1)"
    using assms(3)
    by (auto simp: send_kubernetes_event_def bind_Inr_iff andthen_Inr_iff lift_eval ret_eval api_try_dropped)
  obtain r where c: "create (pod_namespace p) ev w1 = (r, w')" using w' by (metis prod.collapse)
  have msg: "ev_reason ev = ''CustomMetric''" "ev_message ev = Some (l_dumps L metrics)"
    using ev by (auto simp: metric_event_def rbind_Inr_iff)
  have "events n w' = events n w @ (if r = Inr () \<and> n = pod_namespace p then [ev] else [])" for n
    using assms(1) c keepsD [OF assms(2) refl now] unfolding event_server_def by metis
  then have "receive_metrics (events n w') [] = receive_metrics (events n w) [] @
      (if r = Inr () \<and> n = pod_namespace p then [Some (l_dumps L metrics)] else [])" for n
    by (simp add: receive_metrics_queue msg)
  then show ?thesis using v by blast
qed

definition example_events :: "string \<Rightarrow> kube_event \<Rightarrow> ((string \<times> kube_event) list, unit) api" where
  "example_events ns ev w = (Inr (), w @ [(ns, ev)])"

definition events_in :: "string \<Rightarrow> (string \<times> kube_event) list \<Rightarrow> kube_event list" where
  "events_in ns w = map snd (filter (\<lambda>(n, _). n = ns) w)"

definition metric_pod :: pod where
  "metric_pod = \<lparr>pod_name = ''job-a-x'', pod_namespace = ''default'',
     pod_labels = [(''job-name'', ''job-a''), (''controller-uid'', ''42'')]\<rparr>"

definition metric_lib :: kube_lib where
  "metric_lib = \<lparr>l_loads = (\<lambda>s. Inl ValueError), l_dumps = (\<lambda>v. ''{}''), l_render = (\<lambda>t args. Inr t), l_repr = (\<lambda>v. [])\<rparr>"

theorem sent_metrics_received_witness:
  "\<exists>w'. send_kubernetes_event metric_lib (ret ''2024'') example_events metric_pod (PDict []) [] = (Inr (PDict []), w') \<and>
     receive_metrics (events_in ''other'' w') [] = []"
proof -
  have s: "event_server example_events events_in"
    by (auto simp: event_server_def example_events_def events_in_def)
  have t: "keeps (\<lambda>w. events_in n w = es) (ret ''2024'')" for n es by (rule keeps_ret)
  let ?go = "send_kubernetes_event metric_lib (ret ''2024'') example_events metric_pod (PDict []) []"
  have e: "fst ?go = Inr (PDict [])"
    by (simp add: send_kubernetes_event_def metric_event_def metric_pod_def dict_at_def bind_def lift_def ret_def
        andthen_def api_try_def example_events_def)
  then have g: "?go = (Inr (PDict []), snd ?go)" by (metis prod.collapse)
  from sent_metrics_received [OF s t g] have "receive_metrics (events_in ''other'' (snd ?go)) [] =
      receive_metrics (events_in ''other'' []) []"
    by (auto simp: metric_pod_def)
  then have "receive_metrics (events_in ''other'' (snd ?go)) [] = []"
    by (simp add: events_in_def receive_metrics_def)
  with g show ?thesis by blast
qed

end
