(* ===== verification/Manager_Utils.thy ===== *)
theory Manager_Utils
  imports Tracker_Interface
begin

text \<open>
  The helpers around calls of \<open>manager/utils.py\<close>, \<open>retry\<close>, \<open>timed_function\<close> and \<open>timeout\<close>, the
  periodic thread of \<open>tracker/heartbeat.py\<close>, the files and directories of \<open>utils.py\<close> and the lookups of
  \<open>tracker/kubernetes/utils.py\<close>. The clock, sleeping, the alarm of the process and
  the waiting for the stop event are parameters.
\<close>

section \<open>Retrying\<close>

text \<open>
  The loop of \<open>retry\<close>: \<open>n\<close> attempts are left of which \<open>k\<close> were made. Each failure is followed by a
  pause of \<open>timeout + 3**k\<close> seconds; after the last attempt the function is called once more
  outside the \<open>try\<close>.
\<close>

fun retry_loop :: "(nat \<Rightarrow> ('w, unit) act) \<Rightarrow> ('w, 'a) act \<Rightarrow> nat \<Rightarrow> nat \<Rightarrow> nat \<Rightarrow> ('w, 'a) act" where
  "retry_loop sleep f timeout k 0 = f"
| "retry_loop sleep f timeout k (Suc n) =
     attempt f (\<lambda>_. andthen (sleep (timeout + 3 ^ k)) (retry_loop sleep f timeout (Suc k) n))"

definition retry :: "(nat \<Rightarrow> ('w, unit) act) \<Rightarrow> nat \<Rightarrow> nat \<Rightarrow> ('w, 'a) act \<Rightarrow> ('w, 'a) act" where
  "retry sleep attempts timeout f = retry_loop sleep f timeout 0 attempts"

text \<open>A function that counts its calls and answers the \<open>k\<close>-th one with \<open>answer k\<close>, and a sleep that
  notes its pauses: every deterministic function and environment looks like this to \<open>retry\<close>.\<close>

definition counted :: "(nat \<Rightarrow> 'a res) \<Rightarrow> (nat \<times> nat list, 'a) act" where
  "counted answer = (\<lambda>(calls, pauses). (answer calls, (Suc calls, pauses)))"

definition noted :: "nat \<Rightarrow> (nat \<times> nat list, unit) act" where
  "noted seconds = modify (\<lambda>(calls, pauses). (calls, pauses @ [seconds]))"

definition raises :: "'a res \<Rightarrow> bool" where
  "raises r \<longleftrightarrow> (case r of Inl e \<Rightarrow> caught e | Inr _ \<Rightarrow> False)"

lemma counted_eval: "counted answer (c, p) = (answer c, (Suc c, p))" "noted t (c, p) = (Inr (), (c, p @ [t]))"
  by (simp_all add: counted_def noted_def modify_def)

lemma retry_loop_step:
  assumes "raises (answer k)"
  shows "retry_loop noted (counted answer) timeout k (Suc n) (k, ps) =
    retry_loop noted (counted answer) timeout (Suc k) n (Suc k, ps @ [timeout + 3 ^ k])"
  using assms by (simp add: raises_def attempt_def counted_eval andthen_def bind_def split: sum.splits)

lemma retry_loop_run:
  assumes "\<forall>i < m. raises (answer (k + i))" and "m \<le> n" and "m = n \<or> \<not> raises (answer (k + m))"
  shows "retry_loop noted (counted answer) timeout k n (k, ps) =
    (answer (k + m), (Suc (k + m), ps @ map (\<lambda>i. timeout + 3 ^ i) [k..<k + m]))"
  using assms
proof (induction n arbitrary: k m ps)
  case 0
  then show ?case by (simp add: counted_def)
next
  case (Suc n)
  show ?case
  proof (cases m)
    case 0
    with Suc.prems(3) have "\<not> raises (answer k)" by simp
    then show ?thesis using 0 by (auto simp: attempt_def counted_def raises_def split: sum.splits)
  next
    case (Suc m')
    have r: "raises (answer k)" using Suc.prems(1) Suc by force
    have "retry_loop noted (counted answer) timeout (Suc k) n (Suc k, ps @ [timeout + 3 ^ k]) =
        (answer (Suc k + m'), (Suc (Suc k + m'), (ps @ [timeout + 3 ^ k]) @ map (\<lambda>i. timeout + 3 ^ i) [Suc k..<Suc k + m']))"
      by (rule Suc.IH) (use Suc.prems Suc in \<open>auto simp: less_Suc_eq_0_disj\<close>)
    moreover have "[k..<Suc (k + m')] = k # [Suc k..<Suc (k + m')]" by (rule upt_conv_Cons) simp
    ultimately show ?thesis unfolding Suc retry_loop_step [where answer = answer and k = k, OF r] by simp
  qed
qed

text \<open>C39. Retrying always ends: after \<open>k\<close> failures, where \<open>k\<close> is at most the number of attempts and either
  all attempts are used up or the next call raises nothing that is caught, the function has been called \<open>k + 1\<close>
  times with pauses of \<open>timeout + 1\<close>, \<open>timeout + 3\<close>, \<open>timeout + 9\<close> and so on in between, and the
  answer of the last call is the result, its exception included.\<close>

theorem retry_ends:
  assumes "\<forall>i < k. raises (answer i)" and "k \<le> attempts" and "k = attempts \<or> \<not> raises (answer k)"
  shows "retry noted attempts timeout (counted answer) (0, []) =
    (answer k, (Suc k, map (\<lambda>i. timeout + 3 ^ i) [0..<k]))"
  using retry_loop_run [of k answer 0 attempts timeout "[]"] assms by (simp add: retry_def)

theorem retry_ends_witness:
  "retry noted 5 2 (counted (\<lambda>i. if i < 2 then Inl ValueError else Inr ''ok'')) (0, []) =
     (Inr ''ok'', (3, [3, 5]))"
  using retry_ends [of 2 "\<lambda>i. if i < 2 then Inl ValueError else Inr ''ok''" 5 2]
  by (simp add: raises_def numeral_2_eq_2 numeral_3_eq_3 del: One_nat_def)

section \<open>Timing\<close>

definition timed_function :: "('w, rat) act \<Rightarrow> ('w, 'a) act \<Rightarrow> ('w, 'a \<times> rat) act" where
  "timed_function clock f =
     bind clock (\<lambda>start. bind f (\<lambda>r. bind clock (\<lambda>end. ret (r, to_double (end - start)))))"

text \<open>\<open>with timeout(seconds)\<close>: the alarm is set for the block and cleared when it is left, by an
  exception as well.\<close>

definition with_timeout :: "(nat \<Rightarrow> 'w \<Rightarrow> 'w) \<Rightarrow> nat \<Rightarrow> ('w, 'a) act \<Rightarrow> ('w, 'a) act" where
  "with_timeout alarm seconds body w = (case body (alarm seconds w) of (r, w') \<Rightarrow> (r, alarm 0 w'))"

section \<open>The heartbeat\<close>

definition interrupt :: "exn \<Rightarrow> bool" where
  "interrupt e \<longleftrightarrow> e = OtherError ''KeyboardInterrupt'' \<or> e = OtherError ''GracefulExit''"

text \<open>\<open>run\<close>: the list says for every wait whether the stop event was set before the interval was
  over; a run that is still waiting has got to the end of its list.\<close>

fun heartbeat_run :: "('w, unit) act \<Rightarrow> bool list \<Rightarrow> ('w, unit) act" where
  "heartbeat_run callback [] w = (Inr (), w)"
| "heartbeat_run callback (stopped # waits) w =
     (if stopped then (Inr (), w)
      else (case callback w of
          (Inl e, w') \<Rightarrow> (if interrupt e then (Inr (), w') else (Inl e, w'))
        | (Inr _, w') \<Rightarrow> heartbeat_run callback waits w'))"

text \<open>
  The thread object: its interval, and the stop event, which \<open>stop\<close> sets; the wait ends at once then.
  The handler of the signals that end the process raises.
\<close>

record heartbeat =
  hb_interval :: nat
  hb_stopped :: bool

definition new_heartbeat :: "nat \<Rightarrow> heartbeat" where
  "new_heartbeat interval_seconds = \<lparr>hb_interval = interval_seconds, hb_stopped = False\<rparr>"

definition heartbeat_stop :: "(heartbeat, unit) act" where
  "heartbeat_stop = modify (\<lambda>h. h\<lparr>hb_stopped := True\<rparr>)"

definition signal_handler :: "('w, unit) act" where
  "signal_handler = throw (OtherError ''GracefulExit'')"

section \<open>Files and directories\<close>

text \<open>The contents of files, or \<open>None\<close> where there is none.\<close>

definition read_file :: "(string \<Rightarrow> string option) \<Rightarrow> string \<Rightarrow> string res" where
  "read_file files name = (case files name of None \<Rightarrow> Inl (OtherError ''FileNotFoundError'') | Some c \<Rightarrow> Inr c)"

definition read_json :: "(string \<Rightarrow> pyval res) \<Rightarrow> (string \<Rightarrow> string option) \<Rightarrow> string \<Rightarrow> pyval res" where
  "read_json json_loads files name = rbind (read_file files name) json_loads"

text \<open>\<open>open(filename, "w")\<close> makes the file empty before the content is computed.\<close>

definition write_json :: "(pyval \<Rightarrow> string res) \<Rightarrow> pyval \<Rightarrow> string \<Rightarrow> (string \<Rightarrow> string option, unit) act" where
  "write_json json_dumps obj name =
     andthen (modify (\<lambda>files. files(name \<mapsto> [])))
       (bind (lift (json_dumps obj)) (\<lambda>c. modify (\<lambda>files. files(name \<mapsto> c))))"

definition write_file :: "string \<Rightarrow> string \<Rightarrow> (string \<Rightarrow> string option, unit) act" where
  "write_file content name = modify (\<lambda>files. files(name \<mapsto> content))"

text \<open>\<open>yaml_dump\<close> gives the text that reaches the file and whether the value could be written to its end.\<close>

definition write_yaml :: "(pyval \<Rightarrow> string \<times> unit res) \<Rightarrow> pyval \<Rightarrow> string \<Rightarrow> (string \<Rightarrow> string option, unit) act" where
  "write_yaml yaml_dump obj name =
     (case yaml_dump obj of (text, r) \<Rightarrow> andthen (modify (\<lambda>files. files(name \<mapsto> text))) (lift r))"

text \<open>The body runs in the directory; the old one is entered again however the body ends.\<close>

definition in_workdir :: "('w, string) act \<Rightarrow> (string \<Rightarrow> ('w, unit) act) \<Rightarrow> string \<Rightarrow> ('w, 'a) act \<Rightarrow> ('w, 'a) act" where
  "in_workdir getcwd chdir dir body =
     bind getcwd (\<lambda>here. andthen (chdir dir) (\<lambda>w. case body w of
       (r, w1) \<Rightarrow> (case chdir here w1 of (Inl e, w2) \<Rightarrow> (Inl e, w2) | (Inr _, w2) \<Rightarrow> (r, w2))))"

definition get_tmpdir ::
  "('w, string) act \<Rightarrow> ('w, string) act \<Rightarrow> (string \<Rightarrow> 'w \<Rightarrow> bool) \<Rightarrow> (string \<Rightarrow> ('w, unit) act) \<Rightarrow>
   string option \<Rightarrow> string \<Rightarrow> bool \<Rightarrow> ('w, string) act" where
  "get_tmpdir gettempdir candidate there mkdir tmpdir name create =
     bind (case tmpdir of None \<Rightarrow> gettempdir | Some t \<Rightarrow> if t = [] then gettempdir else ret t) (\<lambda>base.
     bind candidate (\<lambda>c.
     let path = path_join base ((if name = [] then ''flux-metrics-api-tmp'' else name) @ ''.'' @ c) in
     bind (reads (there path)) (\<lambda>old.
     andthen (if \<not> old \<and> create then mkdir path else ret ()) (ret path))))"

text \<open>\<open>pretty_print_list\<close>: one line for each dictionary, without commas at the ends of the text.\<close>

definition pretty_item :: "(pyval \<Rightarrow> string) \<Rightarrow> pyval \<Rightarrow> string res" where
  "pretty_item str v = (case v of
      PDict kvs \<Rightarrow> Inr (concat (map (\<lambda>(k, x). ''('' @ k @ '':'' @ str x @ ''),'') kvs))
    | _ \<Rightarrow> Inl AttributeError)"

definition pretty_print_list :: "(pyval \<Rightarrow> string) \<Rightarrow> pyval \<Rightarrow> string res" where
  "pretty_print_list str v =
     rbind (rmap (pretty_item str) (case v of PList xs \<Rightarrow> xs | _ \<Rightarrow> [v])) (\<lambda>ls.
     let text = join_char (CHR 0x0A) ls in
     Inr (rev (dropWhile (\<lambda>c. c = CHR '','') (rev (dropWhile (\<lambda>c. c = CHR '','') text)))))"

text \<open>A process whose state is its directory and the rest comes back to where it was.\<close>

lemma in_workdir_returns:
  assumes "getcwd w = (Inr here, w)" and "\<And>d u. d \<in> dirs \<Longrightarrow> fst (chdir d u) = Inr () \<and> cwd (snd (chdir d u)) = d"
    and "here \<in> dirs" and "dir \<in> dirs"
  shows "cwd (snd (in_workdir getcwd chdir dir body w)) = here \<and>
    fst (in_workdir getcwd chdir dir body w) = fst (body (snd (chdir dir w)))"
proof -
  obtain w1 where c: "chdir dir w = (Inr (), w1)" using assms(2) [OF assms(4), of w] by (metis prod.collapse)
  obtain r w2 where b: "body w1 = (r, w2)" by (cases "body w1")
  obtain w3 where h: "chdir here w2 = (Inr (), w3)" "cwd w3 = here" using assms(2) [OF assms(3), of w2] by (metis prod.collapse)
  show ?thesis by (simp add: in_workdir_def bind_def andthen_def assms(1) c b h)
qed

section \<open>The cluster around the manager\<close>

definition get_namespace :: "(string \<Rightarrow> string option) \<Rightarrow> string option" where
  "get_namespace files = map_option strip (files ''/var/run/secrets/kubernetes.io/serviceaccount/namespace'')"

text \<open>\<open>list_pods ns selector\<close> are the pods with a label in a namespace.\<close>

definition get_manager_pod ::
  "(string \<Rightarrow> string option) \<Rightarrow> (string option \<Rightarrow> string \<Rightarrow> ('w, 'p list) act) \<Rightarrow> ('w, 'p) act" where
  "get_manager_pod files list_pods =
     bind (list_pods (get_namespace files) ''component=state-machine-manager'') (\<lambda>ps. case ps of
        [p] \<Rightarrow> ret p
      | _ \<Rightarrow> throw AssertionError)"

end
