(* ===== verification/Registry.thy ===== *)
theory Registry
  imports Tracker_Interface
begin

text \<open>
  The client of the artifact registry: \<open>manager/registry.py\<close>. What the \<open>oras\<close> package provides,
  that is layers, annotations, uploads and their check, and the file system are parameters. The
  file shows which blobs and which manifest a push uploads.
\<close>

section \<open>Artifacts\<close>

record artifact =
  ra_archives :: "(string, string) dict"
  ra_titles :: "(string, string) dict"
  ra_annotations :: pyval

definition new_artifact :: "pyval \<Rightarrow> artifact" where
  "new_artifact annotations = \<lparr>ra_archives = [], ra_titles = [], ra_annotations = py_or annotations (PDict [])\<rparr>"

definition add_title :: "string \<Rightarrow> string \<Rightarrow> artifact \<Rightarrow> artifact" where
  "add_title path title a = a\<lparr>ra_titles := dict_set path title (ra_titles a)\<rparr>"

definition add_archive :: "string \<Rightarrow> string \<Rightarrow> artifact \<Rightarrow> artifact" where
  "add_archive path media_type a = a\<lparr>ra_archives := dict_set path media_type (ra_archives a)\<rparr>"

definition generate_uri :: "string \<Rightarrow> string \<Rightarrow> string option \<Rightarrow> string" where
  "generate_uri host name tag =
     host @ ''/'' @ lower name @ '':'' @ (case tag of None \<Rightarrow> ''latest'' | Some t \<Rightarrow> if t = [] then ''latest'' else t)"

text \<open>\<open>get_oras_client\<close>: secure connections unless told otherwise, a login when both parts are set.\<close>

record client_settings =
  cl_insecure :: pyval
  cl_tls_verify :: pyval
  cl_login :: "(string \<times> string) option"

definition get_oras_client :: "(string \<Rightarrow> string option) \<Rightarrow> pyval \<Rightarrow> pyval \<Rightarrow> client_settings" where
  "get_oras_client environ tls_verify plain_http =
     \<lparr>cl_insecure = (if plain_http = PNone then PBool False else plain_http),
      cl_tls_verify = (if tls_verify = PNone then PBool True else tls_verify),
      cl_login = (case (environ ''ORAS_USER'', environ ''ORAS_PASS'') of
         (Some u, Some p) \<Rightarrow> if u \<noteq> [] \<and> p \<noteq> [] then Some (u, p) else None
       | _ \<Rightarrow> None)\<rparr>"

section \<open>Pushing\<close>

text \<open>
  The package and the file system: \<open>o_annotations\<close> looks a name up in an annotation set,
  \<open>o_layer blob type is_dir\<close> makes a layer, \<open>o_targz\<close> packs a directory and gives the path of the
  archive, \<open>o_check\<close> raises for a response that is no success. A manifest starts as the package
  makes it, without layers; the configuration is a layer of its own.
\<close>

record ('w, 'r) oras =
  o_annotations :: "pyval \<Rightarrow> string \<Rightarrow> pyval"
  o_layer :: "string \<Rightarrow> string \<Rightarrow> bool \<Rightarrow> ('w, (string \<times> pyval) list) act"
  o_upload :: "string \<Rightarrow> (string \<times> pyval) list \<Rightarrow> ('w, 'r) act"
  o_check :: "'r \<Rightarrow> unit res"
  o_config :: "(string \<times> pyval) list \<times> string option"
  o_upload_manifest :: "(string \<times> pyval) list \<Rightarrow> ('w, 'r) act"
  o_manifest :: "(string \<times> pyval) list"
  o_exists :: "string \<Rightarrow> 'w \<Rightarrow> bool"
  o_isdir :: "string \<Rightarrow> 'w \<Rightarrow> bool"
  o_targz :: "string \<Rightarrow> ('w, string) act"
  o_remove :: "string \<Rightarrow> ('w, unit) act"
  o_empty_config :: "('w, string) act"

text \<open>\<open>os.path.basename\<close>.\<close>

definition basename :: "string \<Rightarrow> string" where
  "basename p = rev (takeWhile (\<lambda>c. c \<noteq> CHR ''/'') (rev p))"

text \<open>\<open>layer["annotations"]\<close>: the title, updated with the annotations that were found.\<close>

definition layer_annotations :: "string \<Rightarrow> pyval \<Rightarrow> pyval res" where
  "layer_annotations title found =
     (let own = [(''org.opencontainers.image.title'', PStr title)] in
      if \<not> truthy found then Inr (PDict own)
      else (case found of PDict kvs \<Rightarrow> Inr (PDict (foldl (\<lambda>d (k, v). dict_set k v d) own kvs))
            | _ \<Rightarrow> Inl TypeError))"

text \<open>
  One archive: the body of the loop of \<open>push\<close>. The variable \<open>blob\<close> is assigned the packed archive
  of a directory, so that is what is looked up and uploaded from then on. The layers so far are
  the result.
\<close>

definition push_blob ::
  "('w, 'r) oras \<Rightarrow> pyval \<Rightarrow> (string, string) dict \<Rightarrow> string \<times> string \<Rightarrow> pyval list \<Rightarrow> ('w, pyval list) act" where
  "push_blob reg annotations titles = (\<lambda>(path, media_type) layers.
     bind (reads (\<lambda>w. (o_exists reg path w, o_isdir reg path w))) (\<lambda>(there, is_dir).
       if \<not> there then throw ValueError
       else
         bind (if is_dir then o_targz reg path else ret path) (\<lambda>blob.
         bind (o_layer reg blob media_type is_dir) (\<lambda>layer.
         bind (lift (layer_annotations
             (case dict_get titles path of None \<Rightarrow> basename path | Some t \<Rightarrow> t) (o_annotations reg annotations blob))) (\<lambda>ann.
         let full = dict_set ''annotations'' ann layer in
         bind (o_upload reg blob full) (\<lambda>response.
         bind (lift (o_check reg response)) (\<lambda>_.
         bind (reads (o_exists reg blob)) (\<lambda>left.
         andthen (if is_dir \<and> left then o_remove reg blob else ret ())
           (ret (layers @ [PDict full]))))))))))"

fun push_blobs ::
  "('w, 'r) oras \<Rightarrow> pyval \<Rightarrow> (string, string) dict \<Rightarrow> (string \<times> string) list \<Rightarrow> pyval list \<Rightarrow> ('w, pyval list) act" where
  "push_blobs reg annotations titles [] layers = ret layers"
| "push_blobs reg annotations titles (x # xs) layers =
     bind (push_blob reg annotations titles x layers) (push_blobs reg annotations titles xs)"

definition with_annotations :: "pyval \<Rightarrow> (string \<times> pyval) list \<Rightarrow> (string \<times> pyval) list" where
  "with_annotations found d = (if truthy found then dict_set ''annotations'' found d else d)"

text \<open>The response of the configuration is what the push returns; the manifest's is checked only.\<close>

definition push ::
  "('w, 'r) oras \<Rightarrow> (string, string) dict \<Rightarrow> pyval \<Rightarrow> (string, string) dict \<Rightarrow> ('w, 'r) act" where
  "push reg archives annotations titles =
     bind (push_blobs reg (py_or annotations (PDict [])) titles archives []) (\<lambda>layers.
     let anns = o_annotations reg (py_or annotations (PDict []));
         manifest = with_annotations (anns ''$manifest'') (dict_set ''layers'' (PList layers) (o_manifest reg));
         conf = with_annotations (anns ''$config'') (fst (o_config reg)) in
     bind (case snd (o_config reg) of Some f \<Rightarrow> ret f | None \<Rightarrow> o_empty_config reg) (\<lambda>file.
     bind (o_upload reg file conf) (\<lambda>response.
     bind (lift (o_check reg response)) (\<lambda>_.
     bind (o_upload_manifest reg (dict_set ''config'' (PDict conf) manifest)) (\<lambda>last.
     bind (lift (o_check reg last)) (\<lambda>_. ret response))))))"

text \<open>\<open>connect settings target\<close> is the client with these settings, pushing to the target.\<close>

definition artifact_push ::
  "(client_settings \<Rightarrow> string \<Rightarrow> ('w, 'r) oras) \<Rightarrow> (string \<Rightarrow> string option) \<Rightarrow> string \<Rightarrow> pyval \<Rightarrow> pyval \<Rightarrow> artifact \<Rightarrow> ('w, unit) act" where
  "artifact_push connect environ target tls_verify plain_http a =
     bind (push (connect (get_oras_client environ tls_verify plain_http) target)
        (ra_archives a) (ra_annotations a) (ra_titles a)) (\<lambda>_. ret ())"

section \<open>What a push uploads\<close>

definition titled :: "string \<Rightarrow> pyval \<Rightarrow> bool" where
  "titled title layer \<longleftrightarrow> (\<exists>ann. py_item layer ''annotations'' = Inr (PDict ann) \<and>
     dict_get ann ''org.opencontainers.image.title'' = Some (PStr title))"

definition title_of :: "(string, string) dict \<Rightarrow> string \<Rightarrow> string" where
  "title_of titles path = (case dict_get titles path of None \<Rightarrow> basename path | Some t \<Rightarrow> t)"

text \<open>Annotations that do not set the title themselves.\<close>

definition untitled :: "('w, 'r) oras \<Rightarrow> pyval \<Rightarrow> bool" where
  "untitled reg annotations \<longleftrightarrow> (\<forall>n kvs. o_annotations reg annotations n = PDict kvs \<longrightarrow>
     ''org.opencontainers.image.title'' \<notin> fst ` set kvs)"

lemma fold_update_other:
  "k \<notin> fst ` set kvs \<Longrightarrow> dict_get (foldl (\<lambda>d (k, v). dict_set k v d) own kvs) k = dict_get own k"
  by (induction kvs arbitrary: own) (auto simp: update_conv')

lemma layer_annotations_title:
  assumes "layer_annotations title found = Inr ann"
    and "\<And>kvs. found = PDict kvs \<Longrightarrow> ''org.opencontainers.image.title'' \<notin> fst ` set kvs"
  shows "\<exists>kvs. ann = PDict kvs \<and> dict_get kvs ''org.opencontainers.image.title'' = Some (PStr title)"
  using assms
  by (auto simp: layer_annotations_def Let_def fold_update_other split: if_splits pyval.splits)

lemma push_blob_result:
  assumes "push_blob reg annotations titles (path, ty) layers w = (Inr ls, w')" and "untitled reg annotations"
  shows "\<exists>layer. ls = layers @ [layer] \<and> titled (title_of titles path) layer \<and> o_exists reg path w"
proof -
  obtain blob layer ann where
    a: "layer_annotations (title_of titles path) (o_annotations reg annotations blob) = Inr ann"
    and l: "ls = layers @ [PDict (dict_set ''annotations'' ann layer)]" and e: "o_exists reg path w"
    using assms(1)
    by (auto simp: push_blob_def bind_Inr_iff andthen_Inr_iff reads_def ret_def lift_def throw_def Let_def title_of_def
        split: if_splits)
  from layer_annotations_title [OF a] assms(2) obtain kvs where
    "ann = PDict kvs" "dict_get kvs ''org.opencontainers.image.title'' = Some (PStr (title_of titles path))"
    unfolding untitled_def by blast
  then have "titled (title_of titles path) (PDict (dict_set ''annotations'' ann layer))"
    by (simp add: titled_def dict_at_def update_conv')
  with l e show ?thesis by blast
qed

lemma push_blobs_result:
  assumes "push_blobs reg annotations titles xs layers w = (Inr ls, w')" and "untitled reg annotations"
  shows "\<exists>new. ls = layers @ new \<and> list_all2 (\<lambda>x layer. titled (title_of titles (fst x)) layer) xs new"
  using assms(1)
proof (induction xs arbitrary: layers w)
  case Nil
  then show ?case by (simp add: ret_def)
next
  case (Cons x xs)
  obtain path ty where x: "x = (path, ty)" by (cases x)
  from Cons.prems obtain l1 w1 where
    b: "push_blob reg annotations titles (path, ty) layers w = (Inr l1, w1)"
    and r: "push_blobs reg annotations titles xs l1 w1 = (Inr ls, w')"
    by (auto simp: bind_Inr_iff x)
  obtain layer where l: "l1 = layers @ [layer]" "titled (title_of titles path) layer"
    using push_blob_result [OF b assms(2)] by blast
  obtain new where "ls = l1 @ new" "list_all2 (\<lambda>x layer. titled (title_of titles (fst x)) layer) xs new"
    using Cons.IH [OF r] by blast
  with l show ?case by (auto simp: x)
qed

text \<open>A push that returns has uploaded a manifest whose layers are the archives of the artifact, one
  each and in their order, every layer titled with the title given for its path or else with the
  last part of the path.\<close>

theorem push_uploads_archives:
  assumes "push reg archives annotations titles w = (Inr response, w')"
    and "untitled reg (py_or annotations (PDict []))"
  shows "\<exists>m layers w1 last. o_upload_manifest reg m w1 = (Inr last, w') \<and> o_check reg last = Inr () \<and>
    dict_get m ''layers'' = Some (PList layers) \<and>
    list_all2 (\<lambda>x layer. titled (title_of titles (fst x)) layer) archives layers"
proof -
  obtain layers w0 m w1 last where
    b: "push_blobs reg (py_or annotations (PDict [])) titles archives [] w = (Inr layers, w0)"
    and m: "m = dict_set ''config'' (PDict (with_annotations (o_annotations reg (py_or annotations (PDict [])) ''$config'')
        (fst (o_config reg)))) (with_annotations (o_annotations reg (py_or annotations (PDict [])) ''$manifest'')
        (dict_set ''layers'' (PList layers) (o_manifest reg)))"
    and u: "o_upload_manifest reg m w1 = (Inr last, w')" "o_check reg last = Inr ()"
    using assms(1) by (auto simp: push_def bind_Inr_iff lift_def ret_def Let_def)
  have "dict_get m ''layers'' = Some (PList layers)" by (simp add: m with_annotations_def update_conv')
  with push_blobs_result [OF b assms(2)] u show ?thesis by auto
qed

text \<open>A registry that accepts everything and remembers the manifests.\<close>

definition example_oras :: "((string \<times> pyval) list list, string) oras" where
  "example_oras = \<lparr>o_annotations = (\<lambda>a n. PNone), o_layer = (\<lambda>b t d. ret [(''mediaType'', PStr t)]),
     o_upload = (\<lambda>b l. ret ''201''), o_check = (\<lambda>r. Inr ()), o_config = ([], Some ''config.json''),
     o_upload_manifest = (\<lambda>m w. (Inr ''201'', w @ [m])), o_manifest = [(''layers'', PList [])],
     o_exists = (\<lambda>p w. True), o_isdir = (\<lambda>p w. False), o_targz = ret, o_remove = (\<lambda>p. ret ()),
     o_empty_config = ret ''config.json''\<rparr>"

theorem push_uploads_archives_witness:
  "\<exists>m layer. push example_oras [(''out/a.txt'', ''text/plain'')] PNone [] [] = (Inr ''201'', [m]) \<and>
     dict_get m ''layers'' = Some (PList [layer]) \<and> titled ''a.txt'' layer"
proof -
  have u: "untitled example_oras (py_or PNone (PDict []))" by (simp add: untitled_def example_oras_def)
  have b: "title_of [] ''out/a.txt'' = ''a.txt''" by code_simp
  obtain w' where w': "push example_oras [(''out/a.txt'', ''text/plain'')] PNone [] [] = (Inr ''201'', w')"
    by (simp add: push_def push_blob_def layer_annotations_def example_oras_def bind_def reads_def ret_def lift_def
        andthen_def with_annotations_def Let_def)
  from push_uploads_archives [OF w' u] obtain m layers w1 where
    "o_upload_manifest example_oras m w1 = (Inr ''201'', w')" "dict_get m ''layers'' = Some (PList layers)"
    "list_all2 (\<lambda>x layer. titled (title_of [] (fst x)) layer) [(''out/a.txt'', ''text/plain'')] layers"
    by (auto simp: example_oras_def)
  then obtain layer where l: "dict_get m ''layers'' = Some (PList [layer])" "titled ''a.txt'' layer" "w' = w1 @ [m]"
    by (auto simp: list_all2_Cons1 b example_oras_def)
  moreover have "w' = [last w']" using w'
    by (auto simp: push_def push_blob_def layer_annotations_def example_oras_def bind_def reads_def ret_def lift_def
        andthen_def with_annotations_def Let_def)
  ultimately show ?thesis using w' by (metis last_snoc)
qed

end
