(* ===== verification/Spec2Isabelle.thy ===== *)
theory Spec2Isabelle
  imports Command_Line Kube_Capacity Flux_Manager Manager_Progress Gantt Kube_Events Manager_Utils Registry
begin

text \<open>
  A verification development for the state machine operator: a workflow manager that runs
  sequences of jobs on Kubernetes or Flux. All paths below are relative to
  src/python/state_machine_operator/.

  The program. A workflow file names the steps of a sequence; every step has a job file. The
  manager (manager/manager.py) starts sequences, each with an identifier and a state machine
  (machine/machine.py) whose states are the steps. A machine holds one tracker per step
  (tracker/tracker.py and the packages tracker/kubernetes and tracker/flux), which submits the job of
  the step when the state is entered. The scheduler's stream of job events drives everything: a
  finished job moves or ends its sequence, feeds metrics (manager/metrics.py) and the rules of the
  workflow (config/types.py), which repeat steps, resize them or end the workflow, and lets new
  sequences start. After a restart the manager rebuilds its machines from the jobs the cluster lists.

  The theories, in the order they build on each other:

  - Prelude: results (\<open>'a res\<close>: an exception or a value), computations on a state that keep the state
    reached when an exception is raised (\<open>('s, 'a) act\<close>), the predicates \<open>keeps\<close> and \<open>hoare\<close> on them with
    the collection \<open>act_inv\<close>, dictionaries in insertion order, strings.
  - Pyval: the values of YAML and JSON with Python's operations on them, equality of numbers, truth,
    comparison, arithmetic, subscripts, \<open>int\<close>.
  - Rules: config/types.py, actions and rules, the pattern of their condition, repetitions, backoff.
  - Config: config/config.py, utils.py and defaults.py: loading and every access to the workflow.
  - TrackerUtils: tracker/types.py and tracker/utils.py: job setups, codes, walltimes.
  - Tracker_Interface: tracker/job.py and what the manager sees of a tracker module; the locales
    \<open>job_status\<close> and \<open>final_job_status\<close> state the contract of the status methods of jobs.
  - Machine, with Machine_Lemmas, Machine_Runs, Machine_Restart, Machine_Examples: machine/machine.py.
  - Metrics: manager/metrics.py.
  - Manager: manager/manager.py, tracker/__init__.py and \<open>timed\<close> of manager/utils.py. Manager_Invariant
    holds two locales that say what has to be shown of a predicate of the state so that the operations keep
    it: \<open>manager_steady\<close> for the operations that leave the workflow alone and mark no machine, and
    \<open>manager_invariant\<close>, a sublocale of it, for the whole event loop. Manager_Runs interprets the second with
    the consistency of the state, Manager_Refinement with the abstract specification, Manager_Progress the
    first with the place of a machine on its route. Manager_Decisions has the decisions on the
    state of the cluster, Manager_Sequences what happens to one sequence.
  - Kube_Jobs: tracker/kubernetes/job.py and state.py; interprets \<open>final_job_status\<close>.
  - Kube_Capacity: the manager and the cluster over a call of \<open>new_jobs\<close>.
  - Kube_Events: \<open>send_kubernetes_event\<close> of tracker/kubernetes/tracker.py and \<open>receive_metrics\<close> of
    tracker/kubernetes/event.py.
  - Flux_Jobs: tracker/flux/job.py, state.py and event.py; interprets \<open>job_status\<close> only, because Flux
    jobs do not satisfy the stronger contract.
  - Tracker_Base: tracker/tracker.py; the locale \<open>submission_adapter\<close> is the contract of an adapter
    under which the submission protocol is proved once.
  - Kube_Tracker, with Kube_Examples: tracker/kubernetes/tracker.py; interprets \<open>submission_adapter\<close>.
  - Kube_Manager: the Kubernetes tracker as the manager's tracker, \<open>kube_ops\<close>, and what starting a
    sequence does down to the jobs of the cluster.
  - Kube_Nodes: the class \<open>Watcher\<close> of tracker/kubernetes/event.py.
  - Flux_Tracker: tracker/flux/tracker.py and handle.py.
  - Flux_Template: tracker/template.py as a tree of pieces, with the part of the template engine's documented
    semantics that it uses, and what it makes of the arguments of the Flux tracker.
  - Flux_Manager: the Flux tracker as the manager's tracker, \<open>flux_ops\<close>, and what starting a sequence
    puts into the queue of the scheduler.
  - Times_Analysis: the parsers of analysis/manager.py, which read what the node watcher and the
    manager write. Gantt: the chart of the same file, as the bars and axes it consists of.
  - Schemas: schema.py, both schemas and the meaning of their keywords.
  - Command_Line: manager/__init__.py, the options and their meaning, from the parsed arguments to the end of a run.
  - Manager_Utils: the other helpers of manager/utils.py, tracker/heartbeat.py, the files and
    directories of utils.py and tracker/kubernetes/utils.py.
  - Registry: manager/registry.py.
  - this theory: the properties of the manager together with the jobs of one scheduler.

  State and operations. An object with state is a record: \<open>machine\<close> (the instance of a generated
  class: current state, flags, trackers), \<open>mgr\<close> (the manager: workflow, tracked sequences, a heap of
  machines, metrics, times), \<open>workflow\<close>, \<open>rule\<close>, \<open>action\<close>, \<open>node_watch\<close>. Machines are shared between the
  dictionary of the manager and local variables and so live in a heap. Every method is a definition
  of its name; a constant that another constant's name would hide has a prefix for its part. A
  method that raises leaves the state as the exception found it. What the code mutates in place,
  such as rules and job descriptions, is written back to the place it was read from.

  What the lemmas show. The state machine enters the steps in order; the invariant of a machine is
  kept by every call. Over all calls, restarts and repeats included, \<open>change\<close> submits a step at most once
  and in order, and every step it passes as long as the machine is not marked (Machine_Runs). A machine that was
  rebuilt for a running job submits from the first step again (Machine_Restart).
  In a workflow without rules every sequence moves on by one step for each of its successes and ends
  in \<open>complete\<close>, from its start on (Manager_Progress). The manager's state stays
  consistent over every stream of events, exceptions included (Manager_Runs, Command_Line), seen from
  outside it refines the specification that sequences begin, go on to the next step and end
  (Manager_Refinement), sequences do not touch each other, and the number of sequences fits the
  cluster (Manager_Decisions). Listing and events are related for both schedulers (Kube_Jobs,
  Flux_Jobs), and what their disagreements do to a sequence is shown in this theory. Submission is tidied up after errors, labels are read back (Kube_Tracker), and
  a started sequence has a job that the manager can see exactly when the server accepted it in the
  manager's own namespace (Kube_Manager); the jobs it starts never overcommit the cluster by the next
  reading of it (Kube_Capacity). On Flux a started sequence has one job in the queue (Flux_Manager),
  whose script holds the lines of the job's own and no registry (Flux_Template). The records
  of nodes stay well formed and the analysis accepts them (Kube_Nodes, Times_Analysis). A validated
  workflow has the types the trackers rely on (Schemas). Several theorems state behaviour the
  authors did not intend; their text says so.

  Bounds and fuel. Two recursions of the code are bounded only by the recursion limit of the interpreter: drawing
  a fresh identifier (\<open>e_depth\<close> in the environment, where running out raises as Python does) and
  replacing a config map (the depth of \<open>create_configmap\<close>: two calls are enough when the server accepts
  the deletion, with refused deletions no depth is, as \<open>configmap_replaced\<close> shows). \<open>conforms\<close> takes a depth for the nesting of schemas, and a sound
  validator is one that only accepts what conforms at some depth. A stream of events is the finite
  list of what has been delivered so far.

  Numbers. Integers of Python are \<open>int\<close>. A finite float is a rational number, results of arithmetic are
  rounded to the nearest double by \<open>to_double\<close>. The infinities and the undefined number, which YAML can
  denote, are the values \<open>PInf\<close> and \<open>PNan\<close>. Integers and quotients outside the range of floats raise
  as in Python; sums and differences of finite floats are taken to be in the range.

  Parameters. Not part of the repository, and arguments of the definitions that use them: the package
  statemachine (the choice of a transition, with the law \<open>transition_choice\<close>; how its states compare with
  strings and print, with the law \<open>package_states\<close> where it matters), the statistics of river,
  the Kubernetes and Flux clients with the cluster behind them (with the laws \<open>job_server\<close>, \<open>configmap_server\<close>,
  \<open>event_server\<close> and \<open>flux_queue\<close>), oras, the template engine where it renders a job's own text, the JSON
  and YAML parsers with the file system, the schema validator (with the law \<open>sound_validator\<close>), the
  clock, random draws, the import of a job's event script (its temporary file included). Each law is met by a concrete instance in
  the witnesses.

  Not modelled: logging and printing; the drawing in analysis/manager.py and all of analysis/plot.py, which
  only call plotting libraries; telling the words of the command line apart; thread objects; setup.py;
  the contents of jobs under src/examples.

  Plan. Next: progress in workflows with rules, where a repeated step takes more than one success, and
  the life of a sequence on a cluster whose jobs progress by themselves.
\<close>

section \<open>Failures in Kubernetes\<close>

text \<open>C16. The event of a failed Kubernetes job that carries no completion time, which the server sets for
  successful jobs only, does not end its sequence: whatever the event handler does, the sequence
  stays tracked with its machine, which stays in its step. Yet the job is listed as failed, so the
  sequence is neither active nor completed in the reading of the cluster.\<close>

theorem kube_failure_unnoticed:
  assumes "transition_choice (lib_pick (e_lib env))" and "good_steps ns" and "mgr_ok ns s"
    and "dict_get (trackers s) (kube_jobid j) = Some i"
    and "kj_completion j = None" and "positive (kj_failed j)"
  shows "dict_get (trackers (snd (handle_event env (kube_view j) s))) (kube_jobid j) = Some i \<and>
    m_current (heap (snd (handle_event env (kube_view j) s)) ! i) = m_current (heap s ! i) \<and>
    kube_class j = Failed"
proof -
  define R where "R x m \<longleftrightarrow> (x = i \<longrightarrow> m_current m = m_current (heap s ! i))" for x and m :: machine
  have c: "\<not> kube_is_completed j" using assms(5) by (simp add: kube_is_completed_def)
  have n: "\<not> job_failed (kube_view j)" "\<not> job_succeeded (kube_view j)" "jobid (kube_view j) = kube_jobid j"
    using kube.not_completed_neither [OF c] by (simp_all add: kube_view_def)
  have i: "i < length (heap s)" using assms(3,4) by (auto simp: mgr_ok_def)
  have inv: "mgr_inv ns (Suc i) R [kube_jobid j \<mapsto> i] s"
    using assms(3,4) Suc_leI [OF i] by (auto simp: mgr_ok_def mgr_inv_def R_def)
  have "mgr_inv ns (Suc i) R [kube_jobid j \<mapsto> i] (snd (handle_event env (kube_view j) s))"
    by (rule handle_event_inv [OF assms(1,2) _ _ inv]) (use n in \<open>auto simp: R_def closed_def movable_def\<close>)
  then show ?thesis
    using assms(5,6) by (auto simp: mgr_inv_def R_def kube_class_iff)
qed

theorem kube_failure_unnoticed_witness:
  "dict_get (trackers (snd (handle_event example_listing_env
     (kube_view (example_kube_job ''job_a'' None None (Some 1) None\<lparr>kj_labels := [(''app'', ''job_a''), (''jobid'', ''job_7'')]\<rparr>))
     example_going))) (Some ''job_7'') = Some 0"
  using kube_failure_unnoticed [OF example_env_pick example_good example_going_ok, of
      "example_kube_job ''job_a'' None None (Some 1) None\<lparr>kj_labels := [(''app'', ''job_a''), (''jobid'', ''job_7'')]\<rparr>" 0]
  by (simp add: example_kube_job_def kube_jobid_def label_of_def operator_label_def example_going_def
      example_two_def positive_def)

text \<open>C24. A step that succeeds after a retry leaves its sequence stuck. The cluster is read as if all were well:
  as long as no job of the sequence is listed as failed, the sequence counts as active, or as
  completed when the step is the last one. But the event of the finished job counts as a failure, so
  whatever events follow, if those of the sequence come from jobs that are not finished or have
  failed pods, its machine never leaves the step it was in.\<close>

theorem retried_step_stuck:
  assumes "transition_choice (lib_pick (e_lib env))" and "good_steps ns" and "mgr_ok ns s"
    and "dict_get (trackers s) (kube_jobid j) = Some i" and "retried j"
    and "str_truthy (kube_jobid j)" and "str_truthy (kube_step_name j)"
    and "\<forall>v \<in> set evs. jobid v = kube_jobid j \<longrightarrow> (\<exists>k. v = kube_view k \<and> (kj_completion k = None \<or> kj_failed k \<noteq> None))"
    and "j \<in> set js" and "\<forall>k \<in> set js. kube_jobid k = kube_jobid j \<longrightarrow> kube_class k \<noteq> Failed"
  shows "m_current (heap (snd (watch env evs s)) ! i) = m_current (heap s ! i) \<and>
    (let seen = sort_state (PStr n) (kube_list_by_status None None js) in
       kube_jobid j \<in> (if kube_step_name j = Some n then completed_ids seen else completed_ids seen \<union> active_ids seen))"
proof -
  let ?l = "kube_list_by_status None None js"
  have "\<forall>v \<in> set evs. jobid v = kube_jobid j \<longrightarrow> \<not> job_succeeded v"
    using assms(8) by (fastforce simp: kube_view_def kube_is_succeeded_def kube_is_completed_def)
  from watch_unsuccessful [OF assms(1-4) this]
  have stuck: "m_current (heap (snd (watch env evs s)) ! i) = m_current (heap s ! i)" .
  have v: "kube_view j \<in> set (success ?l)"
    using retried_judged(1) [OF assms(5)] assms(9)
    by (auto simp: kube_list_by_status_def with_label_def sort_jobs_fields)
  have bad: "kube_jobid j \<notin> failed_ids (sort_state (PStr n) ?l)"
    using assms(10) unfolding sort_state_mem(1)
    by (auto simp: kube_list_by_status_def with_label_def sort_jobs_fields kube_view_def)
  have f: "jobid (kube_view j) = kube_jobid j" "step_name (kube_view j) = kube_step_name j"
    by (simp_all add: kube_view_def)
  have "kube_jobid j \<in> completed_ids (sort_state (PStr n) ?l)" if "kube_step_name j = Some n"
    using v bad assms(6,7) that f unfolding sort_state_mem(2) in_step_named by metis
  moreover have "kube_jobid j \<in> completed_ids (sort_state (PStr n) ?l) \<union> active_ids (sort_state (PStr n) ?l)"
    if "kube_step_name j \<noteq> Some n"
    using v bad that f unfolding Un_iff sort_state_mem(3) in_step_named by metis
  ultimately show ?thesis using stuck by (simp add: Let_def)
qed

definition retried_job :: kube_job where
  "retried_job = example_kube_job ''job_a'' None (Some 1) (Some 1) (Some 9000000)
     \<lparr>kj_labels := [(''app'', ''job_a''), (''jobid'', ''job_7'')]\<rparr>"

theorem retried_step_stuck_witness:
  "m_current (heap (snd (watch example_listing_env [kube_view retried_job] example_going)) ! 0) = m_current (heap example_going ! 0) \<and>
   Some ''job_7'' \<in> completed_ids (sort_state (PStr ''job_a'') (kube_list_by_status None None [retried_job]))"
proof -
  have j: "kube_jobid retried_job = Some ''job_7''" "kube_step_name retried_job = Some ''job_a''"
    "retried retried_job" "kj_failed retried_job \<noteq> None"
    by (simp_all add: retried_job_def example_kube_job_def kube_jobid_def kube_step_name_def label_of_def operator_label_def
        retried_def positive_def)
  have "dict_get (trackers example_going) (kube_jobid retried_job) = Some 0"
    by (simp add: j example_going_def example_two_def)
  from retried_step_stuck [OF example_env_pick example_good example_going_ok this j(3), of "[kube_view retried_job]"
      "[retried_job]" "''job_a''"] j retried_judged(1) [OF j(3)]
  show ?thesis by (auto simp: str_truthy_def Let_def)
qed

section \<open>Step names in Flux\<close>

text \<open>C33. A job submitted to Flux is read back with the identifier of its sequence, but its step is
  recognised only when the name of the step has no dash. A sequence whose last step has a dash in
  its name therefore never counts as completed: its successful last job keeps it among the active
  sequences.\<close>

theorem flux_dashed_step_lost:
  assumes "generate_flux_job api L d step (Some jid) w = (Inr spec, w')" and "desc_name d = Inr name"
    and "flux_view (submitted_job spec fid) st = Inr v" and "jid \<noteq> []" and "name \<noteq> []"
  shows "jobid v = Some jid \<and> (in_step v (PStr name) \<longleftrightarrow> CHR ''-'' \<notin> set name) \<and>
    completed_ids (sort_state (PStr name) (no_jobs\<lparr>success := [v]\<rparr>)) = (if CHR ''-'' \<in> set name then {} else {Some jid}) \<and>
    active_ids (sort_state (PStr name) (no_jobs\<lparr>success := [v]\<rparr>)) = (if CHR ''-'' \<in> set name then {Some jid} else {})"
proof -
  note v = submitted_view [OF assms(1-3)]
  have s: "in_step v (PStr name) \<longleftrightarrow> CHR ''-'' \<notin> set name"
    using replace_char_same [of "CHR ''-''" "CHR ''_''" name] by (simp add: in_step_def v opt_val_def py_eq_def)
  have "replace_char (CHR ''-'') (CHR ''_'') name \<noteq> []" using assms(5) by (simp add: replace_char_def)
  then show ?thesis
    using v s assms(4) by (auto simp: sort_state_def ids_where_def no_jobs_def str_truthy_def)
qed

text \<open>A step whose name has a dash, written by a file system that takes every file.\<close>

definition dashed_desc :: pyval where
  "dashed_desc = PDict [(''name'', PStr ''job-b''), (''config'', PDict [(''command'', PStr ''date'')])]"

definition dashed_step :: job_setup where
  "dashed_step = \<lparr>setup_name = ''job_7'', setup_nodes = 1, cores_per_task = 1, script = PNone, tasks = PNone,
     walltime = PNone, gpus = 0, setup_workdir = PStr ''/tmp/job_7/job-b''\<rparr>"

definition example_flux_api :: "unit flux_api" where
  "example_flux_api = \<lparr>f_from_command = (\<lambda>_. Inr ()), f_submit = (\<lambda>_. ret (PInt 11)), f_cancel = (\<lambda>_. ret ()),
     f_exists = (\<lambda>_ _. False), f_makedirs = (\<lambda>_. ret ()), f_write = (\<lambda>_ _. ret ())\<rparr>"

definition dashed_spec :: jobspec where
  "dashed_spec = \<lparr>js_command = [''date''], js_nodes = 1, js_tasks = PInt 1, js_cores = 1, js_gpus = 0,
     js_exclusive = False,
     js_user = [(''workflow'', PStr ''state-machine''), (''app'', PStr ''job_b''), (''jobname'', PStr ''job_7'')],
     js_job_name = ''job_b'', js_cwd = Some ''/tmp/job_7/job-b'', js_duration = PInt 0\<rparr>"

lemma dashed_generated:
  "generate_flux_job example_flux_api example_lib dashed_desc dashed_step (Some ''job_7'') () = (Inr dashed_spec, ())"
proof -
  have wall: "step_walltime dashed_step = Inr (PInt 0)"
    by (simp add: step_walltime_def dashed_step_def py_or_def minutes_def to_double_def trunc_def)
  have word: "shlex_split ''date'' = Inr [''date'']" by code_simp
  have spec: "flux_spec dashed_desc dashed_step (Some ''job_7'') (PInt 0) [''date''] ''job_b'' = Inr dashed_spec"
    by (simp add: flux_spec_def config_entry_def desc_config_def dashed_desc_def dict_at_def flux_tasks_def py_or_def
        py_in_def true_values_def py_eq_def dashed_step_def dashed_spec_def opt_str_def py_max_def)
  have "replace_char (CHR ''-'') (CHR ''_'') ''job-b'' = ''job_b''" by (simp add: replace_char_def)
  with wall word spec show ?thesis
    by (simp add: generate_flux_job_def desc_name_def dashed_desc_def dict_at_def flux_command_def config_entry_def
        desc_config_def py_or_def write_entrypoint_def example_flux_api_def py_eval Let_def)
      (simp add: dashed_step_def bind_def andthen_def lift_def ret_def reads_def)
qed

theorem flux_dashed_step_lost_witness:
  "\<exists>v. flux_view (submitted_job dashed_spec (PInt 11)) (info_dict example_flux_running) = Inr v \<and>
     active_ids (sort_state (PStr ''job-b'') (no_jobs\<lparr>success := [v]\<rparr>)) = {Some ''job_7''}"
proof -
  obtain v where v: "flux_view (submitted_job dashed_spec (PInt 11)) (info_dict example_flux_running) = Inr v"
    by (simp add: flux_view_def info_dict_status flux_jobid_def flux_step_name_def user_entry_def
        submitted_job_def dashed_spec_def example_flux_running_def dict_at_def opt_string_def)
  have "desc_name dashed_desc = Inr ''job-b''" by (simp add: desc_name_def dashed_desc_def dict_at_def)
  from flux_dashed_step_lost [OF dashed_generated this v] v show ?thesis by simp
qed

end
